(* ===== verification/Prelude.thy ===== *)
theory Prelude
  imports Main "HOL-Library.List_Lexorder" "HOL-Library.Char_ord"
begin

text \<open>
  What every component of the development shares: the fragment of Python's \<open>str\<close> and
  \<open>int\<close> the controller uses, the collections of rewrite rules, generic lemmas on
  enumerated lists, and the interface of an issue collector, the shape all the validation
  passes of the controller have.

  A Python string is a \<^typ>\<open>string\<close>, read as a sequence of code points below 256
  (Latin-1). The predicates on characters below are Python's own on that range: the white space
  \<open>str.strip\<close> removes includes U+0085 and U+00A0, and \<open>str.isdigit\<close> accepts the
  superscripts U+00B2, U+00B3 and U+00B9, which \<open>int\<close> refuses.
\<close>

named_theorems str_simps \<open>evaluation of the string operations\<close>
named_theorems exec_simps \<open>evaluation of the state-and-exception programs\<close>
named_theorems collector_iff \<open>a collector reports nothing exactly when its check holds\<close>

section \<open>Characters and strings\<close>

definition char_isspace :: "char \<Rightarrow> bool" where
  "char_isspace c \<longleftrightarrow> (let n = (of_char c :: nat) in
     9 \<le> n \<and> n \<le> 13 \<or> 28 \<le> n \<and> n \<le> 32 \<or> n = 133 \<or> n = 160)"

definition char_isdecimal :: "char \<Rightarrow> bool" where
  "char_isdecimal c \<longleftrightarrow> (let n = (of_char c :: nat) in 48 \<le> n \<and> n \<le> 57)"

definition char_isdigit :: "char \<Rightarrow> bool" where
  "char_isdigit c \<longleftrightarrow>
     char_isdecimal c \<or> (let n = (of_char c :: nat) in n = 178 \<or> n = 179 \<or> n = 185)"

text \<open>\<open>s.strip()\<close>, \<open>s.isdigit()\<close> and \<open>s.isascii() and s.isdigit()\<close>.\<close>

definition str_strip :: "string \<Rightarrow> string" where
  "str_strip s = rev (dropWhile char_isspace (rev (dropWhile char_isspace s)))"

definition str_isdigit :: "string \<Rightarrow> bool" where
  "str_isdigit s \<longleftrightarrow> s \<noteq> [] \<and> list_all char_isdigit s"

definition str_isdecimal :: "string \<Rightarrow> bool" where
  "str_isdecimal s \<longleftrightarrow> s \<noteq> [] \<and> list_all char_isdecimal s"

text \<open>\<open>s.split(sep)\<close> for a one-character separator: never the empty list.\<close>

fun str_split :: "char \<Rightarrow> string \<Rightarrow> string list" where
  "str_split c [] = [[]]"
| "str_split c (x # xs) =
     (if x = c then [] # str_split c xs
      else (case str_split c xs of [] \<Rightarrow> [[x]] | y # ys \<Rightarrow> (x # y) # ys))"

text \<open>\<open>s.partition(sep)\<close>: the text before the first separator, whether there is one, and the
  text after it.\<close>

definition str_partition :: "char \<Rightarrow> string \<Rightarrow> string \<times> bool \<times> string" where
  "str_partition c s =
     (takeWhile (\<lambda>x. x \<noteq> c) s, c \<in> set s, tl (dropWhile (\<lambda>x. x \<noteq> c) s))"

text \<open>\<open>sep.join(parts)\<close>.\<close>

fun str_join :: "string \<Rightarrow> string list \<Rightarrow> string" where
  "str_join sep [] = []"
| "str_join sep [x] = x"
| "str_join sep (x # y # zs) = x @ sep @ str_join sep (y # zs)"

text \<open>A value between single quotes, as the controller's messages show it.\<close>

definition quoted :: "string \<Rightarrow> string" where
  "quoted s = CHR 0x27 # s @ [CHR 0x27]"

section \<open>Decimal numbers\<close>

text \<open>\<open>str(n)\<close>.\<close>

fun str_of_nat :: "nat \<Rightarrow> string" where
  "str_of_nat n =
     (if n < 10 then [''0123456789'' ! n]
      else str_of_nat (n div 10) @ [''0123456789'' ! (n mod 10)])"

definition str_of_int :: "int \<Rightarrow> string" where
  "str_of_int i = (if i < 0 then ''-'' @ str_of_nat (nat (- i)) else str_of_nat (nat i))"

definition digit_value :: "char \<Rightarrow> nat" where
  "digit_value c = of_char c - 48"

definition decimal_value :: "string \<Rightarrow> nat" where
  "decimal_value s = foldl (\<lambda>acc c. 10 * acc + digit_value c) 0 s"

text \<open>
  \<open>int(s)\<close> on a string that passed \<open>s.isdigit()\<close>, the only way the controller calls it.
  \<open>None\<close> is the \<open>ValueError\<close>: a character that is no decimal digit, or more than the 4300
  digits the interpreter converts by default.
\<close>

definition int_max_str_digits :: nat where
  "int_max_str_digits = 4300"

definition int_of_digits :: "string \<Rightarrow> int option" where
  "int_of_digits s =
     (if str_isdecimal s \<and> length s \<le> int_max_str_digits then Some (int (decimal_value s))
      else None)"

text \<open>\<open>value or default\<close> on an optional integer and on an optional string: \<open>None\<close>, zero
  and the empty string are false.\<close>

definition int_or :: "int option \<Rightarrow> int \<Rightarrow> int" where
  "int_or v d = (case v of None \<Rightarrow> d | Some i \<Rightarrow> if i = 0 then d else i)"

definition str_or :: "string option \<Rightarrow> string \<Rightarrow> string" where
  "str_or v d = (case v of None \<Rightarrow> d | Some s \<Rightarrow> if s = [] then d else s)"

section \<open>Lemmas on strings\<close>

declare str_of_nat.simps [simp del]

lemmas str_defs [str_simps] =
  str_strip_def str_isdigit_def str_isdecimal_def str_partition_def char_isspace_def
  char_isdecimal_def char_isdigit_def str_of_int_def digit_value_def decimal_value_def
  int_of_digits_def int_max_str_digits_def int_or_def str_or_def str_of_nat.simps

lemma str_split_not_Nil [simp]: "str_split c s \<noteq> []"
  by (cases s) (auto split: list.splits)

lemma str_split_no_sep: "c \<notin> set s \<Longrightarrow> str_split c s = [s]"
  by (induction s) auto

lemma str_split_append:
  "c \<notin> set s \<Longrightarrow> str_split c (s @ c # t) = s # str_split c t"
  by (induction s) auto

lemma str_split_members: "p \<in> set (str_split c s) \<Longrightarrow> c \<notin> set p"
  by (induction s arbitrary: p) (auto split: list.splits if_splits)

lemma str_split_join:
  assumes "ps \<noteq> []" and "\<And>p. p \<in> set ps \<Longrightarrow> c \<notin> set p"
  shows "str_split c (str_join [c] ps) = ps"
  using assms by (induction "[c]" ps rule: str_join.induct)
    (auto simp: str_split_no_sep str_split_append)

lemma str_join_split: "str_join [c] (str_split c s) = s"
proof (induction s)
  case Nil
  show ?case by simp
next
  case (Cons x xs)
  obtain y ys where ys: "str_split c xs = y # ys"
    by (cases "str_split c xs") auto
  with Cons show ?case by (cases ys) auto
qed

lemma digit_char_nth:
  assumes "d < 10"
  shows "char_isdecimal (''0123456789'' ! d)" and "digit_value (''0123456789'' ! d) = d"
proof -
  from assms have "d \<in> {0, 1, 2, 3, 4, 5, 6, 7, 8, 9}" by auto
  then show "char_isdecimal (''0123456789'' ! d)" and "digit_value (''0123456789'' ! d) = d"
    by (auto simp: char_isdecimal_def digit_value_def)
qed

lemma decimal_value_snoc: "decimal_value (s @ [c]) = 10 * decimal_value s + digit_value c"
  by (simp add: decimal_value_def)

lemma str_of_nat_not_Nil [simp]: "str_of_nat n \<noteq> []"
  by (subst str_of_nat.simps) simp

lemma str_of_nat_decimal: "list_all char_isdecimal (str_of_nat n)"
proof (induction n rule: str_of_nat.induct)
  case (1 n)
  show ?case
  proof (cases "n < 10")
    case True
    then show ?thesis by (subst str_of_nat.simps) (simp add: digit_char_nth)
  next
    case False
    with "1.IH" show ?thesis by (subst str_of_nat.simps) (simp add: digit_char_nth)
  qed
qed

lemma decimal_value_str_of_nat [simp]: "decimal_value (str_of_nat n) = n"
proof (induction n rule: str_of_nat.induct)
  case (1 n)
  show ?case
  proof (cases "n < 10")
    case True
    then show ?thesis
      by (subst str_of_nat.simps) (simp add: decimal_value_def digit_char_nth)
  next
    case False
    with "1.IH" show ?thesis
      by (subst str_of_nat.simps) (simp add: decimal_value_snoc digit_char_nth)
  qed
qed

lemma length_str_of_nat: "0 < k \<Longrightarrow> n < 10 ^ k \<Longrightarrow> length (str_of_nat n) \<le> k"
proof (induction n arbitrary: k rule: str_of_nat.induct)
  case (1 n)
  show ?case
  proof (cases "n < 10")
    case True
    with "1.prems" show ?thesis by (subst str_of_nat.simps) simp
  next
    case False
    with "1.prems" obtain j where k: "k = Suc j" and "0 < j"
      by (cases k; cases "k - 1") auto
    with "1.prems" have "n div 10 < 10 ^ j" by (simp add: less_mult_imp_div_less mult.commute)
    with "1.IH" [OF False \<open>0 < j\<close>] have "length (str_of_nat (n div 10)) \<le> j" by simp
    with False k show ?thesis by (subst str_of_nat.simps) simp
  qed
qed

lemma str_isdecimal_str_of_nat [simp]: "str_isdecimal (str_of_nat n)"
  by (simp add: str_isdecimal_def str_of_nat_decimal)

lemma str_isdecimal_isdigit: "str_isdecimal s \<Longrightarrow> str_isdigit s"
  by (auto simp: str_isdecimal_def str_isdigit_def char_isdigit_def list_all_iff)

lemma int_of_digits_str_of_nat:
  assumes "n < 10 ^ int_max_str_digits"
  shows "int_of_digits (str_of_nat n) = Some (int n)"
proof -
  have "0 < int_max_str_digits" by (simp add: int_max_str_digits_def)
  with assms have "length (str_of_nat n) \<le> int_max_str_digits" by (rule length_str_of_nat [rotated])
  then show ?thesis by (simp add: int_of_digits_def)
qed

lemma small_below_digit_limit:
  assumes "n < (1000000 :: nat)"
  shows "n < 10 ^ int_max_str_digits"
proof -
  have "(10::nat) ^ 6 \<le> 10 ^ int_max_str_digits"
    by (rule power_increasing) (simp_all add: int_max_str_digits_def)
  moreover have "n < 10 ^ 6" using assms by simp
  ultimately show ?thesis by (rule less_le_trans [rotated])
qed

lemma dropWhile_none: "\<not> list_ex P xs \<Longrightarrow> dropWhile P xs = xs"
  by (cases xs) auto

lemma str_strip_id: "\<not> list_ex char_isspace s \<Longrightarrow> str_strip s = s"
  using dropWhile_none [of char_isspace s] dropWhile_none [of char_isspace "rev s"]
  by (simp add: str_strip_def list_ex_iff)

lemma char_isdecimal_not_space: "char_isdecimal c \<Longrightarrow> \<not> char_isspace c"
  by (auto simp: char_isdecimal_def char_isspace_def Let_def)

lemma str_strip_Nil_iff: "str_strip s = [] \<longleftrightarrow> list_all char_isspace s"
  by (simp add: str_strip_def list_all_iff)
    (metis dropWhile_eq_Nil_conv hd_dropWhile hd_in_set set_dropWhileD)

section \<open>Enumerated loops and issue collectors\<close>

text \<open>
  A loop \<open>for index, item in enumerate(items)\<close> that appends issues is the concatenation of
  what each round appends.
\<close>

definition enum_collect :: "(nat \<Rightarrow> 'a \<Rightarrow> 'i list) \<Rightarrow> 'a list \<Rightarrow> 'i list" where
  "enum_collect step xs = concat (map (\<lambda>(i, x). step i x) (enumerate 0 xs))"

lemma enumerate_snds: "snd ` set (enumerate n xs) = set xs"
  by (induction xs arbitrary: n) auto

text \<open>
  The contract of a collector: it appends nothing exactly when the item passes its check.
  A loop over a collector keeps the contract, for the whole list.
\<close>

locale issue_collector =
  fixes step :: "nat \<Rightarrow> 'a \<Rightarrow> 'i list"
    and ok :: "'a \<Rightarrow> bool"
  assumes step_Nil_iff: "step i x = [] \<longleftrightarrow> ok x"
begin

lemma concat_enumerate_Nil_iff:
  "concat (map (\<lambda>(i, x). step i x) (enumerate n xs)) = [] \<longleftrightarrow> list_all ok xs"
  by (induction xs arbitrary: n) (auto simp: step_Nil_iff)

lemma loop_Nil_iff: "enum_collect step xs = [] \<longleftrightarrow> list_all ok xs"
  unfolding enum_collect_def by (rule concat_enumerate_Nil_iff)

lemma loop_reports: "x \<in> set xs \<Longrightarrow> \<not> ok x \<Longrightarrow> enum_collect step xs \<noteq> []"
  by (auto simp: loop_Nil_iff list_all_iff)

end

text \<open>
  A dictionary of first positions (\<open>seen.setdefault(key, index)\<close>) reports every item whose key
  occurred before; the rest of the round may report more of the item. The loops over names and
  over rules have this form.
\<close>

fun first_seen_loop ::
  "(nat \<Rightarrow> 'a \<Rightarrow> nat \<Rightarrow> 'i list) \<Rightarrow> (nat \<Rightarrow> 'a \<Rightarrow> 'i list) \<Rightarrow> ('a \<Rightarrow> 'k) \<Rightarrow>
   ('k \<rightharpoonup> nat) \<Rightarrow> nat \<Rightarrow> 'a list \<Rightarrow> 'i list" where
  "first_seen_loop report more key seen index [] = []"
| "first_seen_loop report more key seen index (x # xs) =
     (case seen (key x) of
        None \<Rightarrow>
          more index x @ first_seen_loop report more key (seen(key x \<mapsto> index)) (Suc index) xs
      | Some first_index \<Rightarrow>
          (if first_index \<noteq> index then report index x first_index else [])
          @ more index x @ first_seen_loop report more key seen (Suc index) xs)"

context issue_collector
begin

lemma first_seen_loop_Nil_iff:
  assumes "\<And>i x f. report i x f \<noteq> []"
    and "\<And>k f. seen k = Some f \<Longrightarrow> f < index"
  shows "first_seen_loop report step key seen index xs = [] \<longleftrightarrow>
     distinct (map key xs) \<and> key ` set xs \<inter> dom seen = {} \<and> list_all ok xs"
  using assms(2)
proof (induction xs arbitrary: seen index)
  case Nil
  show ?case by simp
next
  case (Cons x xs)
  show ?case
  proof (cases "seen (key x)")
    case None
    have bound: "\<And>k' f. (seen(key x \<mapsto> index)) k' = Some f \<Longrightarrow> f < Suc index"
      using Cons.prems by (auto simp: less_Suc_eq split: if_splits)
    have "first_seen_loop report step key (seen(key x \<mapsto> index)) (Suc index) xs = [] \<longleftrightarrow>
        distinct (map key xs) \<and> key ` set xs \<inter> dom (seen(key x \<mapsto> index)) = {} \<and> list_all ok xs"
      by (rule Cons.IH) (rule bound)
    with None show ?thesis by (auto simp: step_Nil_iff)
  next
    case (Some f)
    with Cons.prems have "f \<noteq> index" by auto
    with Some assms(1) show ?thesis by (auto simp: domIff)
  qed
qed

end

text \<open>The loop that only looks for repeated keys.\<close>

interpretation no_more: issue_collector "\<lambda>_ _. []" "\<lambda>_. True"
  by unfold_locales simp

lemma repeated_keys_Nil_iff:
  assumes "\<And>i x f. report i x f \<noteq> []"
  shows "first_seen_loop report (\<lambda>_ _. []) key Map.empty 0 xs = [] \<longleftrightarrow> distinct (map key xs)"
  using no_more.first_seen_loop_Nil_iff [of report Map.empty 0 key xs] assms
  by (simp add: list_all_iff)

end
