(* ===== verification/Ctrl_Error.thy ===== *)
theory Ctrl_Error
  imports Prelude "HOL-Library.AList" Complex_Main
begin

text \<open>
  The controller's typed errors (\<open>ctrld/pktlab_ctrld/error.py\<close>) and the Python exceptions
  that can pass through its code. A dictionary is an association list in insertion order, a
  value of one is a \<open>pyval\<close>; every exception that is not one of the project's own carries
  the text \<open>str(exc)\<close> gives.
\<close>

datatype pyval =
    PNone
  | PBool bool
  | PInt int
  | PFloat rat
  | PStr string
  | PList "pyval list"
  | PDict "(string \<times> pyval) list"

type_synonym pydict = "(string \<times> pyval) list"

datatype ErrorCode =
    DATAPATH_TRANSPORT_ERROR
  | CONFIG_PARSE_ERROR
  | INVALID_REQUEST
  | INVALID_PAYLOAD
  | UNKNOWN_COMMAND
  | RULE_VALIDATION_ERROR
  | TOPOLOGY_VALIDATION_ERROR
  | TOPOLOGY_APPLY_ERROR
  | TOPOLOGY_DESTROY_ERROR
  | PROCESS_ERROR
  | PORT_INIT_ERROR
  | STATE_CONFLICT
  | TIMEOUT
  | INTERNAL_ERROR

fun ErrorCode_value :: "ErrorCode \<Rightarrow> string" where
  "ErrorCode_value DATAPATH_TRANSPORT_ERROR = ''DATAPATH_TRANSPORT_ERROR''"
| "ErrorCode_value CONFIG_PARSE_ERROR = ''CONFIG_PARSE_ERROR''"
| "ErrorCode_value INVALID_REQUEST = ''INVALID_REQUEST''"
| "ErrorCode_value INVALID_PAYLOAD = ''INVALID_PAYLOAD''"
| "ErrorCode_value UNKNOWN_COMMAND = ''UNKNOWN_COMMAND''"
| "ErrorCode_value RULE_VALIDATION_ERROR = ''RULE_VALIDATION_ERROR''"
| "ErrorCode_value TOPOLOGY_VALIDATION_ERROR = ''TOPOLOGY_VALIDATION_ERROR''"
| "ErrorCode_value TOPOLOGY_APPLY_ERROR = ''TOPOLOGY_APPLY_ERROR''"
| "ErrorCode_value TOPOLOGY_DESTROY_ERROR = ''TOPOLOGY_DESTROY_ERROR''"
| "ErrorCode_value PROCESS_ERROR = ''PROCESS_ERROR''"
| "ErrorCode_value PORT_INIT_ERROR = ''PORT_INIT_ERROR''"
| "ErrorCode_value STATE_CONFLICT = ''STATE_CONFLICT''"
| "ErrorCode_value TIMEOUT = ''TIMEOUT''"
| "ErrorCode_value INTERNAL_ERROR = ''INTERNAL_ERROR''"

text \<open>The class of a project error, for the handlers that catch one subclass only.\<close>

datatype error_class =
    PktlabErrorClass
  | ValidationErrorClass
  | ConfigParseErrorClass
  | DatapathProtocolErrorClass
  | DatapathTransportErrorClass
  | ProcessExecutionErrorClass

record PktlabError =
  err_class :: error_class
  err_code :: ErrorCode
  err_message :: string
  err_context :: pydict

text \<open>An operating-system error by the subclass the code distinguishes; the last one carries
  \<open>errno\<close>.\<close>

datatype os_error = FileNotFoundError | ConnectionRefusedError | SocketTimeout | OSErrno int

datatype exn =
    Pktlab PktlabError
  | PyValueError string
  | PyTypeError string
  | PyRuntimeError string
  | PyOverflowError string
  | PydanticError string
  | PyOSError os_error string
  | PyTimeoutExpired string

definition mk_PktlabError :: "ErrorCode \<Rightarrow> string \<Rightarrow> pydict option \<Rightarrow> PktlabError" where
  "mk_PktlabError code message context =
     \<lparr>err_class = PktlabErrorClass, err_code = code, err_message = message,
      err_context = (case context of None \<Rightarrow> [] | Some c \<Rightarrow> c)\<rparr>"

definition PktlabError_to_dict :: "PktlabError \<Rightarrow> pydict" where
  "PktlabError_to_dict e =
     [(''code'', PStr (ErrorCode_value (err_code e))), (''message'', PStr (err_message e))]
     @ (if err_context e \<noteq> [] then [(''context'', PDict (err_context e))] else [])"

text \<open>\<open>ValidationError\<close>: a non-empty issue list is stored in the context under \<open>issues\<close>, and
  the \<open>issues\<close> attribute reads it back.\<close>

definition mk_ValidationError ::
  "string \<Rightarrow> ErrorCode \<Rightarrow> pyval list \<Rightarrow> pydict option \<Rightarrow> PktlabError" where
  "mk_ValidationError message code issues context =
     (let base = (case context of None \<Rightarrow> [] | Some c \<Rightarrow> c);
          merged_context = (if issues \<noteq> [] then AList.update ''issues'' (PList issues) base else base)
      in (mk_PktlabError code message (if merged_context \<noteq> [] then Some merged_context else None))
           \<lparr>err_class := ValidationErrorClass\<rparr>)"

definition ValidationError_issues :: "PktlabError \<Rightarrow> pyval list" where
  "ValidationError_issues e =
     (case map_of (err_context e) ''issues'' of Some (PList xs) \<Rightarrow> xs | _ \<Rightarrow> [])"

definition mk_ConfigParseError :: "string \<Rightarrow> pydict option \<Rightarrow> PktlabError" where
  "mk_ConfigParseError message context =
     (mk_PktlabError CONFIG_PARSE_ERROR message context)\<lparr>err_class := ConfigParseErrorClass\<rparr>"

definition mk_DatapathProtocolError :: "string \<Rightarrow> pydict option \<Rightarrow> PktlabError" where
  "mk_DatapathProtocolError message context =
     (mk_PktlabError INVALID_PAYLOAD message context)\<lparr>err_class := DatapathProtocolErrorClass\<rparr>"

definition mk_DatapathTransportError :: "string \<Rightarrow> pydict option \<Rightarrow> PktlabError" where
  "mk_DatapathTransportError message context =
     (mk_PktlabError DATAPATH_TRANSPORT_ERROR message context)
       \<lparr>err_class := DatapathTransportErrorClass\<rparr>"

definition mk_ProcessExecutionError :: "string \<Rightarrow> pydict option \<Rightarrow> PktlabError" where
  "mk_ProcessExecutionError message context =
     (mk_PktlabError PROCESS_ERROR message context)\<lparr>err_class := ProcessExecutionErrorClass\<rparr>"

lemmas error_defs =
  mk_PktlabError_def mk_ValidationError_def mk_ConfigParseError_def mk_DatapathProtocolError_def
  mk_DatapathTransportError_def mk_ProcessExecutionError_def

lemma mk_error_code [simp]:
  "err_code (mk_PktlabError c m x) = c"
  "err_code (mk_ValidationError m c is x) = c"
  "err_code (mk_ConfigParseError m x) = CONFIG_PARSE_ERROR"
  "err_code (mk_DatapathProtocolError m x) = INVALID_PAYLOAD"
  "err_code (mk_DatapathTransportError m x) = DATAPATH_TRANSPORT_ERROR"
  "err_code (mk_ProcessExecutionError m x) = PROCESS_ERROR"
  by (simp_all add: error_defs Let_def)

lemma mk_error_class [simp]:
  "err_class (mk_PktlabError c m x) = PktlabErrorClass"
  "err_class (mk_ValidationError m c is x) = ValidationErrorClass"
  "err_class (mk_ConfigParseError m x) = ConfigParseErrorClass"
  "err_class (mk_DatapathProtocolError m x) = DatapathProtocolErrorClass"
  "err_class (mk_DatapathTransportError m x) = DatapathTransportErrorClass"
  "err_class (mk_ProcessExecutionError m x) = ProcessExecutionErrorClass"
  by (simp_all add: error_defs Let_def)

lemma mk_error_message [simp]:
  "err_message (mk_PktlabError c m x) = m"
  "err_message (mk_ValidationError m c is x) = m"
  "err_message (mk_ConfigParseError m x) = m"
  "err_message (mk_DatapathProtocolError m x) = m"
  "err_message (mk_DatapathTransportError m x) = m"
  "err_message (mk_ProcessExecutionError m x) = m"
  by (simp_all add: error_defs Let_def)

lemma ErrorCode_value_inject [simp]: "ErrorCode_value a = ErrorCode_value b \<longleftrightarrow> a = b"
  by (cases a; cases b) simp_all

lemma ValidationError_issues_mk [simp]:
  "ValidationError_issues (mk_ValidationError m c is None) = is"
  by (simp add: ValidationError_issues_def error_defs)

end
