(* ===== verification/Ctrl_Types.thy ===== *)
theory Ctrl_Types
  imports Ctrl_Error
begin

text \<open>
  The shared models of \<open>ctrld/pktlab_ctrld/types.py\<close>. Each pydantic class is a record with the
  fields of the class, and a predicate \<open>..._ok\<close> that states the constraints its \<open>Field\<close>
  declarations and validators put on them. Constructing an instance whose values break a
  constraint raises pydantic's validation error; the one constructor the controller's own
  code calls with computed values (\<open>EffectiveDpdkRuntimeModel\<close>) is \<open>mk_Effective\<close> below.
\<close>

datatype ControllerState =
  CS_stopped | CS_starting | CS_running | CS_degraded | CS_reconciling | CS_stopping | CS_failed

datatype DatapathState =
  DS_starting | DS_running | DS_paused | DS_degraded | DS_stopping | DS_failed

datatype RuleProtocol = Proto_tcp | Proto_udp | Proto_icmp | Proto_any

datatype RuleActionType = Act_forward | Act_drop | Act_count | Act_mirror

datatype PortRole = Role_ingress | Role_egress

record RuleMatchModel =
  rm_proto :: "RuleProtocol option"
  rm_src_ip :: "string option"
  rm_dst_ip :: "string option"
  rm_src_cidr :: "string option"
  rm_dst_cidr :: "string option"
  rm_src_port :: "int option"
  rm_dst_port :: "int option"

record RuleActionModel =
  ra_type :: RuleActionType
  ra_port :: "string option"

record RuleModel =
  ru_id :: int
  ru_priority :: int
  ru_match :: RuleMatchModel
  ru_action :: RuleActionModel

record RulesetModel =
  rs_version :: int
  rs_default_action :: RuleActionModel
  rs_entries :: "RuleModel list"

record CapturePointModel =
  cp_name :: string
  cp_namespace :: string
  cp_interface :: string

record LabModel =
  lab_name :: string

record NamespaceModel =
  ns_name :: string

record LinkModel =
  lk_name :: string
  lk_a :: string
  lk_b :: string
  lk_ip_a :: "string option"
  lk_ip_b :: "string option"

record DpdkPortModel =
  dp_name :: string
  dp_namespace :: string
  dp_role :: PortRole

record RouteModel =
  rt_namespace :: string
  rt_dst :: string
  rt_via :: string

record DpdkProcessConfigModel =
  dc_namespace :: string
  dc_lcores :: "string option"
  dc_hugepages_mb :: "int option"
  dc_burst_size :: "int option"
  dc_rx_queue_size :: "int option"
  dc_tx_queue_size :: "int option"
  dc_mempool_size :: "int option"

record EffectiveDpdkRuntimeModel =
  ef_lcores :: string
  ef_lcore_count :: int
  ef_hugepage_size_mb :: int
  ef_hugepages_mb :: int
  ef_burst_size :: int
  ef_rx_queue_size :: int
  ef_tx_queue_size :: int
  ef_mempool_size :: int
  ef_port_count :: int

record ControllerProcessConfigModel =
  pc_rest_listen :: "string option"
  pc_metrics_listen :: "string option"

record ProcessesModel =
  pr_dpdkd :: DpdkProcessConfigModel
  pr_ctrld :: "ControllerProcessConfigModel option"

record TopologyConfigModel =
  tc_lab :: LabModel
  tc_processes :: ProcessesModel
  tc_namespaces :: "NamespaceModel list"
  tc_links :: "LinkModel list"
  tc_dpdk_ports :: "DpdkPortModel list"
  tc_routes :: "RouteModel list"
  tc_rules :: RulesetModel
  tc_capture_points :: "CapturePointModel list"

section \<open>Declared constraints\<close>

definition opt_ge :: "int \<Rightarrow> int option \<Rightarrow> bool" where
  "opt_ge lo v = (case v of None \<Rightarrow> True | Some i \<Rightarrow> lo \<le> i)"

definition opt_le :: "int \<Rightarrow> int option \<Rightarrow> bool" where
  "opt_le hi v = (case v of None \<Rightarrow> True | Some i \<Rightarrow> i \<le> hi)"

definition RuleMatchModel_ok :: "RuleMatchModel \<Rightarrow> bool" where
  "RuleMatchModel_ok m \<longleftrightarrow>
     opt_ge 0 (rm_src_port m) \<and> opt_le 65535 (rm_src_port m) \<and>
     opt_ge 0 (rm_dst_port m) \<and> opt_le 65535 (rm_dst_port m)"

text \<open>The model validator of an action: the \<open>ValueError\<close> it raises, or the action itself.\<close>

definition validate_port_requirement :: "RuleActionModel \<Rightarrow> string + RuleActionModel" where
  "validate_port_requirement a =
     (if ra_type a \<in> {Act_forward, Act_mirror} \<and> (ra_port a = None \<or> ra_port a = Some [])
      then Inl ''port is required for forward and mirror actions''
      else if ra_type a \<in> {Act_drop, Act_count} \<and> ra_port a \<noteq> None
      then Inl ''port must be omitted for drop and count actions''
      else Inr a)"

definition RuleActionModel_ok :: "RuleActionModel \<Rightarrow> bool" where
  "RuleActionModel_ok a \<longleftrightarrow> validate_port_requirement a = Inr a"

definition RuleModel_ok :: "RuleModel \<Rightarrow> bool" where
  "RuleModel_ok r \<longleftrightarrow>
     0 \<le> ru_id r \<and> 0 \<le> ru_priority r \<and> RuleMatchModel_ok (ru_match r) \<and>
     RuleActionModel_ok (ru_action r)"

definition RulesetModel_ok :: "RulesetModel \<Rightarrow> bool" where
  "RulesetModel_ok s \<longleftrightarrow>
     0 \<le> rs_version s \<and> RuleActionModel_ok (rs_default_action s) \<and>
     list_all RuleModel_ok (rs_entries s)"

definition CapturePointModel_ok :: "CapturePointModel \<Rightarrow> bool" where
  "CapturePointModel_ok c \<longleftrightarrow> cp_name c \<noteq> [] \<and> cp_namespace c \<noteq> [] \<and> cp_interface c \<noteq> []"

definition LinkModel_ok :: "LinkModel \<Rightarrow> bool" where
  "LinkModel_ok l \<longleftrightarrow> lk_name l \<noteq> [] \<and> lk_a l \<noteq> [] \<and> lk_b l \<noteq> []"

definition DpdkPortModel_ok :: "DpdkPortModel \<Rightarrow> bool" where
  "DpdkPortModel_ok p \<longleftrightarrow> dp_name p \<noteq> [] \<and> dp_namespace p \<noteq> []"

definition RouteModel_ok :: "RouteModel \<Rightarrow> bool" where
  "RouteModel_ok r \<longleftrightarrow> rt_namespace r \<noteq> [] \<and> rt_dst r \<noteq> [] \<and> rt_via r \<noteq> []"

definition DpdkProcessConfigModel_ok :: "DpdkProcessConfigModel \<Rightarrow> bool" where
  "DpdkProcessConfigModel_ok c \<longleftrightarrow>
     dc_namespace c \<noteq> [] \<and> opt_ge 2 (dc_hugepages_mb c) \<and> opt_ge 1 (dc_burst_size c) \<and>
     opt_ge 1 (dc_rx_queue_size c) \<and> opt_ge 1 (dc_tx_queue_size c) \<and>
     opt_ge 1 (dc_mempool_size c)"

definition EffectiveDpdkRuntimeModel_ok :: "EffectiveDpdkRuntimeModel \<Rightarrow> bool" where
  "EffectiveDpdkRuntimeModel_ok e \<longleftrightarrow>
     ef_lcores e \<noteq> [] \<and> 1 \<le> ef_lcore_count e \<and> ef_hugepage_size_mb e = 2 \<and>
     2 \<le> ef_hugepages_mb e \<and> ef_hugepages_mb e mod 2 = 0 \<and> 1 \<le> ef_burst_size e \<and>
     1 \<le> ef_rx_queue_size e \<and> 1 \<le> ef_tx_queue_size e \<and> 1 \<le> ef_mempool_size e \<and>
     1 \<le> ef_port_count e"

definition mk_Effective :: "EffectiveDpdkRuntimeModel \<Rightarrow> exn + EffectiveDpdkRuntimeModel" where
  "mk_Effective e =
     (if EffectiveDpdkRuntimeModel_ok e then Inr e
      else Inl (PydanticError ''EffectiveDpdkRuntimeModel''))"

definition TopologyConfigModel_ok :: "TopologyConfigModel \<Rightarrow> bool" where
  "TopologyConfigModel_ok c \<longleftrightarrow>
     lab_name (tc_lab c) \<noteq> [] \<and> DpdkProcessConfigModel_ok (pr_dpdkd (tc_processes c)) \<and>
     list_all (\<lambda>n. ns_name n \<noteq> []) (tc_namespaces c) \<and> list_all LinkModel_ok (tc_links c) \<and>
     list_all DpdkPortModel_ok (tc_dpdk_ports c) \<and> list_all RouteModel_ok (tc_routes c) \<and>
     RulesetModel_ok (tc_rules c) \<and> list_all CapturePointModel_ok (tc_capture_points c)"

section \<open>Facts on the constraints\<close>

text \<open>An action that passed its validator carries a port exactly when it needs one.\<close>

lemma RuleActionModel_ok_iff:
  "RuleActionModel_ok a \<longleftrightarrow>
     (if ra_type a \<in> {Act_forward, Act_mirror} then \<exists>p. ra_port a = Some p \<and> p \<noteq> []
      else ra_port a = None)"
  by (cases "ra_type a"; cases "ra_port a")
    (auto simp: RuleActionModel_ok_def validate_port_requirement_def)

lemma mk_Effective_Inr_iff:
  "mk_Effective e = Inr e' \<longleftrightarrow> e' = e \<and> EffectiveDpdkRuntimeModel_ok e"
  by (auto simp: mk_Effective_def)

end
