(* ===== verification/Runtime_Policy.thy ===== *)
theory Runtime_Policy
  imports Ctrl_Types
begin

text \<open>
  The effective datapath runtime (\<open>ctrld/pktlab_ctrld/config/validation.py\<close>): the limits and
  defaults, the core-list parser, the sizing of mempool and hugepages, and the derivation of
  the runtime profile from the requested one. Validation never stops at the first problem: it
  appends to a list of issues. The list is only ever appended to, so each function returns the
  issues it appends, and the callers concatenate them in the order of the calls.
\<close>

section \<open>Issues\<close>

record ValidationIssue =
  vi_path :: string
  vi_code :: string
  vi_message :: string

definition issue :: "string \<Rightarrow> string \<Rightarrow> string \<Rightarrow> ValidationIssue" where
  "issue path code message = \<lparr>vi_path = path, vi_code = code, vi_message = message\<rparr>"

definition ValidationIssue_to_dict :: "ValidationIssue \<Rightarrow> pyval" where
  "ValidationIssue_to_dict i =
     PDict [(''path'', PStr (vi_path i)), (''code'', PStr (vi_code i)),
            (''message'', PStr (vi_message i))]"

section \<open>Limits and defaults\<close>

definition DEFAULT_LCORES :: string where "DEFAULT_LCORES = ''1''"
definition DEFAULT_BURST_SIZE :: int where "DEFAULT_BURST_SIZE = 32"
definition DEFAULT_RX_QUEUE_SIZE :: int where "DEFAULT_RX_QUEUE_SIZE = 256"
definition DEFAULT_TX_QUEUE_SIZE :: int where "DEFAULT_TX_QUEUE_SIZE = 256"
definition DEFAULT_HUGEPAGE_SIZE_MB :: int where "DEFAULT_HUGEPAGE_SIZE_MB = 2"
definition DEFAULT_HUGEPAGES_FLOOR_MB :: int where "DEFAULT_HUGEPAGES_FLOOR_MB = 256"
definition MAX_LCORE_COUNT :: int where "MAX_LCORE_COUNT = 8"
definition MAX_BURST_SIZE :: int where "MAX_BURST_SIZE = 256"
definition MAX_QUEUE_SIZE :: int where "MAX_QUEUE_SIZE = 4096"
definition MAX_MEMPOOL_SIZE :: int where "MAX_MEMPOOL_SIZE = 65536"
definition MAX_HUGEPAGES_MB :: int where "MAX_HUGEPAGES_MB = 1024"
definition MIN_MEMPOOL_SIZE :: int where "MIN_MEMPOOL_SIZE = 2048"
definition MEMPOOL_HEADROOM_FACTOR :: int where "MEMPOOL_HEADROOM_FACTOR = 4"
definition MBUF_MEMORY_ESTIMATE_BYTES :: int where "MBUF_MEMORY_ESTIMATE_BYTES = 4096"
definition FIXED_RUNTIME_OVERHEAD_MB :: int where "FIXED_RUNTIME_OVERHEAD_MB = 64"

lemmas policy_consts =
  DEFAULT_LCORES_def DEFAULT_BURST_SIZE_def DEFAULT_RX_QUEUE_SIZE_def DEFAULT_TX_QUEUE_SIZE_def
  DEFAULT_HUGEPAGE_SIZE_MB_def DEFAULT_HUGEPAGES_FLOOR_MB_def MAX_LCORE_COUNT_def
  MAX_BURST_SIZE_def MAX_QUEUE_SIZE_def MAX_MEMPOOL_SIZE_def MAX_HUGEPAGES_MB_def
  MIN_MEMPOOL_SIZE_def MEMPOOL_HEADROOM_FACTOR_def MBUF_MEMORY_ESTIMATE_BYTES_def
  FIXED_RUNTIME_OVERHEAD_MB_def

section \<open>The core list\<close>

text \<open>
  The loop over the tokens ends in one of three ways: \<open>int\<close> raises, an issue is appended and
  the function returns early, or all tokens were expanded.
\<close>

datatype lcore_scan = LcoreRaise exn | LcoreReject ValidationIssue | LcoreParsed "int list"

definition int_literal_error :: exn where
  "int_literal_error = PyValueError ''invalid literal for int() with base 10''"

fun scan_lcore_tokens :: "string \<Rightarrow> int list \<Rightarrow> string list \<Rightarrow> lcore_scan" where
  "scan_lcore_tokens path parsed [] = LcoreParsed parsed"
| "scan_lcore_tokens path parsed (token # tokens) =
     (if CHR ''-'' \<in> set token then
        (case str_partition (CHR ''-'') token of (start_text, _, end_text) \<Rightarrow>
           if \<not> str_isdigit start_text \<or> \<not> str_isdigit end_text then
             LcoreReject (issue path ''invalid_lcore_spec''
               (''unsupported lcore token '' @ quoted token))
           else
             (case (int_of_digits start_text, int_of_digits end_text) of
                (Some start, Some end) \<Rightarrow>
                  if start > end then
                    LcoreReject (issue path ''invalid_lcore_range''
                      (''lcore range '' @ quoted token @ '' must be ascending''))
                  else scan_lcore_tokens path (parsed @ [start..end]) tokens
              | _ \<Rightarrow> LcoreRaise int_literal_error))
      else if \<not> str_isdigit token then
        LcoreReject (issue path ''invalid_lcore_spec''
          (''unsupported lcore token '' @ quoted token))
      else
        (case int_of_digits token of
           None \<Rightarrow> LcoreRaise int_literal_error
         | Some n \<Rightarrow> scan_lcore_tokens path (parsed @ [n]) tokens))"

definition lcore_tokens :: "string \<Rightarrow> string list" where
  "lcore_tokens value = filter (\<lambda>t. t \<noteq> []) (map str_strip (str_split (CHR '','') value))"

definition parse_lcore_spec :: "string \<Rightarrow> string \<Rightarrow> exn + ValidationIssue list \<times> int list" where
  "parse_lcore_spec path value =
     (let tokens = lcore_tokens value in
      if tokens = [] then
        Inr ([issue path ''invalid_lcore_spec'' ''lcores must contain at least one CPU identifier''],
             [1])
      else
        (case scan_lcore_tokens path [] tokens of
           LcoreRaise e \<Rightarrow> Inl e
         | LcoreReject i \<Rightarrow> Inr ([i], [1])
         | LcoreParsed parsed \<Rightarrow>
             if length parsed \<noteq> length (remdups parsed) then
               Inr ([issue path ''duplicate_lcore'' ''lcore identifiers must not repeat''],
                    sort (remdups parsed))
             else Inr ([], parsed)))"

section \<open>Rounding and memory estimates\<close>

fun bit_length :: "nat \<Rightarrow> nat" where
  "bit_length n = (if n = 0 then 0 else Suc (bit_length (n div 2)))"

definition round_up_power_of_two :: "int \<Rightarrow> int" where
  "round_up_power_of_two value = (if value \<le> 1 then 1 else 2 ^ bit_length (nat (value - 1)))"

definition round_up_to_multiple :: "int \<Rightarrow> int \<Rightarrow> int" where
  "round_up_to_multiple multiple value = ((value + multiple - 1) div multiple) * multiple"

text \<open>
  \<open>math.ceil(n / d)\<close> is a true division: its result is a double, correctly rounded, and it
  raises \<open>OverflowError\<close> when it is too large for one. For \<open>d = 1024 * 1024\<close>, a power of
  two, the quotient's significand is \<open>n\<close> rounded to 53 bits, ties to even.
\<close>

definition round_to_53_bits :: "nat \<Rightarrow> nat" where
  "round_to_53_bits n =
     (let b = bit_length n in
      if b \<le> 53 then n
      else let s = b - 53; q = n div 2 ^ s; r = n mod 2 ^ s; half = 2 ^ (s - 1)
           in (if half < r \<or> (r = half \<and> odd q) then q + 1 else q) * 2 ^ s)"

definition ceil_true_div_mib :: "int \<Rightarrow> int option" where
  "ceil_true_div_mib n =
     (let r = (if 0 \<le> n then int (round_to_53_bits (nat n)) else - int (round_to_53_bits (nat (- n))))
      in if 2 ^ 1044 \<le> \<bar>r\<bar> then None else Some (- ((- r) div (1024 * 1024))))"

definition recommended_hugepages_mb :: "int \<Rightarrow> int option" where
  "recommended_hugepages_mb mempool_size =
     (case ceil_true_div_mib (mempool_size * MBUF_MEMORY_ESTIMATE_BYTES) of
        None \<Rightarrow> None
      | Some estimated_mbuf_memory_mb \<Rightarrow>
          Some (round_up_to_multiple DEFAULT_HUGEPAGE_SIZE_MB
                  (max DEFAULT_HUGEPAGES_FLOOR_MB
                       (FIXED_RUNTIME_OVERHEAD_MB + estimated_mbuf_memory_mb))))"

definition recommended_mempool_size :: "int \<Rightarrow> int \<Rightarrow> int \<Rightarrow> int" where
  "recommended_mempool_size port_count rx_queue_size tx_queue_size =
     round_up_power_of_two
       (max MIN_MEMPOOL_SIZE
            (port_count * (rx_queue_size + tx_queue_size) * MEMPOOL_HEADROOM_FACTOR))"

section \<open>The derivation\<close>

definition queue_issues :: "string \<Rightarrow> int \<Rightarrow> int \<Rightarrow> int \<Rightarrow> ValidationIssue list" where
  "queue_issues path_prefix rx_queue_size tx_queue_size burst_size =
     (if rx_queue_size > MAX_QUEUE_SIZE then
        [issue (path_prefix @ ''.rx_queue_size'') ''oversized_queue''
          (''rx_queue_size '' @ str_of_int rx_queue_size @ '' exceeds the controller limit of ''
            @ str_of_int MAX_QUEUE_SIZE)] else [])
     @ (if tx_queue_size > MAX_QUEUE_SIZE then
        [issue (path_prefix @ ''.tx_queue_size'') ''oversized_queue''
          (''tx_queue_size '' @ str_of_int tx_queue_size @ '' exceeds the controller limit of ''
            @ str_of_int MAX_QUEUE_SIZE)] else [])
     @ (if burst_size > MAX_BURST_SIZE then
        [issue (path_prefix @ ''.burst_size'') ''oversized_burst''
          (''burst_size '' @ str_of_int burst_size @ '' exceeds the controller limit of ''
            @ str_of_int MAX_BURST_SIZE)] else [])
     @ (if burst_size > min rx_queue_size tx_queue_size then
        [issue (path_prefix @ ''.burst_size'') ''burst_exceeds_queue''
          ''burst_size must not exceed either queue size''] else [])"

definition mempool_issues :: "string \<Rightarrow> int \<Rightarrow> int \<Rightarrow> int \<Rightarrow> ValidationIssue list" where
  "mempool_issues path_prefix port_count mempool_size recommended =
     (if mempool_size < recommended then
        [issue (path_prefix @ ''.mempool_size'') ''undersized_mempool''
          (''mempool_size '' @ str_of_int mempool_size @ '' is too small for ''
            @ str_of_int port_count @ '' ports and the configured queues; ''
            @ ''minimum recommended value is '' @ str_of_int recommended)] else [])
     @ (if mempool_size > MAX_MEMPOOL_SIZE then
        [issue (path_prefix @ ''.mempool_size'') ''oversized_mempool''
          (''mempool_size '' @ str_of_int mempool_size @ '' exceeds the controller limit of ''
            @ str_of_int MAX_MEMPOOL_SIZE)] else [])"

definition hugepages_issues :: "string \<Rightarrow> int \<Rightarrow> int \<Rightarrow> ValidationIssue list" where
  "hugepages_issues path_prefix hugepages_mb recommended =
     (if hugepages_mb mod DEFAULT_HUGEPAGE_SIZE_MB \<noteq> 0 then
        [issue (path_prefix @ ''.hugepages_mb'') ''invalid_hugepage_multiple''
          (''hugepages_mb must be a multiple of '' @ str_of_int DEFAULT_HUGEPAGE_SIZE_MB @ '' MB'')]
      else [])
     @ (if hugepages_mb < recommended then
        [issue (path_prefix @ ''.hugepages_mb'') ''undersized_hugepages''
          (''hugepages_mb '' @ str_of_int hugepages_mb @ '' is below the controller floor of ''
            @ str_of_int recommended @ '' MB for the current mempool and safety margin'')] else [])
     @ (if hugepages_mb > MAX_HUGEPAGES_MB then
        [issue (path_prefix @ ''.hugepages_mb'') ''oversized_hugepages''
          (''hugepages_mb '' @ str_of_int hugepages_mb @ '' exceeds the controller limit of ''
            @ str_of_int MAX_HUGEPAGES_MB @ '' MB'')] else [])"

definition lcore_count_issues :: "string \<Rightarrow> int \<Rightarrow> ValidationIssue list" where
  "lcore_count_issues path_prefix lcore_count =
     (if lcore_count > MAX_LCORE_COUNT then
        [issue (path_prefix @ ''.lcores'') ''oversized_lcore_set''
          (''lcore set resolves to '' @ str_of_int lcore_count
            @ '' lcores; the controller caps this at '' @ str_of_int MAX_LCORE_COUNT
            @ '' for the MVP'')] else [])"

text \<open>
  \<open>_derive_effective_dpdk_runtime\<close>. Three calls in it can raise: \<open>int\<close> in the core-list
  parser, the true division of the hugepage estimate, and the constructor of the result.
\<close>

definition derive_effective_with_issues ::
  "string \<Rightarrow> int \<Rightarrow> DpdkProcessConfigModel \<Rightarrow>
   exn + ValidationIssue list \<times> EffectiveDpdkRuntimeModel" where
  "derive_effective_with_issues path_prefix port_count requested =
     (let lcores = str_or (dc_lcores requested) DEFAULT_LCORES in
      case parse_lcore_spec (path_prefix @ ''.lcores'') lcores of
        Inl e \<Rightarrow> Inl e
      | Inr (lcore_issues, lcore_ids) \<Rightarrow>
        (let lcore_count = (if lcore_ids \<noteq> [] then int (length lcore_ids) else 1);
             rx_queue_size = int_or (dc_rx_queue_size requested) DEFAULT_RX_QUEUE_SIZE;
             tx_queue_size = int_or (dc_tx_queue_size requested) DEFAULT_TX_QUEUE_SIZE;
             burst_size = int_or (dc_burst_size requested) DEFAULT_BURST_SIZE;
             recommended_mempool = recommended_mempool_size port_count rx_queue_size tx_queue_size;
             mempool_size = int_or (dc_mempool_size requested) recommended_mempool
         in case recommended_hugepages_mb mempool_size of
              None \<Rightarrow> Inl (PyOverflowError ''integer division result too large for a float'')
            | Some recommended_hugepages \<Rightarrow>
              (let hugepages_mb = int_or (dc_hugepages_mb requested) recommended_hugepages in
               case mk_Effective
                 \<lparr>ef_lcores = lcores, ef_lcore_count = lcore_count,
                  ef_hugepage_size_mb = DEFAULT_HUGEPAGE_SIZE_MB, ef_hugepages_mb = hugepages_mb,
                  ef_burst_size = burst_size, ef_rx_queue_size = rx_queue_size,
                  ef_tx_queue_size = tx_queue_size, ef_mempool_size = mempool_size,
                  ef_port_count = port_count\<rparr> of
                 Inl e \<Rightarrow> Inl e
               | Inr effective \<Rightarrow>
                   Inr (lcore_issues
                        @ lcore_count_issues path_prefix lcore_count
                        @ queue_issues path_prefix rx_queue_size tx_queue_size burst_size
                        @ mempool_issues path_prefix port_count mempool_size recommended_mempool
                        @ hugepages_issues path_prefix hugepages_mb recommended_hugepages,
                        effective))))"

definition validation_failure :: "string \<Rightarrow> ErrorCode \<Rightarrow> ValidationIssue list \<Rightarrow> exn" where
  "validation_failure message code issues =
     Pktlab (mk_ValidationError message code (map ValidationIssue_to_dict issues) None)"

definition derive_effective_dpdk_runtime ::
  "DpdkProcessConfigModel \<Rightarrow> int \<Rightarrow> exn + EffectiveDpdkRuntimeModel" where
  "derive_effective_dpdk_runtime requested port_count =
     (case derive_effective_with_issues ''processes.dpdkd'' port_count requested of
        Inl e \<Rightarrow> Inl e
      | Inr (issues, effective) \<Rightarrow>
          if issues \<noteq> [] then
            Inl (validation_failure ''effective datapath runtime config is invalid''
                   TOPOLOGY_VALIDATION_ERROR issues)
          else Inr effective)"

section \<open>Reference definitions\<close>

text \<open>The cores a token stands for, and the set of cores a whole specification stands for.\<close>

definition token_cores :: "string \<Rightarrow> int list option" where
  "token_cores t =
     (if CHR ''-'' \<in> set t then
        (case str_partition (CHR ''-'') t of (a, _, b) \<Rightarrow>
          (case (int_of_digits a, int_of_digits b) of
             (Some lo, Some hi) \<Rightarrow> if lo \<le> hi then Some [lo..hi] else None
           | _ \<Rightarrow> None))
      else map_option (\<lambda>n. [n]) (int_of_digits t))"

definition lcore_set :: "string \<Rightarrow> int list option" where
  "lcore_set value =
     (case those (map token_cores (lcore_tokens value)) of
        None \<Rightarrow> None
      | Some parts \<Rightarrow>
          if parts \<noteq> [] \<and> distinct (concat parts) then Some (concat parts) else None)"

text \<open>What the controller promises of every runtime profile it hands to the datapath.\<close>

definition runtime_profile_ok :: "EffectiveDpdkRuntimeModel \<Rightarrow> bool" where
  "runtime_profile_ok e \<longleftrightarrow>
     ef_lcores e \<noteq> [] \<and> 1 \<le> ef_lcore_count e \<and> ef_lcore_count e \<le> MAX_LCORE_COUNT \<and>
     ef_hugepage_size_mb e = DEFAULT_HUGEPAGE_SIZE_MB \<and> 1 \<le> ef_port_count e \<and>
     1 \<le> ef_rx_queue_size e \<and> ef_rx_queue_size e \<le> MAX_QUEUE_SIZE \<and>
     1 \<le> ef_tx_queue_size e \<and> ef_tx_queue_size e \<le> MAX_QUEUE_SIZE \<and>
     1 \<le> ef_burst_size e \<and> ef_burst_size e \<le> MAX_BURST_SIZE \<and>
     ef_burst_size e \<le> ef_rx_queue_size e \<and> ef_burst_size e \<le> ef_tx_queue_size e \<and>
     recommended_mempool_size (ef_port_count e) (ef_rx_queue_size e) (ef_tx_queue_size e)
       \<le> ef_mempool_size e \<and>
     ef_mempool_size e \<le> MAX_MEMPOOL_SIZE \<and>
     (case recommended_hugepages_mb (ef_mempool_size e) of
        None \<Rightarrow> False | Some h \<Rightarrow> h \<le> ef_hugepages_mb e) \<and>
     ef_hugepages_mb e mod DEFAULT_HUGEPAGE_SIZE_MB = 0 \<and> ef_hugepages_mb e \<le> MAX_HUGEPAGES_MB"

text \<open>The requested values with every omitted one replaced by its default or recommendation.\<close>

definition resolve_runtime ::
  "DpdkProcessConfigModel \<Rightarrow> int \<Rightarrow> nat \<Rightarrow> int \<Rightarrow> EffectiveDpdkRuntimeModel" where
  "resolve_runtime requested port_count cores hugepages =
     (let rx = int_or (dc_rx_queue_size requested) DEFAULT_RX_QUEUE_SIZE;
          tx = int_or (dc_tx_queue_size requested) DEFAULT_TX_QUEUE_SIZE
      in \<lparr>ef_lcores = str_or (dc_lcores requested) DEFAULT_LCORES, ef_lcore_count = int cores,
          ef_hugepage_size_mb = DEFAULT_HUGEPAGE_SIZE_MB,
          ef_hugepages_mb = int_or (dc_hugepages_mb requested) hugepages,
          ef_burst_size = int_or (dc_burst_size requested) DEFAULT_BURST_SIZE,
          ef_rx_queue_size = rx, ef_tx_queue_size = tx,
          ef_mempool_size =
            int_or (dc_mempool_size requested) (recommended_mempool_size port_count rx tx),
          ef_port_count = port_count\<rparr>)"

section \<open>Rounding up\<close>

text \<open>
  Both roundings of the sizing policy have one contract: the least grid point that is not below
  the value. Being a closure operator follows from it.
\<close>

locale round_up =
  fixes up :: "int \<Rightarrow> int"
    and grid :: "int \<Rightarrow> bool"
  assumes up_ge: "v \<le> up v"
    and up_grid: "0 < v \<Longrightarrow> grid (up v)"
    and up_least: "0 < v \<Longrightarrow> grid g \<Longrightarrow> v \<le> g \<Longrightarrow> up v \<le> g"
begin

lemma up_fixes_grid: "0 < v \<Longrightarrow> grid v \<Longrightarrow> up v = v"
  using up_ge [of v] up_least [of v v] by simp

lemma up_le_iff: "0 < v \<Longrightarrow> grid g \<Longrightarrow> up v \<le> g \<longleftrightarrow> v \<le> g"
  using up_ge [of v] up_least [of v g] by auto

lemma up_up: "0 < v \<Longrightarrow> up (up v) = up v"
  using up_ge [of v] up_grid [of v] by (intro up_fixes_grid) auto

lemma up_mono:
  assumes "0 < v" and "v \<le> w"
  shows "up v \<le> up w"
proof -
  from assms have "grid (up w)" by (intro up_grid) simp
  moreover from assms have "v \<le> up w" using up_ge [of w] by simp
  ultimately show ?thesis using assms(1) by (intro up_least)
qed

end

declare bit_length.simps [simp del]

lemma bit_length_le_iff: "bit_length n \<le> k \<longleftrightarrow> n < 2 ^ k"
proof (induction n arbitrary: k rule: bit_length.induct)
  case (1 n)
  show ?case
  proof (cases "n = 0")
    case True
    then show ?thesis by (simp add: bit_length.simps)
  next
    case False
    show ?thesis
    proof (cases k)
      case 0
      with False show ?thesis by (simp add: bit_length.simps [of n])
    next
      case (Suc j)
      have "bit_length n \<le> k \<longleftrightarrow> bit_length (n div 2) \<le> j"
        using False Suc by (simp add: bit_length.simps [of n])
      also have "\<dots> \<longleftrightarrow> n div 2 < 2 ^ j" using "1.IH" [OF False] by simp
      also have "\<dots> \<longleftrightarrow> n < 2 ^ k" using Suc by (simp add: less_mult_imp_div_less) linarith
      finally show ?thesis .
    qed
  qed
qed

lemma less_two_power_bit_length: "n < 2 ^ bit_length n"
  using bit_length_le_iff [of n "bit_length n"] by simp

lemma two_power_le_iff: "2 ^ k \<le> n \<longleftrightarrow> k < bit_length n"
  using bit_length_le_iff [of n k] by (simp add: not_less [symmetric]) linarith

lemma round_up_power_of_two_ge: "v \<le> round_up_power_of_two v"
proof (cases "v \<le> 1")
  case True
  then show ?thesis by (simp add: round_up_power_of_two_def)
next
  case False
  have "int (nat (v - 1)) < int (2 ^ bit_length (nat (v - 1)))"
    using less_two_power_bit_length [of "nat (v - 1)"] by (simp only: of_nat_less_iff)
  with False show ?thesis by (simp add: round_up_power_of_two_def)
qed

lemma round_up_power_of_two_least:
  assumes "v \<le> 2 ^ k"
  shows "round_up_power_of_two v \<le> 2 ^ k"
proof (cases "v \<le> 1")
  case True
  then show ?thesis by (simp add: round_up_power_of_two_def)
next
  case False
  with assms have "int (nat (v - 1)) < int (2 ^ k)" by simp
  then have "nat (v - 1) < 2 ^ k" by (simp only: of_nat_less_iff)
  then have "bit_length (nat (v - 1)) \<le> k" by (simp add: bit_length_le_iff)
  with False show ?thesis by (simp add: round_up_power_of_two_def power_increasing)
qed

interpretation pow2: round_up round_up_power_of_two "\<lambda>g. \<exists>k. g = 2 ^ k"
proof
  fix v :: int
  show "v \<le> round_up_power_of_two v" by (rule round_up_power_of_two_ge)
next
  fix v :: int
  show "\<exists>k. round_up_power_of_two v = 2 ^ k"
    by (auto simp: round_up_power_of_two_def intro: exI [of _ 0])
next
  fix v g :: int
  assume "\<exists>k. g = 2 ^ k" and "v \<le> g"
  then show "round_up_power_of_two v \<le> g" by (auto intro: round_up_power_of_two_least)
qed

lemma round_up_to_multiple_bounds:
  assumes "0 < m"
  shows "v \<le> round_up_to_multiple m v" and "round_up_to_multiple m v < v + m"
    and "m dvd round_up_to_multiple m v"
proof -
  let ?q = "(v + m - 1) div m"
  have eq: "?q * m + (v + m - 1) mod m = v + m - 1" by simp
  have "0 \<le> (v + m - 1) mod m" and "(v + m - 1) mod m < m" using assms by simp_all
  with eq show "v \<le> round_up_to_multiple m v" and "round_up_to_multiple m v < v + m"
    unfolding round_up_to_multiple_def by linarith+
  show "m dvd round_up_to_multiple m v" by (simp add: round_up_to_multiple_def)
qed

lemma round_up_to_multiple_least:
  assumes "0 < m" and "m dvd g" and "v \<le> g"
  shows "round_up_to_multiple m v \<le> g"
proof (rule ccontr)
  assume "\<not> round_up_to_multiple m v \<le> g"
  moreover have "m dvd round_up_to_multiple m v - g"
    using assms round_up_to_multiple_bounds(3) by auto
  ultimately have "m \<le> round_up_to_multiple m v - g"
    using assms(1) by (auto intro: zdvd_imp_le)
  with round_up_to_multiple_bounds(2) [OF assms(1), of v] assms(3) show False by simp
qed

interpretation hugepage: round_up
  "round_up_to_multiple DEFAULT_HUGEPAGE_SIZE_MB" "\<lambda>g. DEFAULT_HUGEPAGE_SIZE_MB dvd g"
  by unfold_locales
    (auto simp: DEFAULT_HUGEPAGE_SIZE_MB_def round_up_to_multiple_bounds round_up_to_multiple_least)

section \<open>The floating-point estimate\<close>

lemma round_to_53_bits_exact: "n < 2 ^ 53 \<Longrightarrow> round_to_53_bits n = n"
  using bit_length_le_iff [of n 53] by (simp add: round_to_53_bits_def)

lemma round_to_53_bits_ge_power:
  assumes "2 ^ k \<le> n" and "53 \<le> k"
  shows "2 ^ k \<le> round_to_53_bits n"
proof -
  define b where "b = bit_length n"
  define s where "s = b - 53"
  have kb: "k < b" using assms(1) by (simp add: b_def two_power_le_iff)
  have "2 ^ (b - 1) \<le> n" using kb by (simp add: two_power_le_iff b_def)
  moreover have split: "(2::nat) ^ (b - 1) = 2 ^ 52 * 2 ^ s"
  proof -
    have "b - 1 = 52 + s" using kb assms(2) by (simp add: s_def)
    then show ?thesis by (simp only: power_add)
  qed
  ultimately have "2 ^ 52 \<le> n div 2 ^ s"
    by (metis div_le_mono nonzero_mult_div_cancel_right power_not_zero zero_neq_numeral)
  then have "(2::nat) ^ 52 * 2 ^ s \<le> (n div 2 ^ s) * 2 ^ s" by (rule mult_right_mono) simp
  also have "\<dots> \<le> round_to_53_bits n"
    using kb assms(2) unfolding round_to_53_bits_def Let_def b_def [symmetric] s_def by simp
  finally have "2 ^ (b - 1) \<le> round_to_53_bits n"
    by (simp only: split)
  moreover have "(2::nat) ^ k \<le> 2 ^ (b - 1)" using kb by (intro power_increasing) auto
  ultimately show ?thesis by (rule order_trans [rotated])
qed

text \<open>For every mempool below \<open>2\<^sup>4\<^sup>1\<close> buffers the rounding of the division is exact.\<close>

lemma recommended_hugepages_exact:
  assumes "0 \<le> m" and "m < 2 ^ 41"
  shows "recommended_hugepages_mb m =
     Some (round_up_to_multiple DEFAULT_HUGEPAGE_SIZE_MB (max 256 (64 + (m + 255) div 256)))"
proof -
  have "nat (m * 4096) < 2 ^ 53" using assms by (simp add: nat_less_iff)
  then have r: "int (round_to_53_bits (nat (m * 4096))) = m * 4096"
    using assms(1) by (simp add: round_to_53_bits_exact)
  have "m * 4096 < 2 ^ 53" using assms(2) by simp
  also have "(2::int) ^ 53 \<le> 2 ^ 1044" by (rule power_increasing) auto
  finally have "\<not> 2 ^ 1044 \<le> \<bar>m * 4096\<bar>" using assms(1) by (simp only: abs_of_nonneg not_le zero_le_mult_iff)
  then have "ceil_true_div_mib (m * 4096) = Some (- ((- (m * 4096)) div (1024 * 1024)))"
    using r assms(1) by (simp add: ceil_true_div_mib_def Let_def)
  moreover have "- ((- (m * 4096)) div (1024 * 1024)) = (m + 255) div 256" by simp
  ultimately show ?thesis by (simp add: recommended_hugepages_mb_def policy_consts)
qed

text \<open>A mempool too large for a double makes the division raise.\<close>

lemma recommended_hugepages_overflow:
  assumes "2 ^ 1032 \<le> m"
  shows "recommended_hugepages_mb m = None"
proof -
  have m: "0 \<le> m" using assms by (rule order_trans [rotated]) simp
  have "(2::int) ^ 1044 = 2 ^ 1032 * 4096" by (simp flip: power_add)
  then have "int (2 ^ 1044) \<le> int (nat (m * 4096))"
    using assms m by (simp only: of_nat_power) (simp add: mult_right_mono)
  then have "2 ^ 1044 \<le> nat (m * 4096)" by (simp only: of_nat_le_iff)
  then have "2 ^ 1044 \<le> round_to_53_bits (nat (m * 4096))"
    by (rule round_to_53_bits_ge_power) simp
  then have "int (2 ^ 1044) \<le> int (round_to_53_bits (nat (m * 4096)))" by (simp only: of_nat_le_iff)
  then show ?thesis
    using m by (simp add: recommended_hugepages_mb_def ceil_true_div_mib_def Let_def policy_consts)
qed

section \<open>The core list against its reference\<close>

lemma those_eq_Some_iff: "those xs = Some ys \<longleftrightarrow> xs = map Some ys"
  by (induction xs arbitrary: ys) (auto split: option.splits simp: Cons_eq_map_conv)

lemma those_map_Some [simp]: "those (map Some ys) = Some ys"
  by (simp add: those_eq_Some_iff)

lemma int_of_digits_isdigit: "int_of_digits s = Some n \<Longrightarrow> str_isdigit s"
  by (auto simp: int_of_digits_def str_isdecimal_isdigit split: if_splits)

lemma scan_lcore_tokens_Cons_parsed:
  "scan_lcore_tokens path parsed (t # ts) = LcoreParsed ids \<longleftrightarrow>
     (\<exists>cs. token_cores t = Some cs \<and> scan_lcore_tokens path (parsed @ cs) ts = LcoreParsed ids)"
  by (auto simp: token_cores_def int_of_digits_isdigit split: prod.splits option.splits)

lemma scan_lcore_tokens_parsed_iff:
  "scan_lcore_tokens path parsed ts = LcoreParsed ids \<longleftrightarrow>
     (\<exists>parts. map token_cores ts = map Some parts \<and> ids = parsed @ concat parts)"
proof (induction ts arbitrary: parsed)
  case Nil
  show ?case by auto
next
  case (Cons t ts)
  show ?case
    unfolding scan_lcore_tokens_Cons_parsed Cons.IH
    by (auto simp: map_eq_Cons_conv Cons_eq_map_conv)
qed

lemma length_remdups_distinct: "length xs = length (remdups xs) \<longleftrightarrow> distinct xs"
  by (metis length_remdups_eq remdups_id_iff_distinct)

lemma parse_lcore_spec_iff:
  "parse_lcore_spec path value = Inr ([], ids) \<longleftrightarrow> lcore_set value = Some ids"
proof -
  let ?ts = "lcore_tokens value"
  have "parse_lcore_spec path value = Inr ([], ids) \<longleftrightarrow>
      ?ts \<noteq> [] \<and> scan_lcore_tokens path [] ?ts = LcoreParsed ids \<and> distinct ids"
    by (auto simp: parse_lcore_spec_def Let_def length_remdups_distinct split: lcore_scan.splits)
  also have "\<dots> \<longleftrightarrow> lcore_set value = Some ids"
    by (auto simp: lcore_set_def scan_lcore_tokens_parsed_iff those_eq_Some_iff split: option.splits)
  finally show ?thesis .
qed

lemma token_cores_nonneg:
  "token_cores t = Some cs \<Longrightarrow> cs \<noteq> [] \<and> (\<forall>c\<in>set cs. 0 \<le> c)"
  by (auto simp: token_cores_def int_of_digits_def split: prod.splits option.splits if_splits)

lemma lcore_set_sound:
  assumes "lcore_set value = Some ids"
  shows "ids \<noteq> []" and "distinct ids" and "c \<in> set ids \<Longrightarrow> 0 \<le> c"
proof -
  obtain parts where parts: "map token_cores (lcore_tokens value) = map Some parts" "parts \<noteq> []"
      "distinct (concat parts)" "ids = concat parts"
    using assms by (auto simp: lcore_set_def those_eq_Some_iff split: option.splits if_splits)
  have part: "p \<noteq> [] \<and> (\<forall>c\<in>set p. 0 \<le> c)" if "p \<in> set parts" for p
  proof -
    from that have "Some p \<in> set (map token_cores (lcore_tokens value))" by (simp add: parts(1))
    then show ?thesis by (auto dest!: sym [of "Some p"] token_cores_nonneg)
  qed
  from parts(2) part show "ids \<noteq> []" by (cases parts) (auto simp: parts(4))
  from parts(3,4) show "distinct ids" by simp
  assume "c \<in> set ids"
  then show "0 \<le> c" using part by (auto simp: parts(4))
qed

section \<open>The profile against its specification\<close>

lemma queue_issues_Nil_iff [collector_iff]:
  "queue_issues p rx tx burst = [] \<longleftrightarrow>
     rx \<le> MAX_QUEUE_SIZE \<and> tx \<le> MAX_QUEUE_SIZE \<and> burst \<le> MAX_BURST_SIZE \<and> burst \<le> rx \<and> burst \<le> tx"
  by (auto simp: queue_issues_def)

lemma mempool_issues_Nil_iff [collector_iff]:
  "mempool_issues p n m r = [] \<longleftrightarrow> r \<le> m \<and> m \<le> MAX_MEMPOOL_SIZE"
  by (auto simp: mempool_issues_def)

lemma hugepages_issues_Nil_iff [collector_iff]:
  "hugepages_issues p h r = [] \<longleftrightarrow>
     h mod DEFAULT_HUGEPAGE_SIZE_MB = 0 \<and> r \<le> h \<and> h \<le> MAX_HUGEPAGES_MB"
  by (auto simp: hugepages_issues_def)

lemma lcore_count_issues_Nil_iff [collector_iff]:
  "lcore_count_issues p n = [] \<longleftrightarrow> n \<le> MAX_LCORE_COUNT"
  by (auto simp: lcore_count_issues_def)

lemma recommended_mempool_ge: "MIN_MEMPOOL_SIZE \<le> recommended_mempool_size n rx tx"
  unfolding recommended_mempool_size_def
  by (rule order_trans [OF _ pow2.up_ge]) simp

lemma recommended_hugepages_ge:
  "recommended_hugepages_mb m = Some h \<Longrightarrow> DEFAULT_HUGEPAGES_FLOOR_MB \<le> h"
  by (auto simp: recommended_hugepages_mb_def split: option.splits
      intro: order_trans [OF _ hugepage.up_ge])

lemma derive_with_issues_Nil_iff:
  "derive_effective_with_issues p n req = Inr ([], e) \<longleftrightarrow>
     (\<exists>ids h. lcore_set (str_or (dc_lcores req) DEFAULT_LCORES) = Some ids \<and>
        recommended_hugepages_mb (ef_mempool_size e) = Some h \<and>
        e = resolve_runtime req n (length ids) h \<and> runtime_profile_ok e)"
    (is "?lhs \<longleftrightarrow> ?rhs")
proof
  assume ?lhs
  then obtain ids h where ids: "parse_lcore_spec (p @ ''.lcores'') (str_or (dc_lcores req) DEFAULT_LCORES) = Inr ([], ids)"
      and h: "recommended_hugepages_mb (ef_mempool_size e) = Some h"
      and e: "e = resolve_runtime req n (length ids) h" "EffectiveDpdkRuntimeModel_ok e"
      and "lcore_count_issues p (ef_lcore_count e) = []"
      and "queue_issues p (ef_rx_queue_size e) (ef_tx_queue_size e) (ef_burst_size e) = []"
      and "mempool_issues p n (ef_mempool_size e)
             (recommended_mempool_size n (ef_rx_queue_size e) (ef_tx_queue_size e)) = []"
      and "hugepages_issues p (ef_hugepages_mb e) h = []"
    by (auto simp: derive_effective_with_issues_def resolve_runtime_def Let_def mk_Effective_Inr_iff
        parse_lcore_spec_iff dest: lcore_set_sound(1) split: sum.splits option.splits if_splits)
  then have "runtime_profile_ok e"
    by (simp add: collector_iff runtime_profile_ok_def EffectiveDpdkRuntimeModel_ok_def
        resolve_runtime_def Let_def policy_consts)
  with ids h e show ?rhs by (auto simp: parse_lcore_spec_iff)
next
  assume ?rhs
  then obtain ids h where ids: "lcore_set (str_or (dc_lcores req) DEFAULT_LCORES) = Some ids"
      and h: "recommended_hugepages_mb (ef_mempool_size e) = Some h"
      and e: "e = resolve_runtime req n (length ids) h" and ok: "runtime_profile_ok e"
    by blast
  have "EffectiveDpdkRuntimeModel_ok e"
    using ok h recommended_hugepages_ge [OF h]
      recommended_mempool_ge [of "ef_port_count e" "ef_rx_queue_size e" "ef_tx_queue_size e"]
    by (simp add: runtime_profile_ok_def EffectiveDpdkRuntimeModel_ok_def policy_consts)
  with ids h ok e show ?lhs
    using lcore_set_sound(1) [OF ids]
    by (simp add: derive_effective_with_issues_def resolve_runtime_def Let_def mk_Effective_def
        parse_lcore_spec_iff [THEN iffD2] collector_iff runtime_profile_ok_def)
qed

lemma derive_effective_iff:
  "derive_effective_dpdk_runtime req n = Inr e \<longleftrightarrow>
     (\<exists>ids h. lcore_set (str_or (dc_lcores req) DEFAULT_LCORES) = Some ids \<and>
        recommended_hugepages_mb (ef_mempool_size e) = Some h \<and>
        e = resolve_runtime req n (length ids) h \<and> runtime_profile_ok e)"
  unfolding derive_with_issues_Nil_iff [of "''processes.dpdkd''", symmetric]
  by (auto simp: derive_effective_dpdk_runtime_def split: sum.splits if_splits)

lemma lcore_tokens_join:
  assumes "\<And>t. t \<in> set ts \<Longrightarrow> t \<noteq> [] \<and> list_all char_isdecimal t" and "ts \<noteq> []"
  shows "lcore_tokens (str_join '','' ts) = ts"
proof -
  have "CHR '','' \<notin> set t" if "t \<in> set ts" for t
    using assms(1) [OF that] by (auto simp: list_all_iff char_isdecimal_def)
  with assms(2) have "str_split (CHR '','') (str_join '','' ts) = ts" by (rule str_split_join)
  moreover have "str_strip t = t" if "t \<in> set ts" for t
    using assms(1) [OF that] by (intro str_strip_id) (auto simp: list_all_iff list_ex_iff dest: char_isdecimal_not_space)
  ultimately show ?thesis
    using assms(1) by (auto simp: lcore_tokens_def cong: map_cong intro: filter_True)
qed

lemma token_cores_str_of_nat:
  assumes "n < 10 ^ int_max_str_digits"
  shows "token_cores (str_of_nat n) = Some [int n]"
proof -
  have "CHR ''-'' \<notin> set (str_of_nat n)"
    using str_of_nat_decimal [of n] by (auto simp: list_all_iff char_isdecimal_def)
  with assms show ?thesis by (simp add: token_cores_def int_of_digits_str_of_nat)
qed

lemma lcore_set_join:
  assumes "ns \<noteq> []" and "distinct ns" and "\<And>n. n \<in> set ns \<Longrightarrow> n < 10 ^ int_max_str_digits"
  shows "lcore_set (str_join '','' (map str_of_nat ns)) = Some (map int ns)"
proof -
  have "lcore_tokens (str_join '','' (map str_of_nat ns)) = map str_of_nat ns"
    using assms(1) by (intro lcore_tokens_join) (auto simp: str_of_nat_decimal)
  moreover have "those (map token_cores (map str_of_nat ns)) = Some (map (\<lambda>n. [int n]) ns)"
    using assms(3) by (simp add: those_eq_Some_iff token_cores_str_of_nat)
  moreover have "concat (map (\<lambda>n. [int n]) ns) = map int ns" by (induction ns) auto
  ultimately show ?thesis
    using assms(1,2) by (simp add: lcore_set_def distinct_map del: map_map)
qed

lemma derive_with_issues_elim:
  assumes "derive_effective_with_issues p n req = Inr (issues, e)"
  obtains li ids h where
    "parse_lcore_spec (p @ ''.lcores'') (ef_lcores e) = Inr (li, ids)"
    "recommended_hugepages_mb (ef_mempool_size e) = Some h"
    "EffectiveDpdkRuntimeModel_ok e" "ef_port_count e = n"
    "ef_hugepages_mb e = int_or (dc_hugepages_mb req) h"
    "issues = li @ lcore_count_issues p (ef_lcore_count e)
       @ queue_issues p (ef_rx_queue_size e) (ef_tx_queue_size e) (ef_burst_size e)
       @ mempool_issues p n (ef_mempool_size e)
           (recommended_mempool_size n (ef_rx_queue_size e) (ef_tx_queue_size e))
       @ hugepages_issues p (ef_hugepages_mb e) h"
  using assms unfolding derive_effective_with_issues_def Let_def
  by (auto simp: mk_Effective_Inr_iff split: sum.splits option.splits)

text \<open>
  The hugepage-multiple issue cannot reach the caller: the constructor of the result demands the
  multiple first.
\<close>

abbreviation hugepage_multiple_code :: string where
  "hugepage_multiple_code \<equiv> ''invalid_hugepage_multiple''"

lemma scan_lcore_codes:
  "scan_lcore_tokens q acc ts = LcoreReject j \<Longrightarrow> vi_code j \<noteq> hugepage_multiple_code"
  by (induction q acc ts rule: scan_lcore_tokens.induct)
    (auto simp: issue_def split: prod.splits option.splits if_splits)

lemma parse_lcore_codes:
  "parse_lcore_spec q v = Inr (is, ids) \<Longrightarrow> hugepage_multiple_code \<notin> vi_code ` set is"
  by (auto simp: parse_lcore_spec_def Let_def issue_def dest: scan_lcore_codes
      split: lcore_scan.splits if_splits)

lemma policy_issue_codes:
  "hugepage_multiple_code \<notin> vi_code ` set (lcore_count_issues p k)"
  "hugepage_multiple_code \<notin> vi_code ` set (queue_issues p rx tx b)"
  "hugepage_multiple_code \<notin> vi_code ` set (mempool_issues p n m r)"
  "h mod DEFAULT_HUGEPAGE_SIZE_MB = 0 \<Longrightarrow>
     hugepage_multiple_code \<notin> vi_code ` set (hugepages_issues p h hr)"
  by (auto simp: lcore_count_issues_def queue_issues_def mempool_issues_def hugepages_issues_def
      issue_def)

lemma derivation_issue_codes:
  assumes "derive_effective_with_issues p n req = Inr (issues, e)"
  shows "hugepage_multiple_code \<notin> vi_code ` set issues"
proof -
  from assms obtain li ids h where li: "parse_lcore_spec (p @ ''.lcores'') (ef_lcores e) = Inr (li, ids)"
      and ok: "EffectiveDpdkRuntimeModel_ok e"
      and issues: "issues = li @ lcore_count_issues p (ef_lcore_count e)
       @ queue_issues p (ef_rx_queue_size e) (ef_tx_queue_size e) (ef_burst_size e)
       @ mempool_issues p n (ef_mempool_size e)
           (recommended_mempool_size n (ef_rx_queue_size e) (ef_tx_queue_size e))
       @ hugepages_issues p (ef_hugepages_mb e) h"
    by (rule derive_with_issues_elim)
  from ok have "ef_hugepages_mb e mod DEFAULT_HUGEPAGE_SIZE_MB = 0"
    by (simp add: EffectiveDpdkRuntimeModel_ok_def DEFAULT_HUGEPAGE_SIZE_MB_def)
  with li show ?thesis
    unfolding issues by (simp add: image_Un parse_lcore_codes policy_issue_codes)
qed

section \<open>The default profile\<close>

definition default_request :: "string \<Rightarrow> DpdkProcessConfigModel" where
  "default_request ns =
     \<lparr>dc_namespace = ns, dc_lcores = None, dc_hugepages_mb = None, dc_burst_size = None,
      dc_rx_queue_size = None, dc_tx_queue_size = None, dc_mempool_size = None\<rparr>"

definition default_profile :: "int \<Rightarrow> EffectiveDpdkRuntimeModel" where
  "default_profile n =
     \<lparr>ef_lcores = ''1'', ef_lcore_count = 1, ef_hugepage_size_mb = 2,
      ef_hugepages_mb = (if n \<le> 16 then 256 else 320), ef_burst_size = 32,
      ef_rx_queue_size = 256, ef_tx_queue_size = 256,
      ef_mempool_size = round_up_power_of_two (2048 * n), ef_port_count = n\<rparr>"

lemma default_lcores: "lcore_set DEFAULT_LCORES = Some [1]"
  using lcore_set_join [of "[1]"] small_below_digit_limit [of 1]
  by (simp add: DEFAULT_LCORES_def str_of_nat.simps)

lemma default_mempool:
  assumes "1 \<le> n"
  shows "recommended_mempool_size n 256 256 = round_up_power_of_two (2048 * n)"
proof -
  from assms have "max 2048 (n * (256 + 256) * 4) = 2048 * n" by simp
  then show ?thesis unfolding recommended_mempool_size_def policy_consts by simp
qed

lemma default_mempool_range:
  assumes "1 \<le> n"
  shows "n \<le> 32 \<longleftrightarrow> round_up_power_of_two (2048 * n) \<le> 65536"
    and "n \<le> 16 \<Longrightarrow> round_up_power_of_two (2048 * n) \<le> 32768"
    and "16 < n \<Longrightarrow> n \<le> 32 \<Longrightarrow> round_up_power_of_two (2048 * n) = 65536"
    and "0 \<le> round_up_power_of_two (2048 * n)"
proof -
  have le: "round_up_power_of_two (2048 * n) \<le> 2 ^ k \<longleftrightarrow> 2048 * n \<le> 2 ^ k" for k
    using assms by (intro pow2.up_le_iff) auto
  from le [of 16] show "n \<le> 32 \<longleftrightarrow> round_up_power_of_two (2048 * n) \<le> 65536" by simp
  from le [of 15] show "n \<le> 16 \<Longrightarrow> round_up_power_of_two (2048 * n) \<le> 32768" by simp
  show "0 \<le> round_up_power_of_two (2048 * n)" using pow2.up_ge [of "2048 * n"] assms by simp
  assume "16 < n" and "n \<le> 32"
  obtain k where k: "round_up_power_of_two (2048 * n) = 2 ^ k" using pow2.up_grid [of "2048 * n"] assms by auto
  from le [of 15] \<open>16 < n\<close> k have "(2::int) ^ 15 < 2 ^ k" by simp
  then have "15 < k" by (rule power_less_imp_less_exp [rotated]) simp
  moreover from le [of 16] \<open>n \<le> 32\<close> k have "(2::int) ^ k \<le> 2 ^ 16" by simp
  then have "k \<le> 16" by (rule power_le_imp_le_exp [rotated]) simp
  ultimately have "k = 16" by simp
  with k show "round_up_power_of_two (2048 * n) = 65536" by simp
qed

lemma default_hugepages:
  assumes "1 \<le> n" and "n \<le> 32"
  shows "recommended_hugepages_mb (round_up_power_of_two (2048 * n)) =
     Some (if n \<le> 16 then 256 else 320)"
proof (cases "n \<le> 16")
  case True
  let ?m = "round_up_power_of_two (2048 * n)"
  have "0 \<le> ?m" and "?m \<le> 32768" using default_mempool_range [OF assms(1)] True by auto
  then have "recommended_hugepages_mb ?m = Some (round_up_to_multiple 2 (max 256 (64 + (?m + 255) div 256)))"
    by (subst recommended_hugepages_exact) (auto simp: policy_consts)
  moreover have "max 256 (64 + (?m + 255) div 256) = 256" using \<open>?m \<le> 32768\<close> by simp
  ultimately show ?thesis using True by (simp add: round_up_to_multiple_def)
next
  case False
  then show ?thesis
    using default_mempool_range [OF assms(1)] assms(2)
    by (simp add: recommended_hugepages_exact policy_consts round_up_to_multiple_def)
qed

lemma default_runtime:
  assumes "1 \<le> n" and "n \<le> 32"
  shows "derive_effective_dpdk_runtime (default_request ns) n = Inr (default_profile n)"
proof -
  let ?h = "if n \<le> 16 then 256 else 320 :: int"
  have e: "default_profile n = resolve_runtime (default_request ns) n (length [1 :: int]) ?h"
    using assms(1)
    by (simp add: default_profile_def resolve_runtime_def default_request_def int_or_def str_or_def
        policy_consts default_mempool)
  have "runtime_profile_ok (default_profile n)"
    using assms default_mempool_range(1) [OF assms(1)]
    by (simp add: runtime_profile_ok_def default_profile_def policy_consts default_mempool
        default_hugepages)
  moreover have "recommended_hugepages_mb (ef_mempool_size (default_profile n)) = Some ?h"
    using default_hugepages [OF assms] by (simp add: default_profile_def)
  moreover have "lcore_set (str_or (dc_lcores (default_request ns)) DEFAULT_LCORES) = Some [1]"
    by (simp add: default_request_def str_or_def default_lcores)
  ultimately show ?thesis
    unfolding derive_effective_iff using e by blast
qed

section \<open>Properties\<close>

text \<open>C7. The derivation accepts a request exactly when its core list denotes distinct cores, its
  memory estimate is representable, and the resolved profile keeps every limit the controller
  promises; the profile returned is then the requested one with defaults filled in.\<close>

theorem effective_runtime_iff:
  "derive_effective_dpdk_runtime requested port_count = Inr effective \<longleftrightarrow>
     (\<exists>ids h. lcore_set (str_or (dc_lcores requested) DEFAULT_LCORES) = Some ids \<and>
        recommended_hugepages_mb (ef_mempool_size effective) = Some h \<and>
        effective = resolve_runtime requested port_count (length ids) h \<and>
        runtime_profile_ok effective)"
  by (rule derive_effective_iff)

text \<open>A request that leaves everything open is accepted for one to 32 ports, with the
  documented defaults: a mempool of the next power of two above 2048 buffers per port and
  256 MB of hugepages, 320 MB beyond 16 ports.\<close>

theorem default_runtime_profile:
  assumes "1 \<le> port_count" and "port_count \<le> 32"
  shows "derive_effective_dpdk_runtime (default_request namespace) port_count =
     Inr (default_profile port_count)"
  using assms by (rule default_runtime)

theorem default_runtime_profile_witness:
  "derive_effective_dpdk_runtime (default_request ''dpdk-host'') 2 =
     Inr \<lparr>ef_lcores = ''1'', ef_lcore_count = 1, ef_hugepage_size_mb = 2, ef_hugepages_mb = 256,
          ef_burst_size = 32, ef_rx_queue_size = 256, ef_tx_queue_size = 256,
          ef_mempool_size = 4096, ef_port_count = 2\<rparr>"
  using default_runtime_profile [of 2 "''dpdk-host''"]
  by (simp add: default_profile_def round_up_power_of_two_def bit_length.simps)

text \<open>\<open>_round_up_power_of_two\<close> returns the least power of two that is not below its argument.\<close>

theorem power_of_two_is_least:
  "v \<le> round_up_power_of_two v \<and> (\<exists>k. round_up_power_of_two v = 2 ^ k) \<and>
     (\<forall>k. v \<le> 2 ^ k \<longrightarrow> round_up_power_of_two v \<le> 2 ^ k)"
proof -
  have "\<exists>k. round_up_power_of_two v = 2 ^ k"
    by (cases "0 < v") (auto intro: pow2.up_grid exI [of _ 0] simp: round_up_power_of_two_def)
  then show ?thesis by (simp add: pow2.up_ge round_up_power_of_two_least)
qed

theorem power_of_two_is_least_witness:
  "4000 \<le> round_up_power_of_two 4000 \<and> round_up_power_of_two 4000 \<le> 4096"
  using power_of_two_is_least [of 4000] by (auto dest: spec [of _ 12])

text \<open>C30. The hugepage recommendation, computed with a floating-point division, is the exact
  ceiling for every mempool below \<open>2\<^sup>4\<^sup>1\<close> buffers, so for every size the controller accepts: the
  least even number of megabytes that covers 64 MB and 4096 bytes per buffer, 256 at least.\<close>

theorem hugepages_estimate_exact:
  assumes "0 \<le> mempool_size" and "mempool_size < 2 ^ 41"
  shows "\<exists>h. recommended_hugepages_mb mempool_size = Some h \<and> 2 dvd h \<and> 256 \<le> h \<and>
     mempool_size * 4096 \<le> (h - 64) * (1024 * 1024) \<and>
     (\<forall>g. 2 dvd g \<and> 256 \<le> g \<and> mempool_size * 4096 \<le> (g - 64) * (1024 * 1024) \<longrightarrow> h \<le> g)"
proof -
  let ?v = "max 256 (64 + (mempool_size + 255) div 256)"
  let ?h = "round_up_to_multiple 2 ?v"
  have "recommended_hugepages_mb mempool_size = Some ?h"
    using recommended_hugepages_exact [OF assms] by (simp add: policy_consts)
  moreover have "2 dvd ?h" and h: "?v \<le> ?h"
    using round_up_to_multiple_bounds [of 2 ?v] by auto
  moreover have "256 \<le> ?h" and "mempool_size * 4096 \<le> (?h - 64) * (1024 * 1024)"
    using h by auto
  moreover have "?h \<le> g" if "2 dvd g" "256 \<le> g" "mempool_size * 4096 \<le> (g - 64) * (1024 * 1024)" for g
    using that by (intro round_up_to_multiple_least) auto
  ultimately show ?thesis by blast
qed

theorem hugepages_estimate_exact_witness:
  "\<exists>h. recommended_hugepages_mb 65536 = Some h \<and> 2 dvd h \<and> 256 \<le> h \<and>
     65536 * 4096 \<le> (h - 64) * (1024 * 1024)"
  using hugepages_estimate_exact [of 65536] by auto

text \<open>C28. The core-list parser agrees with the declarative reading of a specification: it returns
  cores without an issue exactly when every token denotes a core or an ascending range and no
  core repeats, and it returns the cores in the order written.\<close>

theorem lcore_parser_iff:
  "parse_lcore_spec path value = Inr ([], ids) \<longleftrightarrow> lcore_set value = Some ids"
  by (rule parse_lcore_spec_iff)

text \<open>C29. Writing distinct cores as a comma-separated list and parsing it gives them back.\<close>

theorem lcore_round_trip:
  assumes "cores \<noteq> []" and "distinct cores"
    and "\<forall>n \<in> set cores. n < 10 ^ int_max_str_digits"
  shows "parse_lcore_spec path (str_join '','' (map str_of_nat cores)) = Inr ([], map int cores)"
  using assms by (simp add: parse_lcore_spec_iff lcore_set_join)

theorem lcore_round_trip_witness:
  "parse_lcore_spec ''p'' (str_join '','' (map str_of_nat [3, 0, 12])) = Inr ([], [3, 0, 12])"
proof -
  have "\<forall>n \<in> set [3, 0, 12 :: nat]. n < 10 ^ int_max_str_digits"
    by (auto intro: small_below_digit_limit)
  then have "parse_lcore_spec ''p'' (str_join '','' (map str_of_nat [3, 0, 12])) =
      Inr ([], map int [3, 0, 12])"
    by (intro lcore_round_trip) auto
  then show ?thesis by simp
qed

text \<open>Whatever the request, the issue for a hugepage total that is no multiple of 2 MB never
  reaches the caller, and a configuration without ports gets no issue list at all: the
  constructor of the result raises pydantic's error before.\<close>

theorem hugepage_multiple_never_reported:
  assumes "derive_effective_with_issues path_prefix port_count requested = Inr (issues, effective)"
  shows "''invalid_hugepage_multiple'' \<notin> vi_code ` set issues \<and> 1 \<le> port_count"
  using assms derivation_issue_codes
  by (auto elim!: derive_with_issues_elim simp: EffectiveDpdkRuntimeModel_ok_def)

theorem hugepage_multiple_never_reported_witness:
  "\<exists>issues effective.
     derive_effective_with_issues ''processes.dpdkd'' 2
       ((default_request ''dpdk-host'')\<lparr>dc_lcores := Some ''x''\<rparr>) = Inr (issues, effective) \<and>
     ''invalid_hugepage_multiple'' \<notin> vi_code ` set issues"
proof -
  have "\<exists>is e. derive_effective_with_issues ''processes.dpdkd'' 2
      ((default_request ''dpdk-host'')\<lparr>dc_lcores := Some ''x''\<rparr>) = Inr (is, e)"
    using default_hugepages [of 2] default_mempool [of 2] pow2.up_ge [of 4096]
    by (simp add: derive_effective_with_issues_def default_request_def parse_lcore_spec_def
        lcore_tokens_def str_simps Let_def policy_consts mk_Effective_def
        EffectiveDpdkRuntimeModel_ok_def)
  then show ?thesis using hugepage_multiple_never_reported by blast
qed

end
