(* ===== verification/Ctrl_State.thy ===== *)
theory Ctrl_State
  imports Ctrl_Types
begin

text \<open>
  The desired and the observed state of the controller and the plan that moves one to the other
  (\<open>ctrld/pktlab_ctrld/state/\<close>: \<open>desired.py\<close>, \<open>observed.py\<close>, \<open>reconcile.py\<close>). A
  frozen dataclass with a \<open>__post_init__\<close> is a record with a constructor that may raise.
\<close>

section \<open>Desired state\<close>

definition validate_optional_text :: "string \<Rightarrow> string option \<Rightarrow> exn option" where
  "validate_optional_text field_name value =
     (case value of
        None \<Rightarrow> None
      | Some s \<Rightarrow>
          if str_strip s = [] then
            Some (PyValueError (field_name @ '' must be a non-empty string when provided''))
          else None)"

record DesiredState =
  topology_config_path :: "string option"
  topology_name :: "string option"
  desired_rules_version :: "int option"
  requested_dpdk_config :: "DpdkProcessConfigModel option"
  desired_controller_state :: ControllerState
  desired_datapath_running :: bool

definition default_DesiredState :: DesiredState where
  "default_DesiredState =
     \<lparr>topology_config_path = None, topology_name = None, desired_rules_version = None,
      requested_dpdk_config = None, desired_controller_state = CS_stopped,
      desired_datapath_running = False\<rparr>"

definition DesiredState_post_init :: "DesiredState \<Rightarrow> exn + DesiredState" where
  "DesiredState_post_init d =
     (case validate_optional_text ''topology_config_path'' (topology_config_path d) of
        Some e \<Rightarrow> Inl e
      | None \<Rightarrow>
          (case validate_optional_text ''topology_name'' (topology_name d) of
             Some e \<Rightarrow> Inl e
           | None \<Rightarrow>
               (case desired_rules_version d of
                  Some v \<Rightarrow>
                    if v < 0 then Inl (PyValueError ''desired_rules_version must be non-negative'')
                    else Inr d
                | None \<Rightarrow> Inr d)))"

definition topology_requested :: "DesiredState \<Rightarrow> bool" where
  "topology_requested d \<longleftrightarrow> topology_name d \<noteq> None"

section \<open>Observed state\<close>

definition validate_optional_non_negative :: "string \<Rightarrow> int option \<Rightarrow> exn option" where
  "validate_optional_non_negative field_name value =
     (case value of
        None \<Rightarrow> None
      | Some v \<Rightarrow>
          if v < 0 then Some (PyValueError (field_name @ '' must be non-negative'')) else None)"

definition validate_optional_positive :: "string \<Rightarrow> int option \<Rightarrow> exn option" where
  "validate_optional_positive field_name value =
     (case value of
        None \<Rightarrow> None
      | Some v \<Rightarrow>
          if v \<le> 0 then
            Some (PyValueError (field_name @ '' must be greater than zero when provided''))
          else None)"

record CaptureObservation =
  co_namespace :: string
  co_interface :: string
  co_pid :: "int option"

definition CaptureObservation_post_init :: "CaptureObservation \<Rightarrow> exn + CaptureObservation" where
  "CaptureObservation_post_init c =
     (if str_strip (co_namespace c) = [] then
        Inl (PyValueError ''namespace must be a non-empty string'')
      else if str_strip (co_interface c) = [] then
        Inl (PyValueError ''interface must be a non-empty string'')
      else (case validate_optional_positive ''pid'' (co_pid c) of Some e \<Rightarrow> Inl e | None \<Rightarrow> Inr c))"

record ObservedState =
  datapath_health :: "DatapathState option"
  applied_rules_version :: "int option"
  dpdkd_pid :: "int option"
  effective_dpdk_config :: "EffectiveDpdkRuntimeModel option"
  active_captures :: "(string \<times> CaptureObservation) list"
  topology_applied :: bool

definition default_ObservedState :: ObservedState where
  "default_ObservedState =
     \<lparr>datapath_health = None, applied_rules_version = None, dpdkd_pid = None,
      effective_dpdk_config = None, active_captures = [], topology_applied = False\<rparr>"

definition ObservedState_post_init :: "ObservedState \<Rightarrow> exn + ObservedState" where
  "ObservedState_post_init s =
     (case validate_optional_non_negative ''applied_rules_version'' (applied_rules_version s) of
        Some e \<Rightarrow> Inl e
      | None \<Rightarrow>
          (case validate_optional_positive ''dpdkd_pid'' (dpdkd_pid s) of
             Some e \<Rightarrow> Inl e
           | None \<Rightarrow> Inr s))"

definition datapath_running :: "ObservedState \<Rightarrow> bool" where
  "datapath_running s \<longleftrightarrow> dpdkd_pid s \<noteq> None"

section \<open>The plan\<close>

datatype ReconcileActionType =
    STOP_DATAPATH
  | DESTROY_TOPOLOGY
  | APPLY_TOPOLOGY
  | START_DATAPATH
  | WAIT_FOR_DATAPATH
  | REPLACE_RULES

record ReconcileAction =
  re_action :: ReconcileActionType
  re_reason :: string

definition reconcile_action :: "ReconcileActionType \<Rightarrow> string \<Rightarrow> ReconcileAction" where
  "reconcile_action a reason = \<lparr>re_action = a, re_reason = reason\<rparr>"

text \<open>\<open>ReconcilePlan.actions\<close>, the only field of a plan.\<close>

definition build_reconcile_plan :: "DesiredState \<Rightarrow> ObservedState \<Rightarrow> ReconcileAction list" where
  "build_reconcile_plan desired observed =
     (if \<not> desired_datapath_running desired \<and> datapath_running observed then
        [reconcile_action STOP_DATAPATH
          ''datapath is running but the desired state does not require it''] else [])
     @ (if \<not> topology_requested desired \<and> topology_applied observed then
        [reconcile_action DESTROY_TOPOLOGY
          ''topology is applied but the desired state no longer requests one''] else [])
     @ (if topology_requested desired \<and> \<not> topology_applied observed then
        [reconcile_action APPLY_TOPOLOGY
          ''desired topology is missing from the observed state''] else [])
     @ (if desired_datapath_running desired \<and> \<not> datapath_running observed then
        [reconcile_action START_DATAPATH
          ''desired state requires the datapath process to be running''] else [])
     @ (if desired_datapath_running desired \<and> datapath_running observed
          \<and> datapath_health observed \<noteq> Some DS_running then
        [reconcile_action WAIT_FOR_DATAPATH
          ''datapath process exists but has not reported a healthy running state yet''] else [])
     @ (if desired_rules_version desired \<noteq> None
          \<and> desired_rules_version desired \<noteq> applied_rules_version observed then
        [reconcile_action REPLACE_RULES
          ''observed datapath rules do not match the desired rules version''] else [])"

definition is_noop :: "ReconcileAction list \<Rightarrow> bool" where
  "is_noop plan \<longleftrightarrow> plan = []"

section \<open>The order and the meaning of a plan\<close>

text \<open>
  The rank of an action is its place in a teardown-before-build order: nothing is built before
  what has to go is gone, the topology exists before the datapath starts in it, and rules are sent
  last.
\<close>

fun action_rank :: "ReconcileActionType \<Rightarrow> nat" where
  "action_rank STOP_DATAPATH = 0"
| "action_rank DESTROY_TOPOLOGY = 1"
| "action_rank APPLY_TOPOLOGY = 2"
| "action_rank START_DATAPATH = 3"
| "action_rank WAIT_FOR_DATAPATH = 4"
| "action_rank REPLACE_RULES = 5"

lemma action_rank_inject [simp]: "action_rank a = action_rank b \<longleftrightarrow> a = b"
  by (cases a; cases b) simp_all

instantiation ReconcileActionType :: linorder
begin

definition less_eq_ReconcileActionType :: "ReconcileActionType \<Rightarrow> ReconcileActionType \<Rightarrow> bool" where
  "less_eq_ReconcileActionType a b \<longleftrightarrow> action_rank a \<le> action_rank b"

definition less_ReconcileActionType :: "ReconcileActionType \<Rightarrow> ReconcileActionType \<Rightarrow> bool" where
  "less_ReconcileActionType a b \<longleftrightarrow> action_rank a < action_rank b"

instance
  by standard (auto simp: less_eq_ReconcileActionType_def less_ReconcileActionType_def)

end

definition planned :: "DesiredState \<Rightarrow> ObservedState \<Rightarrow> ReconcileActionType set" where
  "planned d s = re_action ` set (build_reconcile_plan d s)"

definition converged :: "DesiredState \<Rightarrow> ObservedState \<Rightarrow> bool" where
  "converged d s \<longleftrightarrow>
     (desired_datapath_running d \<longleftrightarrow> datapath_running s) \<and>
     (topology_requested d \<longleftrightarrow> topology_applied s) \<and>
     (datapath_running s \<longrightarrow> datapath_health s = Some DS_running) \<and>
     (\<forall>v. desired_rules_version d = Some v \<longrightarrow> applied_rules_version s = Some v)"

lemma planned_iff:
  "STOP_DATAPATH \<in> planned d s \<longleftrightarrow> \<not> desired_datapath_running d \<and> datapath_running s"
  "DESTROY_TOPOLOGY \<in> planned d s \<longleftrightarrow> \<not> topology_requested d \<and> topology_applied s"
  "APPLY_TOPOLOGY \<in> planned d s \<longleftrightarrow> topology_requested d \<and> \<not> topology_applied s"
  "START_DATAPATH \<in> planned d s \<longleftrightarrow> desired_datapath_running d \<and> \<not> datapath_running s"
  "WAIT_FOR_DATAPATH \<in> planned d s \<longleftrightarrow>
     desired_datapath_running d \<and> datapath_running s \<and> datapath_health s \<noteq> Some DS_running"
  "REPLACE_RULES \<in> planned d s \<longleftrightarrow>
     desired_rules_version d \<noteq> None \<and> desired_rules_version d \<noteq> applied_rules_version s"
  by (auto simp: planned_def build_reconcile_plan_def reconcile_action_def)

lemma plan_actions:
  "map re_action (build_reconcile_plan d s) =
     filter (\<lambda>a. a \<in> planned d s)
       [STOP_DATAPATH, DESTROY_TOPOLOGY, APPLY_TOPOLOGY, START_DATAPATH, WAIT_FOR_DATAPATH, REPLACE_RULES]"
  by (simp add: planned_iff build_reconcile_plan_def reconcile_action_def)

lemma noop_iff_converged: "build_reconcile_plan d s = [] \<longleftrightarrow> converged d s"
  by (auto simp: build_reconcile_plan_def converged_def)

section \<open>Properties\<close>

text \<open>C23. The plan is empty exactly when the observed state has converged to the desired one.\<close>

theorem plan_empty_iff_converged:
  "is_noop (build_reconcile_plan desired observed) \<longleftrightarrow> converged desired observed"
  by (simp add: is_noop_def noop_iff_converged)

text \<open>C24. A plan never repeats an action, lists its actions in the order teardown, topology,
  datapath, rules, and never both stops and starts (or waits for) the datapath or both destroys and
  applies the topology.\<close>

theorem plan_ordered_and_consistent:
  "sorted (map re_action (build_reconcile_plan desired observed)) \<and>
   distinct (map re_action (build_reconcile_plan desired observed)) \<and>
   \<not> {STOP_DATAPATH, START_DATAPATH} \<subseteq> planned desired observed \<and>
   \<not> {STOP_DATAPATH, WAIT_FOR_DATAPATH} \<subseteq> planned desired observed \<and>
   \<not> {START_DATAPATH, WAIT_FOR_DATAPATH} \<subseteq> planned desired observed \<and>
   \<not> {DESTROY_TOPOLOGY, APPLY_TOPOLOGY} \<subseteq> planned desired observed"
  unfolding plan_actions
  by (auto simp: planned_iff less_eq_ReconcileActionType_def)

end
