(* ===== verification/Py_Exec.thy ===== *)
theory Py_Exec
  imports Ctrl_Error
begin

text \<open>
  Programs that change the world and may raise: from a state to the result or exception and the
  new state, or to \<^const>\<open>None\<close> when they do not return. The state is whatever the program can
  touch, so the type is polymorphic in it. \<open>outcome m Q E s\<close> says that \<open>m\<close>, run in
  \<open>s\<close>, returns, with \<open>Q\<close> of its value and the new state when it ends normally and
  \<open>E\<close> of the exception and the new state when it raises; its rules compute it along the program.
\<close>

type_synonym ('s, 'a) prog = "'s \<Rightarrow> ((exn + 'a) \<times> 's) option"

section \<open>Building programs\<close>

definition ret :: "'a \<Rightarrow> ('s, 'a) prog" where
  "ret x s = Some (Inr x, s)"

definition raise :: "exn \<Rightarrow> ('s, 'a) prog" where
  "raise e s = Some (Inl e, s)"

definition bind :: "('s, 'a) prog \<Rightarrow> ('a \<Rightarrow> ('s, 'b) prog) \<Rightarrow> ('s, 'b) prog" where
  "bind m k s =
     (case m s of
        None \<Rightarrow> None
      | Some (Inl e, s') \<Rightarrow> Some (Inl e, s')
      | Some (Inr x, s') \<Rightarrow> k x s')"

definition then_do :: "('s, 'a) prog \<Rightarrow> ('s, 'b) prog \<Rightarrow> ('s, 'b) prog" where
  "then_do m k = bind m (\<lambda>_. k)"

text \<open>\<open>try\<close>: the result or the exception as a value.\<close>

definition attempt :: "('s, 'a) prog \<Rightarrow> ('s, exn + 'a) prog" where
  "attempt m s = (case m s of None \<Rightarrow> None | Some (r, s') \<Rightarrow> Some (Inr r, s'))"

text \<open>A value of the sum type, as a program; a step that always returns; a \<open>for\<close> loop.\<close>

definition lift_sum :: "exn + 'a \<Rightarrow> ('s, 'a) prog" where
  "lift_sum r s = Some (r, s)"

definition step :: "('s \<Rightarrow> (exn + 'a) \<times> 's) \<Rightarrow> ('s, 'a) prog" where
  "step f s = Some (f s)"

fun for_each :: "('x \<Rightarrow> ('s, unit) prog) \<Rightarrow> 'x list \<Rightarrow> ('s, unit) prog" where
  "for_each f [] = ret ()"
| "for_each f (x # xs) = then_do (f x) (for_each f xs)"

text \<open>A program on the second part of a state, and access to the first part.\<close>

definition on_snd :: "('s, 'a) prog \<Rightarrow> ('c \<times> 's, 'a) prog" where
  "on_snd m cs = map_option (\<lambda>(r, s'). (r, (fst cs, s'))) (m (snd cs))"

definition get_fst :: "('c \<times> 's, 'c) prog" where
  "get_fst cs = Some (Inr (fst cs), cs)"

definition put_fst :: "'c \<Rightarrow> ('c \<times> 's, unit) prog" where
  "put_fst c cs = Some (Inr (), (c, snd cs))"

section \<open>Outcomes\<close>

definition outcome ::
  "('s, 'a) prog \<Rightarrow> ('a \<Rightarrow> 's \<Rightarrow> bool) \<Rightarrow> (exn \<Rightarrow> 's \<Rightarrow> bool) \<Rightarrow> 's \<Rightarrow> bool" where
  "outcome m Q E s \<longleftrightarrow>
     (case m s of
        None \<Rightarrow> False
      | Some (Inl e, s') \<Rightarrow> E e s'
      | Some (Inr x, s') \<Rightarrow> Q x s')"

lemma outcome_ret [exec_simps]: "outcome (ret x) Q E s \<longleftrightarrow> Q x s"
  by (simp add: outcome_def ret_def)

lemma outcome_raise [exec_simps]: "outcome (raise e) Q E s \<longleftrightarrow> E e s"
  by (simp add: outcome_def raise_def)

lemma outcome_bind [exec_simps]:
  "outcome (bind m k) Q E s \<longleftrightarrow> outcome m (\<lambda>x. outcome (k x) Q E) E s"
  by (auto simp: outcome_def bind_def split: option.splits sum.splits)

lemma outcome_then [exec_simps]:
  "outcome (then_do m k) Q E s \<longleftrightarrow> outcome m (\<lambda>_. outcome k Q E) E s"
  by (simp add: then_do_def outcome_bind)

lemma outcome_attempt [exec_simps]:
  "outcome (attempt m) Q E s \<longleftrightarrow> outcome m (\<lambda>x. Q (Inr x)) (\<lambda>e. Q (Inl e)) s"
  by (auto simp: outcome_def attempt_def split: option.splits sum.splits)

lemma outcome_lift_sum [exec_simps]:
  "outcome (lift_sum r) Q E s \<longleftrightarrow> (case r of Inl e \<Rightarrow> E e s | Inr x \<Rightarrow> Q x s)"
  by (simp add: outcome_def lift_sum_def)

lemma outcome_step [exec_simps]:
  "outcome (step f) Q E s \<longleftrightarrow> (case f s of (Inl e, s') \<Rightarrow> E e s' | (Inr x, s') \<Rightarrow> Q x s')"
  by (auto simp: outcome_def step_def split: prod.splits sum.splits)

lemma outcome_on_snd [exec_simps]:
  "outcome (on_snd m) Q E (c, s) \<longleftrightarrow> outcome m (\<lambda>x s'. Q x (c, s')) (\<lambda>e s'. E e (c, s')) s"
  by (auto simp: outcome_def on_snd_def split: option.splits sum.splits)

lemma outcome_get_fst [exec_simps]: "outcome get_fst Q E (c, s) \<longleftrightarrow> Q c (c, s)"
  by (simp add: outcome_def get_fst_def)

lemma outcome_put_fst [exec_simps]: "outcome (put_fst c') Q E (c, s) \<longleftrightarrow> Q () (c', s)"
  by (simp add: outcome_def put_fst_def)

lemma outcome_mono:
  assumes "outcome m Q E s"
    and "\<And>x s'. Q x s' \<Longrightarrow> Q' x s'" and "\<And>e s'. E e s' \<Longrightarrow> E' e s'"
  shows "outcome m Q' E' s"
  using assms by (auto simp: outcome_def split: option.splits sum.splits)

lemma outcome_Inr: "outcome m Q E s \<Longrightarrow> m s = Some (Inr x, s') \<Longrightarrow> Q x s'"
  by (simp add: outcome_def)

lemma outcome_Inl: "outcome m Q E s \<Longrightarrow> m s = Some (Inl e, s') \<Longrightarrow> E e s'"
  by (simp add: outcome_def)

lemma outcome_returns: "outcome m Q E s \<Longrightarrow> \<exists>r s'. m s = Some (r, s')"
  by (cases "m s") (auto simp: outcome_def)

lemma outcome_if [exec_simps]:
  "outcome (if b then m else m') Q E s \<longleftrightarrow> (if b then outcome m Q E s else outcome m' Q E s)"
  by simp

text \<open>A loop keeps an invariant over the items it has been through.\<close>

lemma outcome_for_each_from:
  assumes "I done s"
    and "\<And>done x s. I done s \<Longrightarrow> x \<in> set xs \<Longrightarrow> outcome (f x) (\<lambda>_. I (done @ [x])) E s"
  shows "outcome (for_each f xs) (\<lambda>_. I (done @ xs)) E s"
  using assms
proof (induction xs arbitrary: "done" s)
  case Nil
  then show ?case by (simp add: exec_simps)
next
  case (Cons x xs)
  have "outcome (f x) (\<lambda>_. I (done @ [x])) E s" using Cons.prems by simp
  then show ?case
    unfolding for_each.simps outcome_then
  proof (rule outcome_mono)
    fix u s' assume "I (done @ [x]) s'"
    then have "outcome (for_each f xs) (\<lambda>_. I ((done @ [x]) @ xs)) E s'"
      using Cons.prems(2) by (intro Cons.IH) auto
    then show "outcome (for_each f xs) (\<lambda>_. I (done @ x # xs)) E s'" by simp
  qed simp
qed

lemma outcome_for_each:
  assumes "I [] s"
    and "\<And>done x s. I done s \<Longrightarrow> set done \<subseteq> set xs \<Longrightarrow> x \<in> set xs \<Longrightarrow>
      outcome (f x) (\<lambda>_. I (done @ [x])) E s"
  shows "outcome (for_each f xs) (\<lambda>_. I xs) E s"
proof -
  have "outcome (for_each f xs) (\<lambda>_ s. I ([] @ xs) s \<and> set ([] @ xs) \<subseteq> set xs) E s"
  proof (rule outcome_for_each_from)
    fix "done" x s assume "I done s \<and> set done \<subseteq> set xs" and "x \<in> set xs"
    then show "outcome (f x) (\<lambda>_ s. I (done @ [x]) s \<and> set (done @ [x]) \<subseteq> set xs) E s"
      by (intro outcome_mono [OF assms(2)]) auto
  qed (simp add: assms(1))
  then show ?thesis by simp
qed

lemma outcome_then_inv:
  assumes "G s" and "\<And>s. G s \<Longrightarrow> outcome m (\<lambda>_. G) E s" and "\<And>s. G s \<Longrightarrow> outcome k Q E s"
  shows "outcome (then_do m k) Q E s"
  unfolding outcome_then by (rule outcome_mono [OF assms(2) [OF assms(1)]]) (rule assms(3))

lemma outcome_conj:
  "outcome m Q E s \<Longrightarrow> outcome m Q' E' s \<Longrightarrow>
     outcome m (\<lambda>x s. Q x s \<and> Q' x s) (\<lambda>e s. E e s \<and> E' e s) s"
  by (auto simp: outcome_def split: option.splits sum.splits)

end
