(* ===== verification/Netns.thy ===== *)
theory Netns
  imports Py_Exec
begin

text \<open>
  Running system commands (\<open>ctrld/pktlab_ctrld/util/\<close>: \<open>subprocess.py\<close>, \<open>netns.py\<close>,
  \<open>time.py\<close>). The program \<open>ip\<close> is not part of the repository: \<open>subprocess.run\<close> is the
  parameter \<open>run\<close> of every operation here, a function from an argument vector and the state of the
  world to the completed process (or the exception of launching it) and the new state. So is the
  clock.
\<close>

record completed_process =
  cpr_returncode :: int
  cpr_stdout :: string
  cpr_stderr :: string

type_synonym 's runner = "string list \<Rightarrow> 's \<Rightarrow> (exn + completed_process) \<times> 's"

section \<open>The command executor\<close>

record SubprocessResult =
  sr_argv :: "string list"
  sr_returncode :: int
  sr_stdout :: string
  sr_stderr :: string

text \<open>\<open>text or None\<close>.\<close>

definition text_or_none :: "string \<Rightarrow> pyval" where
  "text_or_none s = (if s = [] then PNone else PStr s)"

definition command_failed :: "SubprocessResult \<Rightarrow> exn" where
  "command_failed r =
     Pktlab (mk_ProcessExecutionError ''subprocess command failed''
       (Some [(''argv'', PList (map PStr (sr_argv r))), (''returncode'', PInt (sr_returncode r)),
              (''stdout'', text_or_none (sr_stdout r)), (''stderr'', text_or_none (sr_stderr r))]))"

definition executor_run ::
  "'s runner \<Rightarrow> string list \<Rightarrow> int list \<Rightarrow> ('s, SubprocessResult) prog" where
  "executor_run run argv allowed_returncodes =
     bind (step (run argv)) (\<lambda>completed.
       let result = \<lparr>sr_argv = argv, sr_returncode = cpr_returncode completed,
                     sr_stdout = cpr_stdout completed, sr_stderr = cpr_stderr completed\<rparr>
       in if sr_returncode result \<notin> set allowed_returncodes then raise (command_failed result)
          else ret result)"

section \<open>Reading what \<open>ip netns list\<close> prints\<close>

definition char_islinebreak :: "char \<Rightarrow> bool" where
  "char_islinebreak c \<longleftrightarrow> (let n = (of_char c :: nat) in
     10 \<le> n \<and> n \<le> 13 \<or> 28 \<le> n \<and> n \<le> 30 \<or> n = 133)"

text \<open>\<open>s.splitlines()\<close>, the characters of the current line in reverse.\<close>

fun splitlines_from :: "string \<Rightarrow> string \<Rightarrow> string list" where
  "splitlines_from cur [] = (if cur = [] then [] else [rev cur])"
| "splitlines_from cur (c # cs) =
     (if c = CHR 0x0D \<and> cs \<noteq> [] \<and> hd cs = CHR 0x0A then rev cur # splitlines_from [] (tl cs)
      else if char_islinebreak c then rev cur # splitlines_from [] cs
      else splitlines_from (c # cur) cs)"

definition str_splitlines :: "string \<Rightarrow> string list" where
  "str_splitlines s = splitlines_from [] s"

text \<open>\<open>line.split()\<close>: the maximal runs of characters that are no white space.\<close>

fun words_from :: "string \<Rightarrow> string \<Rightarrow> string list" where
  "words_from cur [] = (if cur = [] then [] else [rev cur])"
| "words_from cur (c # cs) =
     (if char_isspace c then (if cur = [] then words_from [] cs else rev cur # words_from [] cs)
      else words_from (c # cur) cs)"

definition str_words :: "string \<Rightarrow> string list" where
  "str_words s = words_from [] s"

text \<open>The loop of \<open>list_namespaces\<close> over the printed lines.\<close>

definition namespaces_of_output :: "string \<Rightarrow> string list" where
  "namespaces_of_output out =
     List.map_filter (\<lambda>line. case str_words line of [] \<Rightarrow> None | token # _ \<Rightarrow> Some token)
       (str_splitlines out)"

section \<open>The namespace runner\<close>

definition ip_argv :: "string option \<Rightarrow> string list \<Rightarrow> string list" where
  "ip_argv namespace arguments =
     [''ip''] @ (case namespace of None \<Rightarrow> [] | Some ns \<Rightarrow> [''-n'', ns]) @ arguments"

definition run_ip ::
  "'s runner \<Rightarrow> string list \<Rightarrow> string option \<Rightarrow> int list \<Rightarrow> ('s, SubprocessResult) prog" where
  "run_ip run arguments namespace allowed_returncodes =
     executor_run run (ip_argv namespace arguments) allowed_returncodes"

definition run_ip_checked :: "'s runner \<Rightarrow> string list \<Rightarrow> string option \<Rightarrow> ('s, unit) prog" where
  "run_ip_checked run arguments namespace = then_do (run_ip run arguments namespace [0]) (ret ())"

definition list_namespaces :: "'s runner \<Rightarrow> ('s, string list) prog" where
  "list_namespaces run =
     bind (run_ip run [''netns'', ''list''] None [0])
       (\<lambda>result. ret (namespaces_of_output (sr_stdout result)))"

definition namespace_exists :: "'s runner \<Rightarrow> string \<Rightarrow> ('s, bool) prog" where
  "namespace_exists run namespace =
     bind (list_namespaces run) (\<lambda>namespaces. ret (namespace \<in> set namespaces))"

definition ensure_namespace :: "'s runner \<Rightarrow> string \<Rightarrow> ('s, unit) prog" where
  "ensure_namespace run namespace =
     bind (namespace_exists run namespace) (\<lambda>present.
       if present then ret () else run_ip_checked run [''netns'', ''add'', namespace] None)"

definition delete_namespace :: "'s runner \<Rightarrow> string \<Rightarrow> ('s, unit) prog" where
  "delete_namespace run namespace =
     bind (namespace_exists run namespace) (\<lambda>present.
       if \<not> present then ret () else run_ip_checked run [''netns'', ''del'', namespace] None)"

definition link_exists :: "'s runner \<Rightarrow> string \<Rightarrow> string \<Rightarrow> ('s, bool) prog" where
  "link_exists run namespace interface =
     bind (run_ip run [''link'', ''show'', ''dev'', interface] (Some namespace) [0, 1])
       (\<lambda>result. ret (sr_returncode result = 0))"

definition veth_argv :: "string \<Rightarrow> string \<Rightarrow> string \<Rightarrow> string \<Rightarrow> string list" where
  "veth_argv namespace_a interface_a namespace_b interface_b =
     [''link'', ''add'', ''name'', interface_a, ''netns'', namespace_a, ''type'', ''veth'',
      ''peer'', ''name'', interface_b, ''netns'', namespace_b]"

text \<open>\<open>and\<close> is short-circuit: the second interface is looked up only when the first exists.\<close>

definition ensure_veth_pair ::
  "'s runner \<Rightarrow> string \<times> string \<Rightarrow> string \<times> string \<Rightarrow> ('s, unit) prog" where
  "ensure_veth_pair run a b =
     bind (link_exists run (fst a) (snd a)) (\<lambda>present_a.
     bind (if present_a then link_exists run (fst b) (snd b) else ret False) (\<lambda>present.
       if present then ret ()
       else run_ip_checked run (veth_argv (fst a) (snd a) (fst b) (snd b)) None))"

definition delete_link :: "'s runner \<Rightarrow> string \<Rightarrow> string \<Rightarrow> ('s, unit) prog" where
  "delete_link run namespace interface =
     bind (link_exists run namespace interface) (\<lambda>present.
       if \<not> present then ret ()
       else run_ip_checked run [''link'', ''del'', ''dev'', interface] (Some namespace))"

definition ensure_bridge :: "'s runner \<Rightarrow> string \<Rightarrow> string \<Rightarrow> ('s, unit) prog" where
  "ensure_bridge run namespace bridge =
     bind (link_exists run namespace bridge) (\<lambda>present.
       if present then ret ()
       else run_ip_checked run [''link'', ''add'', ''name'', bridge, ''type'', ''bridge''] (Some namespace))"

definition replace_address :: "'s runner \<Rightarrow> string \<Rightarrow> string \<Rightarrow> string \<Rightarrow> ('s, unit) prog" where
  "replace_address run namespace interface cidr =
     run_ip_checked run [''address'', ''replace'', cidr, ''dev'', interface] (Some namespace)"

definition replace_route :: "'s runner \<Rightarrow> string \<Rightarrow> string \<Rightarrow> string \<Rightarrow> ('s, unit) prog" where
  "replace_route run namespace dst via =
     run_ip_checked run [''route'', ''replace'', dst, ''via'', via] (Some namespace)"

definition attach_to_bridge :: "'s runner \<Rightarrow> string \<Rightarrow> string \<Rightarrow> string \<Rightarrow> ('s, unit) prog" where
  "attach_to_bridge run namespace interface bridge =
     run_ip_checked run [''link'', ''set'', ''dev'', interface, ''master'', bridge] (Some namespace)"

definition set_link_up :: "'s runner \<Rightarrow> string \<Rightarrow> string \<Rightarrow> ('s, unit) prog" where
  "set_link_up run namespace interface =
     run_ip_checked run [''link'', ''set'', ''dev'', interface, ''up''] (Some namespace)"

section \<open>Waiting\<close>

text \<open>
  \<open>time.monotonic()\<close> and \<open>time.sleep(d)\<close>. Reading the clock may move the world on.

  The loop \<open>while time.monotonic() < deadline\<close> around a body that may return from it, and that
  sleeps at the end of every other round. It reads the clock before each round; whether it ends is up
  to the clock, so the loop is a partial function.
\<close>

record 's clock =
  clk_monotonic :: "'s \<Rightarrow> rat \<times> 's"
  clk_sleep :: "rat \<Rightarrow> 's \<Rightarrow> 's"

partial_function (option) poll_loop ::
  "'s clock \<Rightarrow> ('s, 'a option) prog \<Rightarrow> rat \<Rightarrow> rat \<Rightarrow> ('s, 'a option) prog" where
  "poll_loop clk body deadline interval s =
     (if fst (clk_monotonic clk s) < deadline then
        Option.bind (body (snd (clk_monotonic clk s))) (\<lambda>p.
          case fst p of
            Inl e \<Rightarrow> Some (Inl e, snd p)
          | Inr r \<Rightarrow>
              (case r of
                 Some x \<Rightarrow> Some (Inr (Some x), snd p)
               | None \<Rightarrow> poll_loop clk body deadline interval (clk_sleep clk interval (snd p))))
      else Some (Inr None, snd (clk_monotonic clk s)))"

definition read_clock :: "'s clock \<Rightarrow> ('s, rat) prog" where
  "read_clock clk = step (\<lambda>s. case clk_monotonic clk s of (now, s') \<Rightarrow> (Inr now, s'))"

definition wait_timeout :: "string \<Rightarrow> rat \<Rightarrow> rat \<Rightarrow> exn" where
  "wait_timeout description timeout interval =
     Pktlab (mk_PktlabError TIMEOUT (''timed out waiting for '' @ description)
       (Some [(''description'', PStr description), (''timeout_seconds'', PFloat timeout),
              (''interval_seconds'', PFloat interval)]))"

definition wait_until ::
  "'s clock \<Rightarrow> ('s, bool) prog \<Rightarrow> string \<Rightarrow> rat \<Rightarrow> rat \<Rightarrow> ('s, unit) prog" where
  "wait_until clk predicate description timeout interval =
     (if timeout \<le> 0 then raise (PyValueError ''timeout_seconds must be greater than zero'')
      else if interval \<le> 0 then raise (PyValueError ''interval_seconds must be greater than zero'')
      else
        bind (read_clock clk) (\<lambda>now.
        bind (poll_loop clk (bind predicate (\<lambda>found. ret (if found then Some () else None)))
                (now + timeout) interval) (\<lambda>r.
          case r of
            Some u \<Rightarrow> ret u
          | None \<Rightarrow> raise (wait_timeout description timeout interval))))"

section \<open>Outcomes of the operations\<close>

lemma outcome_executor_run [exec_simps]:
  "outcome (executor_run run argv allowed) Q E s \<longleftrightarrow>
     (case run argv s of
        (Inl e, s') \<Rightarrow> E e s'
      | (Inr c, s') \<Rightarrow>
          (let r = \<lparr>sr_argv = argv, sr_returncode = cpr_returncode c, sr_stdout = cpr_stdout c,
                    sr_stderr = cpr_stderr c\<rparr>
           in if cpr_returncode c \<in> set allowed then Q r s' else E (command_failed r) s'))"
  by (auto simp: executor_run_def exec_simps Let_def split: prod.splits sum.splits)

text \<open>The printed list read back: one name without white space per line, whatever follows it.\<close>

lemma words_from_chars:
  "\<not> list_ex char_isspace w \<Longrightarrow> words_from cur (w @ cs) = words_from (rev w @ cur) cs"
  by (induction w arbitrary: cur) auto

lemma str_words_first:
  assumes "w \<noteq> []" and "\<not> list_ex char_isspace w" and "rest = [] \<or> char_isspace (hd rest)"
  shows "\<exists>ws. str_words (w @ rest) = w # ws"
  using assms words_from_chars [OF assms(2), of "[]" rest]
  by (cases rest) (simp_all add: str_words_def)

lemma linebreak_is_space: "char_islinebreak c \<Longrightarrow> char_isspace c"
  by (auto simp: char_islinebreak_def char_isspace_def Let_def)

lemma splitlines_from_chars:
  "\<not> list_ex char_islinebreak l \<Longrightarrow> splitlines_from cur (l @ cs) = splitlines_from (rev l @ cur) cs"
  by (induction l arbitrary: cur) (auto simp: char_islinebreak_def)

lemma str_splitlines_line:
  assumes "\<not> list_ex char_islinebreak l"
  shows "str_splitlines (l @ [CHR 0x0A] @ rest) = l # str_splitlines rest"
  using splitlines_from_chars [OF assms, of "[]" "[CHR 0x0A] @ rest"]
  by (simp add: str_splitlines_def char_islinebreak_def)

definition netns_name :: "string \<Rightarrow> bool" where
  "netns_name n \<longleftrightarrow> n \<noteq> [] \<and> \<not> list_ex char_isspace n"

text \<open>A listing: a name per line, alone or followed by a space and a note (\<open>(id: 0)\<close>).\<close>

definition netns_line_ok :: "string \<times> string \<Rightarrow> bool" where
  "netns_line_ok l \<longleftrightarrow>
     netns_name (fst l) \<and> (snd l = [] \<or> char_isspace (hd (snd l))) \<and> \<not> list_ex char_islinebreak (snd l)"

definition netns_listing :: "(string \<times> string) list \<Rightarrow> string" where
  "netns_listing ls = concat (map (\<lambda>l. fst l @ snd l @ [CHR 0x0A]) ls)"

lemma namespaces_of_listing:
  "list_all netns_line_ok ls \<Longrightarrow> namespaces_of_output (netns_listing ls) = map fst ls"
proof (induction ls)
  case Nil
  show ?case by (simp add: namespaces_of_output_def netns_listing_def str_splitlines_def map_filter_def)
next
  case (Cons l ls)
  then have n: "fst l \<noteq> []" "\<not> list_ex char_isspace (fst l)" "snd l = [] \<or> char_isspace (hd (snd l))"
    by (simp_all add: netns_line_ok_def netns_name_def)
  have "\<not> list_ex char_islinebreak (fst l @ snd l)"
    using Cons.prems by (auto simp: netns_line_ok_def netns_name_def list_ex_iff dest: linebreak_is_space)
  then have "str_splitlines (netns_listing (l # ls)) = (fst l @ snd l) # str_splitlines (netns_listing ls)"
    using str_splitlines_line [of "fst l @ snd l" "netns_listing ls"] by (simp add: netns_listing_def)
  moreover obtain ws where "str_words (fst l @ snd l) = fst l # ws" using str_words_first [OF n] by blast
  ultimately show ?case using Cons by (simp add: namespaces_of_output_def map_filter_def)
qed

section \<open>A clock that moves on\<close>

text \<open>
  What the documentation of \<open>time\<close> promises: the monotonic clock cannot go backwards, and a sleep
  takes at least the time asked for.
\<close>

locale steady_clock =
  fixes clk :: "'s clock"
    and time :: "'s \<Rightarrow> rat"
  assumes reads_time: "fst (clk_monotonic clk s) = time s"
    and read_keeps: "time s \<le> time (snd (clk_monotonic clk s))"
    and sleep_advances: "time s + d \<le> time (clk_sleep clk d s)"
begin

lemma poll_loop_outcome_bounded:
  assumes "0 < interval" and "deadline - time s \<le> of_nat n * interval" and "I s"
    and "\<And>s. I s \<Longrightarrow> outcome body
      (\<lambda>r s'. case r of None \<Rightarrow> time s \<le> time s' \<and> I s' | Some x \<Rightarrow> Q x s') E s"
    and "\<And>s. I s \<Longrightarrow> I (snd (clk_monotonic clk s))" and "\<And>s. I s \<Longrightarrow> I (clk_sleep clk interval s)"
  shows "outcome (poll_loop clk body deadline interval)
    (\<lambda>r s'. case r of None \<Rightarrow> I s' | Some x \<Rightarrow> Q x s') E s"
  using assms(2,3)
proof (induction n arbitrary: s)
  case 0
  then have "\<not> time s < deadline" by simp
  with 0 assms(5) [OF 0(2)] show ?case
    by (simp add: outcome_def poll_loop.simps [of clk body deadline interval s] reads_time)
next
  case (Suc n)
  let ?s = "snd (clk_monotonic clk s)"
  show ?case
  proof (cases "time s < deadline")
    case False
    with assms(5) [OF Suc.prems(2)] show ?thesis
      by (simp add: outcome_def poll_loop.simps [of clk body deadline interval s] reads_time)
  next
    case True
    have P: "outcome body (\<lambda>r s'. case r of None \<Rightarrow> time ?s \<le> time s' \<and> I s' | Some x \<Rightarrow> Q x s') E ?s"
      by (rule assms(4)) (rule assms(5) [OF Suc.prems(2)])
    obtain r s2 where p: "body ?s = Some (r, s2)"
      using outcome_returns [OF P] by blast
    have again: "outcome (poll_loop clk body deadline interval)
        (\<lambda>r s'. case r of None \<Rightarrow> I s' | Some x \<Rightarrow> Q x s') E (clk_sleep clk interval s2)"
      if "r = Inr None"
    proof (rule Suc.IH)
      from P p that have "time ?s \<le> time s2" "I s2" by (auto simp: outcome_def)
      then show "I (clk_sleep clk interval s2)" by (intro assms(6))
      have "time s + interval \<le> time (clk_sleep clk interval s2)"
        using read_keeps [of s] \<open>time ?s \<le> time s2\<close> sleep_advances [of s2 interval] by linarith
      with Suc.prems(1) show "deadline - time (clk_sleep clk interval s2) \<le> of_nat n * interval"
        by (simp add: algebra_simps)
    qed
    show ?thesis
      using True P p again
      by (auto simp: outcome_def poll_loop.simps [of clk body deadline interval s] reads_time
          split: sum.splits option.splits)
  qed
qed

lemma poll_loop_outcome:
  assumes "0 < interval" and "I s"
    and "\<And>s. I s \<Longrightarrow> outcome body
      (\<lambda>r s'. case r of None \<Rightarrow> time s \<le> time s' \<and> I s' | Some x \<Rightarrow> Q x s') E s"
    and "\<And>s. I s \<Longrightarrow> I (snd (clk_monotonic clk s))" and "\<And>s. I s \<Longrightarrow> I (clk_sleep clk interval s)"
  shows "outcome (poll_loop clk body deadline interval)
    (\<lambda>r s'. case r of None \<Rightarrow> I s' | Some x \<Rightarrow> Q x s') E s"
proof -
  obtain n where "(deadline - time s) / interval \<le> of_nat n" using real_arch_simple by blast
  then have "deadline - time s \<le> of_nat n * interval" using assms(1) by (simp add: pos_divide_le_eq)
  then show ?thesis
    by (rule poll_loop_outcome_bounded [where I = I, OF assms(1) _ assms(2-5)])
qed

lemma wait_until_outcome:
  assumes "0 < timeout" and "0 < interval" and "I s"
    and "\<And>s. I s \<Longrightarrow> outcome predicate (\<lambda>b s'. time s \<le> time s' \<and> I s' \<and> (b \<longrightarrow> Q s')) E s"
    and "\<And>s. I s \<Longrightarrow> I (snd (clk_monotonic clk s))" and "\<And>s. I s \<Longrightarrow> I (clk_sleep clk interval s)"
    and "\<And>s. I s \<Longrightarrow> E (wait_timeout description timeout interval) s"
  shows "outcome (wait_until clk predicate description timeout interval) (\<lambda>_ s'. I s' \<and> Q s') E s"
proof -
  let ?body = "bind predicate (\<lambda>found. ret (if found then Some () else None))"
  have body: "outcome ?body
      (\<lambda>r s'. case r of None \<Rightarrow> time s \<le> time s' \<and> I s' | Some x \<Rightarrow> I s' \<and> Q s') E s" if "I s" for s
    unfolding exec_simps by (rule outcome_mono [OF assms(4) [OF that]]) auto
  have "outcome (poll_loop clk ?body deadline interval)
      (\<lambda>r. outcome (case r of Some u \<Rightarrow> ret u | None \<Rightarrow> raise (wait_timeout description timeout interval))
         (\<lambda>_ s'. I s' \<and> Q s') E) E (snd (clk_monotonic clk s))" for deadline
    by (rule outcome_mono [OF poll_loop_outcome [where I = I, OF assms(2) assms(5) [OF assms(3)] body
            assms(5,6)]])
      (auto simp: exec_simps assms(7) split: option.splits)
  from this [of "fst (clk_monotonic clk s) + timeout"] assms(1,2) show ?thesis
    by (cases "clk_monotonic clk s") (simp add: wait_until_def read_clock_def outcome_bind outcome_step)
qed

end

section \<open>Properties\<close>

text \<open>C37. On a clock that moves on, waiting returns: with the condition established, with an error
  of the predicate, or with the timeout error, whatever the predicate does to the rest of the world.\<close>

theorem wait_until_returns:
  assumes "steady_clock clk time" and "0 < timeout" and "0 < interval"
    and "\<And>s. outcome predicate (\<lambda>found s'. time s \<le> time s' \<and> (found \<longrightarrow> goal s')) (\<lambda>e _. e \<in> errors) s"
  shows "outcome (wait_until clk predicate description timeout interval)
    (\<lambda>_ s'. goal s')
    (\<lambda>e _. e \<in> errors \<or> e = wait_timeout description timeout interval) s"
proof -
  have "outcome (wait_until clk predicate description timeout interval) (\<lambda>_ s'. True \<and> goal s')
      (\<lambda>e _. e \<in> errors \<or> e = wait_timeout description timeout interval) s"
  proof (rule steady_clock.wait_until_outcome [OF assms(1-3), where I = "\<lambda>_. True"], goal_cases)
    case (2 s)
    show ?case by (rule outcome_mono [OF assms(4)]) auto
  qed simp_all
  then show ?thesis by simp
qed

theorem wait_until_returns_witness:
  "outcome (wait_until \<lparr>clk_monotonic = (\<lambda>t. (t, t)), clk_sleep = (\<lambda>d t. t + d)\<rparr>
     (\<lambda>t. Some (Inr (3 \<le> t), t)) ''three'' 5 (1 / 20))
     (\<lambda>_ t. (3 :: rat) \<le> t) (\<lambda>e _. e \<in> {} \<or> e = wait_timeout ''three'' 5 (1 / 20)) 0"
  by (rule wait_until_returns [where time = "\<lambda>t. t"], unfold_locales) (auto simp: outcome_def)

text \<open>The names in a namespace listing, one at the start of each line, are read back as they are,
  whatever notes follow them.\<close>

theorem namespace_listing_round_trip:
  assumes "list_all netns_line_ok ls"
  shows "namespaces_of_output (netns_listing ls) = map fst ls"
  using assms by (rule namespaces_of_listing)

theorem namespace_listing_round_trip_witness:
  "namespaces_of_output (netns_listing [(''tg-src'', '' (id: 0)''), (''dpdk-host'', [])]) =
     [''tg-src'', ''dpdk-host'']"
  using namespace_listing_round_trip [of "[(''tg-src'', '' (id: 0)''), (''dpdk-host'', [])]"]
  by (simp add: netns_line_ok_def netns_name_def char_isspace_def char_islinebreak_def)

end
