(* ===== verification/Ip_Address.thy ===== *)
theory Ip_Address
  imports Prelude "HOL-Library.Word"
begin

unbundle bit_operations_syntax

text \<open>
  The part of Python's \<open>ipaddress\<close> module the topology validation calls: \<open>ip_address\<close>,
  \<open>ip_interface\<close> and \<open>ip_network(..., strict=False)\<close> on strings, equality of IPv4 networks and
  the test \<open>address in network\<close>. Each of the three functions tries the IPv4 class and then the
  IPv6 class; the controller only asks of an IPv6 result that it is one. An IPv4 address is a
  \<open>32 word\<close>.
\<close>

type_synonym ipv4 = "32 word"

section \<open>IPv4 addresses\<close>

definition parse_octet :: "string \<Rightarrow> nat option" where
  "parse_octet s =
     (if s = [] \<or> \<not> str_isdecimal s \<or> 3 < length s \<or> (s \<noteq> ''0'' \<and> hd s = CHR ''0'')
         \<or> 255 < decimal_value s
      then None else Some (decimal_value s))"

definition ipv4_int_from_string :: "string \<Rightarrow> ipv4 option" where
  "ipv4_int_from_string s =
     (if s = [] then None
      else (case map parse_octet (str_split (CHR ''.'') s) of
              [Some a, Some b, Some c, Some d] \<Rightarrow>
                Some (word_of_nat (((a * 256 + b) * 256 + c) * 256 + d))
            | _ \<Rightarrow> None))"

definition ipv4_address :: "string \<Rightarrow> ipv4 option" where
  "ipv4_address s = (if CHR ''/'' \<in> set s then None else ipv4_int_from_string s)"

text \<open>\<open>str(address)\<close>: the four octets, most significant first.\<close>

definition str_of_ipv4 :: "ipv4 \<Rightarrow> string" where
  "str_of_ipv4 w =
     str_join ''.'' (map (\<lambda>k. str_of_nat (unat w div 256 ^ k mod 256)) [3, 2, 1, 0])"

section \<open>Netmasks\<close>

definition prefix_from_prefix_string :: "nat \<Rightarrow> string \<Rightarrow> nat option" where
  "prefix_from_prefix_string max_prefixlen s =
     (if \<not> str_isdecimal s then None
      else (case int_of_digits s of
              None \<Rightarrow> None
            | Some n \<Rightarrow> if n \<le> int max_prefixlen then Some (nat n) else None))"

fun trailing_zeroes :: "nat \<Rightarrow> nat" where
  "trailing_zeroes n = (if n = 0 \<or> odd n then 0 else Suc (trailing_zeroes (n div 2)))"

declare trailing_zeroes.simps [simp del]

definition count_righthand_zero_bits :: "nat \<Rightarrow> nat \<Rightarrow> nat" where
  "count_righthand_zero_bits number bits =
     (if number = 0 then bits else min bits (trailing_zeroes number))"

definition prefix_from_ip_int :: "ipv4 \<Rightarrow> nat option" where
  "prefix_from_ip_int w =
     (let zeroes = count_righthand_zero_bits (unat w) 32; prefixlen = 32 - zeroes
      in if unat w div 2 ^ zeroes \<noteq> 2 ^ prefixlen - 1 then None else Some prefixlen)"

text \<open>A netmask, or else a hostmask, in dotted form.\<close>

definition prefix_from_ip_string :: "string \<Rightarrow> nat option" where
  "prefix_from_ip_string s =
     (case ipv4_int_from_string s of
        None \<Rightarrow> None
      | Some w \<Rightarrow>
          (case prefix_from_ip_int w of
             Some p \<Rightarrow> Some p
           | None \<Rightarrow> prefix_from_ip_int (w XOR (- 1))))"

definition ipv4_make_netmask :: "string option \<Rightarrow> nat option" where
  "ipv4_make_netmask arg =
     (case arg of
        None \<Rightarrow> Some 32
      | Some s \<Rightarrow>
          (case prefix_from_prefix_string 32 s of
             Some p \<Rightarrow> Some p
           | None \<Rightarrow> prefix_from_ip_string s))"

definition ip_int_from_prefix :: "nat \<Rightarrow> ipv4" where
  "ip_int_from_prefix prefixlen = (- 1) XOR drop_bit prefixlen (- 1)"

section \<open>IPv4 networks and interfaces\<close>

definition split_addr_prefix :: "string \<Rightarrow> (string \<times> string option) option" where
  "split_addr_prefix s =
     (case str_split (CHR ''/'') s of
        [addr] \<Rightarrow> Some (addr, None)
      | [addr, msk] \<Rightarrow> Some (addr, Some msk)
      | _ \<Rightarrow> None)"

record ipv4_network =
  network_address :: ipv4
  netmask :: ipv4

record ipv4_interface =
  if_ip :: ipv4
  if_network :: ipv4_network

definition mk_ipv4_network :: "ipv4 \<Rightarrow> nat \<Rightarrow> ipv4_network" where
  "mk_ipv4_network packed prefixlen =
     (let m = ip_int_from_prefix prefixlen
      in \<lparr>network_address = packed AND m, netmask = m\<rparr>)"

definition ipv4_network_parse :: "string \<Rightarrow> ipv4_network option" where
  "ipv4_network_parse s =
     (case split_addr_prefix s of
        None \<Rightarrow> None
      | Some (addr, msk) \<Rightarrow>
          (case (ipv4_address addr, ipv4_make_netmask msk) of
             (Some packed, Some prefixlen) \<Rightarrow> Some (mk_ipv4_network packed prefixlen)
           | _ \<Rightarrow> None))"

definition ipv4_interface_parse :: "string \<Rightarrow> ipv4_interface option" where
  "ipv4_interface_parse s =
     (case split_addr_prefix s of
        None \<Rightarrow> None
      | Some (addr, msk) \<Rightarrow>
          (case (ipv4_address addr, ipv4_make_netmask msk) of
             (Some packed, Some prefixlen) \<Rightarrow>
               Some \<lparr>if_ip = packed, if_network = mk_ipv4_network packed prefixlen\<rparr>
           | _ \<Rightarrow> None))"

definition network_contains :: "ipv4_network \<Rightarrow> ipv4 \<Rightarrow> bool" where
  "network_contains n a \<longleftrightarrow> a AND netmask n = network_address n"

section \<open>IPv6\<close>

definition hex_digits :: string where
  "hex_digits = ''0123456789abcdefABCDEF''"

definition hex_digit_value :: "char \<Rightarrow> nat" where
  "hex_digit_value c =
     (let n = (of_char c :: nat) in if n \<le> 57 then n - 48 else if n \<le> 70 then n - 55 else n - 87)"

definition parse_hextet :: "string \<Rightarrow> nat option" where
  "parse_hextet s =
     (if \<not> list_all (\<lambda>c. c \<in> set hex_digits) s \<or> 4 < length s \<or> s = [] then None
      else Some (foldl (\<lambda>acc c. 16 * acc + hex_digit_value c) 0 s))"

fun hex_of_nat :: "nat \<Rightarrow> string" where
  "hex_of_nat n =
     (if n < 16 then [hex_digits ! n] else hex_of_nat (n div 16) @ [hex_digits ! (n mod 16)])"

declare hex_of_nat.simps [simp del]

text \<open>The inner positions with an empty part: none, one (the place of \<open>::\<close>), or too many.\<close>

definition empty_inner_parts :: "string list \<Rightarrow> nat list" where
  "empty_inner_parts parts = filter (\<lambda>i. parts ! i = []) [1..<length parts - 1]"

definition hextets_value :: "string list \<Rightarrow> nat option" where
  "hextets_value parts =
     (case those (map parse_hextet parts) of
        None \<Rightarrow> None
      | Some vs \<Rightarrow> Some (foldl (\<lambda>acc v. acc * 65536 + v) 0 vs))"

definition ipv6_from_parts :: "string list \<Rightarrow> nat option" where
  "ipv6_from_parts parts =
     (if 9 < length parts then None
      else
        (case empty_inner_parts parts of
           [] \<Rightarrow> if length parts \<noteq> 8 \<or> hd parts = [] \<or> last parts = [] then None
                 else hextets_value parts
         | [skip_index] \<Rightarrow>
             (let lead = (hd parts = []); trail = (last parts = []);
                  parts_hi = (if lead then skip_index - 1 else skip_index);
                  parts_lo = (if trail then length parts - skip_index - 2
                              else length parts - skip_index - 1)
              in if lead \<and> parts_hi \<noteq> 0 \<or> trail \<and> parts_lo \<noteq> 0 \<or> 8 < parts_hi + parts_lo + 1
                 then None
                 else
                   (case (hextets_value (take parts_hi parts),
                          hextets_value (drop (length parts - parts_lo) parts)) of
                      (Some hi, Some lo) \<Rightarrow> Some (hi * 65536 ^ (8 - parts_hi) + lo)
                    | _ \<Rightarrow> None))
         | _ \<Rightarrow> None))"

definition ipv6_int_from_string :: "string \<Rightarrow> nat option" where
  "ipv6_int_from_string s =
     (let parts = str_split (CHR '':'') s in
      if s = [] \<or> length parts < 3 then None
      else if CHR ''.'' \<in> set (last parts) then
        (case ipv4_address (last parts) of
           None \<Rightarrow> None
         | Some w \<Rightarrow>
             ipv6_from_parts
               (butlast parts @ [hex_of_nat (unat w div 65536), hex_of_nat (unat w mod 65536)]))
      else ipv6_from_parts parts)"

definition ipv6_address :: "string \<Rightarrow> nat option" where
  "ipv6_address s =
     (if CHR ''/'' \<in> set s then None
      else
        (case str_partition (CHR ''%'') s of (addr, sep, scope_id) \<Rightarrow>
           if sep \<and> (scope_id = [] \<or> CHR ''%'' \<in> set scope_id) then None
           else ipv6_int_from_string addr))"

definition ipv6_with_prefix_valid :: "string \<Rightarrow> bool" where
  "ipv6_with_prefix_valid s =
     (case split_addr_prefix s of
        None \<Rightarrow> False
      | Some (addr, msk) \<Rightarrow>
          ipv6_address addr \<noteq> None \<and>
          (case msk of None \<Rightarrow> True | Some m \<Rightarrow> prefix_from_prefix_string 128 m \<noteq> None))"

section \<open>The three factory functions\<close>

datatype 'a ip_parse = ParsedV4 'a | ParsedV6 | ParseValueError

definition ip_address :: "string \<Rightarrow> ipv4 ip_parse" where
  "ip_address s =
     (case ipv4_address s of
        Some a \<Rightarrow> ParsedV4 a
      | None \<Rightarrow> if ipv6_address s \<noteq> None then ParsedV6 else ParseValueError)"

definition ip_interface :: "string \<Rightarrow> ipv4_interface ip_parse" where
  "ip_interface s =
     (case ipv4_interface_parse s of
        Some i \<Rightarrow> ParsedV4 i
      | None \<Rightarrow> if ipv6_with_prefix_valid s then ParsedV6 else ParseValueError)"

definition ip_network :: "string \<Rightarrow> ipv4_network ip_parse" where
  "ip_network s =
     (case ipv4_network_parse s of
        Some n \<Rightarrow> ParsedV4 n
      | None \<Rightarrow> if ipv6_with_prefix_valid s then ParsedV6 else ParseValueError)"

lemmas ip_defs [str_simps] =
  parse_octet_def ipv4_int_from_string_def ipv4_address_def prefix_from_prefix_string_def
  ipv4_make_netmask_def split_addr_prefix_def ipv4_network_parse_def ipv4_interface_parse_def
  ip_address_def ip_interface_def ip_network_def

section \<open>Printing and parsing IPv4 addresses\<close>

lemma hd_str_of_nat: "0 < n \<Longrightarrow> hd (str_of_nat n) \<noteq> CHR ''0''"
proof (induction n rule: str_of_nat.induct)
  case (1 n)
  show ?case
  proof (cases "n < 10")
    case True
    with "1.prems" have "n \<in> {1, 2, 3, 4, 5, 6, 7, 8, 9}" by auto
    then show ?thesis by (subst str_of_nat.simps) auto
  next
    case False
    with "1.IH" show ?thesis by (subst str_of_nat.simps) (simp add: hd_append)
  qed
qed

lemma parse_octet_str_of_nat:
  assumes "n < 256"
  shows "parse_octet (str_of_nat n) = Some n"
proof -
  have "str_of_nat n = ''0'' \<or> hd (str_of_nat n) \<noteq> CHR ''0''"
    using hd_str_of_nat [of n] by (cases "n = 0") (auto simp: str_of_nat.simps [of 0])
  with assms length_str_of_nat [of 3 n] show ?thesis by (auto simp: parse_octet_def)
qed

lemma octet_chars: "c \<in> set (str_of_nat n) \<Longrightarrow> c \<noteq> CHR ''.'' \<and> c \<noteq> CHR ''/''"
  using str_of_nat_decimal [of n] by (auto simp: list_all_iff char_isdecimal_def)

lemma octets_value:
  fixes x :: nat
  assumes "x < 2 ^ 32"
  shows "((x div 256 ^ 3 mod 256 * 256 + x div 256 ^ 2 mod 256) * 256 + x div 256 mod 256) * 256
     + x mod 256 = x"
proof -
  have "x div 256 ^ 3 mod 256 = x div 256 ^ 3" using assms by simp
  moreover have "x div 256 ^ 3 * 256 + x div 256 ^ 2 mod 256 = x div 256 ^ 2"
    using div_mult_mod_eq [of "x div 256 ^ 2" 256] by (simp add: div_mult2_eq [symmetric])
  moreover have "x div 256 ^ 2 * 256 + x div 256 mod 256 = x div 256"
    using div_mult_mod_eq [of "x div 256" 256] by (simp add: div_mult2_eq [symmetric])
  ultimately show ?thesis by simp
qed

lemma ipv4_from_octets:
  "s \<noteq> [] \<Longrightarrow> map parse_octet (str_split (CHR ''.'') s) = [Some a, Some b, Some c, Some d] \<Longrightarrow>
     ipv4_int_from_string s = Some (word_of_nat (((a * 256 + b) * 256 + c) * 256 + d))"
  by (simp add: ipv4_int_from_string_def)

lemma ipv4_int_from_string_str: "ipv4_int_from_string (str_of_ipv4 w) = Some w"
proof -
  let ?o = "\<lambda>k. unat w div 256 ^ k mod 256"
  have split: "str_split (CHR ''.'') (str_of_ipv4 w) = map (\<lambda>k. str_of_nat (?o k)) [3, 2, 1, 0]"
    unfolding str_of_ipv4_def by (rule str_split_join) (auto dest: octet_chars)
  have "str_of_ipv4 w \<noteq> []" by (simp add: str_of_ipv4_def)
  moreover have "map parse_octet (str_split (CHR ''.'') (str_of_ipv4 w)) =
      [Some (?o 3), Some (?o 2), Some (?o 1), Some (?o 0)]"
    unfolding split by (simp add: parse_octet_str_of_nat)
  ultimately have "ipv4_int_from_string (str_of_ipv4 w) =
      Some (word_of_nat (((?o 3 * 256 + ?o 2) * 256 + ?o 1) * 256 + ?o 0))"
    by (rule ipv4_from_octets)
  also have "unat w < 2 ^ 32" using unsigned_less [of w, where 'a = nat] by simp
  then have "((?o 3 * 256 + ?o 2) * 256 + ?o 1) * 256 + ?o 0 = unat w"
    using octets_value [of "unat w"] by simp
  finally show ?thesis by simp
qed

lemma slash_not_in_ipv4: "CHR ''/'' \<notin> set (str_of_ipv4 w)"
  by (auto simp: str_of_ipv4_def dest: octet_chars)

lemma ipv4_address_str [simp]: "ipv4_address (str_of_ipv4 w) = Some w"
  by (simp add: ipv4_address_def slash_not_in_ipv4 ipv4_int_from_string_str)

lemma ip_address_str [simp]: "ip_address (str_of_ipv4 w) = ParsedV4 w"
  by (simp add: ip_address_def)

lemma ip_interface_str:
  assumes "p \<le> 32"
  shows "ip_interface (str_of_ipv4 w @ ''/'' @ str_of_nat p) =
     ParsedV4 \<lparr>if_ip = w, if_network = mk_ipv4_network w p\<rparr>"
proof -
  have "CHR ''/'' \<notin> set (str_of_nat p)" using octet_chars by blast
  then have "split_addr_prefix (str_of_ipv4 w @ ''/'' @ str_of_nat p) =
      Some (str_of_ipv4 w, Some (str_of_nat p))"
    by (simp add: split_addr_prefix_def str_split_append str_split_no_sep slash_not_in_ipv4)
  moreover have "int_of_digits (str_of_nat p) = Some (int p)"
    using assms by (intro int_of_digits_str_of_nat small_below_digit_limit) simp
  ultimately show ?thesis
    using assms by (simp add: ip_interface_def ipv4_interface_parse_def ipv4_make_netmask_def
        prefix_from_prefix_string_def)
qed

section \<open>Membership in a network\<close>

lemma ip_int_from_prefix_eq:
  assumes "p \<le> 32"
  shows "ip_int_from_prefix p = NOT (Bit_Operations.mask (32 - p))"
  using assms by (intro bit_word_eqI) (auto simp: ip_int_from_prefix_def bit_simps)

text \<open>An address is in the network of another exactly when their first bits agree.\<close>

lemma network_contains_iff:
  assumes "p \<le> 32"
  shows "network_contains (mk_ipv4_network a p) b \<longleftrightarrow> drop_bit (32 - p) b = drop_bit (32 - p) a"
proof
  assume "network_contains (mk_ipv4_network a p) b"
  then have eq: "b AND NOT (Bit_Operations.mask (32 - p)) = a AND NOT (Bit_Operations.mask (32 - p))"
    using assms by (simp add: network_contains_def mk_ipv4_network_def ip_int_from_prefix_eq Let_def)
  show "drop_bit (32 - p) b = drop_bit (32 - p) a"
  proof (rule bit_word_eqI)
    fix n assume "n < LENGTH(32)"
    show "bit (drop_bit (32 - p) b) n = bit (drop_bit (32 - p) a) n"
      using arg_cong [OF eq, of "\<lambda>w. bit w (32 - p + n)"]
      by (auto simp: bit_simps dest: bit_imp_le_length)
  qed
next
  assume eq: "drop_bit (32 - p) b = drop_bit (32 - p) a"
  have "b AND NOT (Bit_Operations.mask (32 - p)) = a AND NOT (Bit_Operations.mask (32 - p))"
  proof (rule bit_word_eqI)
    fix n assume "n < LENGTH(32)"
    show "bit (b AND NOT (Bit_Operations.mask (32 - p))) n =
        bit (a AND NOT (Bit_Operations.mask (32 - p))) n"
      using arg_cong [OF eq, of "\<lambda>w. bit w (n - (32 - p))"]
      by (auto simp: bit_simps dest: bit_imp_le_length)
  qed
  then show "network_contains (mk_ipv4_network a p) b"
    using assms by (simp add: network_contains_def mk_ipv4_network_def ip_int_from_prefix_eq Let_def)
qed

lemma ip_interface_own_network:
  "ip_interface s = ParsedV4 i \<Longrightarrow> network_contains (if_network i) (if_ip i)"
  by (auto simp: ip_interface_def ipv4_interface_parse_def network_contains_def mk_ipv4_network_def
      Let_def split: option.splits if_splits)

end
