(* ===== verification/Topology_Validation.thy ===== *)
theory Topology_Validation
  imports Runtime_Policy Ip_Address
begin

text \<open>
  The semantic validation of a topology and of a ruleset
  (\<open>ctrld/pktlab_ctrld/config/validation.py\<close>). The passes run in the order of the code; the
  dictionaries they share (interfaces by namespace, connected networks by namespace) are passed
  along explicitly. An issue list grows by appending only, so a pass returns what it appends.
\<close>

definition INGRESS_BRIDGE_KERNEL_INTERFACE :: string where
  "INGRESS_BRIDGE_KERNEL_INTERFACE = ''veth-in-k''"

definition EGRESS_BRIDGE_KERNEL_INTERFACE :: string where
  "EGRESS_BRIDGE_KERNEL_INTERFACE = ''veth-out-k''"

section \<open>Names and references\<close>

definition at_index :: "string \<Rightarrow> nat \<Rightarrow> string" where
  "at_index prefix index = prefix @ ''['' @ str_of_nat index @ '']''"

definition duplicate_name_issue ::
  "string \<Rightarrow> nat \<Rightarrow> string \<Rightarrow> nat \<Rightarrow> ValidationIssue list" where
  "duplicate_name_issue path_prefix index name first_index =
     [issue (at_index path_prefix index @ ''.name'') ''duplicate_name''
       (path_prefix @ '' name '' @ quoted name @ '' duplicates the entry at index ''
         @ str_of_nat first_index)]"

definition collect_duplicate_names ::
  "string \<Rightarrow> string list \<Rightarrow> ValidationIssue list \<times> string set" where
  "collect_duplicate_names path_prefix names =
     (first_seen_loop (duplicate_name_issue path_prefix) (\<lambda>_ _. []) (\<lambda>n. n) Map.empty 0 names,
      set names)"

definition parse_interface_ref ::
  "string \<Rightarrow> string \<Rightarrow> ValidationIssue list \<times> (string \<times> string) option" where
  "parse_interface_ref path value =
     (case str_partition (CHR '':'') value of (namespace_name, separator, interface_name) \<Rightarrow>
        if \<not> separator \<or> namespace_name = [] \<or> interface_name = [] then
          ([issue path ''invalid_interface_ref''
             (''interface references must use the '' @ quoted ''<namespace>:<interface>''
               @ '' form'')], None)
        else ([], Some (namespace_name, interface_name)))"

definition unknown_namespace_message :: "string \<Rightarrow> string" where
  "unknown_namespace_message namespace =
     ''namespace '' @ quoted namespace @ '' is not declared in namespaces''"

section \<open>Addresses\<close>

definition family_issue :: "string \<Rightarrow> string \<Rightarrow> ValidationIssue" where
  "family_issue path what =
     issue path ''invalid_address_family'' (''only IPv4 '' @ what @ '' are supported in the MVP'')"

definition parse_interface_address ::
  "string \<Rightarrow> string option \<Rightarrow> ValidationIssue list \<times> ipv4_interface option" where
  "parse_interface_address path value =
     (case value of
        None \<Rightarrow> ([], None)
      | Some v \<Rightarrow>
          (case ip_interface v of
             ParseValueError \<Rightarrow>
               ([issue path ''invalid_ipv4_interface''
                  (quoted v @ '' is not a valid IPv4 interface with prefix length'')], None)
           | ParsedV6 \<Rightarrow> ([family_issue path ''addresses''], None)
           | ParsedV4 i \<Rightarrow> ([], Some i)))"

definition missing_value_issue :: "string \<Rightarrow> string \<Rightarrow> ValidationIssue" where
  "missing_value_issue path label = issue path ''missing_value'' (label @ '' is required'')"

definition parse_address ::
  "string \<Rightarrow> bool \<Rightarrow> string option \<Rightarrow> ValidationIssue list \<times> ipv4 option" where
  "parse_address path optional value =
     (case value of
        None \<Rightarrow> (if optional then [] else [missing_value_issue path ''IPv4 address''], None)
      | Some v \<Rightarrow>
          (case ip_address v of
             ParseValueError \<Rightarrow>
               ([issue path ''invalid_ipv4_address'' (quoted v @ '' is not a valid IPv4 address'')],
                None)
           | ParsedV6 \<Rightarrow> ([family_issue path ''addresses''], None)
           | ParsedV4 a \<Rightarrow> ([], Some a)))"

definition parse_network ::
  "string \<Rightarrow> bool \<Rightarrow> string option \<Rightarrow> ValidationIssue list \<times> ipv4_network option" where
  "parse_network path optional value =
     (case value of
        None \<Rightarrow>
          (if optional then [] else [missing_value_issue path ''IPv4 network with prefix''], None)
      | Some v \<Rightarrow>
          (case ip_network v of
             ParseValueError \<Rightarrow>
               ([issue path ''invalid_ipv4_network''
                  (quoted v @ '' is not a valid IPv4 network with prefix length'')], None)
           | ParsedV6 \<Rightarrow> ([family_issue path ''networks''], None)
           | ParsedV4 n \<Rightarrow> ([], Some n)))"

section \<open>Links\<close>

type_synonym iface_table = "string \<rightharpoonup> string set"
type_synonym network_table = "string \<Rightarrow> ipv4_network list"

text \<open>\<open>interface_names_by_namespace[ns].add(name)\<close>; the callers have checked that the namespace
  is declared, and the table has an entry for every declared namespace.\<close>

definition iface_add :: "string \<Rightarrow> string \<Rightarrow> iface_table \<Rightarrow> iface_table" where
  "iface_add ns name table =
     (case table ns of None \<Rightarrow> table | Some names \<Rightarrow> table(ns \<mapsto> insert name names))"

definition ifaces_of :: "iface_table \<Rightarrow> string \<Rightarrow> string set" where
  "ifaces_of table ns = (case table ns of None \<Rightarrow> {} | Some names \<Rightarrow> names)"

definition link_endpoint ::
  "string set \<Rightarrow> nat \<Rightarrow> string \<Rightarrow> (string \<times> string) option \<Rightarrow>
   (string \<times> string \<rightharpoonup> nat) \<Rightarrow> iface_table \<Rightarrow>
   ValidationIssue list \<times> (string \<times> string \<rightharpoonup> nat) \<times> iface_table" where
  "link_endpoint namespace_names index path ref seen ifaces =
     (case ref of
        None \<Rightarrow> ([], seen, ifaces)
      | Some (namespace_name, interface_name) \<Rightarrow>
          if namespace_name \<notin> namespace_names then
            ([issue path ''unknown_namespace'' (unknown_namespace_message namespace_name)],
             seen, ifaces)
          else
            (let key = (namespace_name, interface_name);
                 previous_index = (case seen key of None \<Rightarrow> index | Some i \<Rightarrow> i);
                 seen' = (case seen key of None \<Rightarrow> seen(key \<mapsto> index) | Some _ \<Rightarrow> seen)
             in (if previous_index \<noteq> index then
                   [issue path ''interface_reused''
                     (''interface '' @ quoted (namespace_name @ '':'' @ interface_name)
                       @ '' is already used by '' @ at_index ''links'' previous_index)]
                 else [],
                 seen', iface_add namespace_name interface_name ifaces)))"

definition network_add ::
  "string set \<Rightarrow> (string \<times> string) option \<Rightarrow> ipv4_network \<Rightarrow> network_table \<Rightarrow> network_table" where
  "network_add namespace_names ref net table =
     (case ref of
        None \<Rightarrow> table
      | Some (ns, _) \<Rightarrow> if ns \<in> namespace_names then table(ns := table ns @ [net]) else table)"

definition link_addressing ::
  "string set \<Rightarrow> nat \<Rightarrow> LinkModel \<Rightarrow> (string \<times> string) option \<Rightarrow> (string \<times> string) option \<Rightarrow>
   network_table \<Rightarrow> ValidationIssue list \<times> network_table" where
  "link_addressing namespace_names index link a_ref b_ref networks =
     (let path = at_index ''links'' index in
      if (lk_ip_a link = None) \<noteq> (lk_ip_b link = None) then
        ([issue path ''incomplete_link_addressing''
           ''ip_a and ip_b must either both be provided or both be omitted''], networks)
      else if lk_ip_a link = None \<or> lk_ip_b link = None then ([], networks)
      else
        (case (parse_interface_address (path @ ''.ip_a'') (lk_ip_a link),
               parse_interface_address (path @ ''.ip_b'') (lk_ip_b link)) of
           ((issues_a, Some ip_a), (issues_b, Some ip_b)) \<Rightarrow>
             if if_network ip_a \<noteq> if_network ip_b then
               (issues_a @ issues_b @
                  [issue path ''mismatched_subnets''
                    ''link endpoint addresses must belong to the same IPv4 network''], networks)
             else
               (issues_a @ issues_b,
                network_add namespace_names b_ref (if_network ip_b)
                  (network_add namespace_names a_ref (if_network ip_a) networks))
         | ((issues_a, _), (issues_b, _)) \<Rightarrow> (issues_a @ issues_b, networks)))"

definition link_step ::
  "string set \<Rightarrow> nat \<Rightarrow> LinkModel \<Rightarrow>
   (string \<times> string \<rightharpoonup> nat) \<times> iface_table \<times> network_table \<Rightarrow>
   ValidationIssue list \<times> (string \<times> string \<rightharpoonup> nat) \<times> iface_table \<times> network_table" where
  "link_step namespace_names index link state =
     (case state of (seen, ifaces, networks) \<Rightarrow>
      let path_a = at_index ''links'' index @ ''.a''; path_b = at_index ''links'' index @ ''.b'';
          (issues_a, a_ref) = parse_interface_ref path_a (lk_a link);
          (issues_b, b_ref) = parse_interface_ref path_b (lk_b link);
          self_issues =
            (if a_ref \<noteq> None \<and> b_ref \<noteq> None \<and> a_ref = b_ref then
               [issue (at_index ''links'' index) ''self_link''
                 ''link endpoints must refer to two different interfaces''] else []);
          (end_a, seen_a, ifaces_a) = link_endpoint namespace_names index path_a a_ref seen ifaces;
          (end_b, seen_b, ifaces_b) =
            link_endpoint namespace_names index path_b b_ref seen_a ifaces_a;
          (addressing, networks') =
            link_addressing namespace_names index link a_ref b_ref networks
      in (issues_a @ issues_b @ self_issues @ end_a @ end_b @ addressing,
          seen_b, ifaces_b, networks'))"

fun link_loop ::
  "string set \<Rightarrow> nat \<Rightarrow> LinkModel list \<Rightarrow>
   (string \<times> string \<rightharpoonup> nat) \<times> iface_table \<times> network_table \<Rightarrow>
   ValidationIssue list \<times> iface_table \<times> network_table" where
  "link_loop namespace_names index [] (seen, ifaces, networks) = ([], ifaces, networks)"
| "link_loop namespace_names index (link # links) state =
     (case link_step namespace_names index link state of (issues, state') \<Rightarrow>
        (case link_loop namespace_names (Suc index) links state' of (issues', tables) \<Rightarrow>
           (issues @ issues', tables)))"

definition collect_link_issues ::
  "LinkModel list \<Rightarrow> string set \<Rightarrow> iface_table \<Rightarrow> network_table \<Rightarrow>
   ValidationIssue list \<times> iface_table \<times> network_table" where
  "collect_link_issues links namespace_names ifaces networks =
     (case link_loop namespace_names 0 links (Map.empty, ifaces, networks) of (issues, tables) \<Rightarrow>
        (fst (collect_duplicate_names ''links'' (map lk_name links)) @ issues, tables))"

section \<open>Datapath ports\<close>

text \<open>The loop over the two roles stops at the first one that does not occur exactly once.\<close>

definition port_role_issues :: "DpdkPortModel list \<Rightarrow> ValidationIssue list" where
  "port_role_issues ports =
     (if count_list (map dp_role ports) Role_ingress \<noteq> 1
         \<or> count_list (map dp_role ports) Role_egress \<noteq> 1 then
        [issue ''dpdk_ports'' ''invalid_port_roles''
          ''dpdk_ports must declare exactly one ingress port and one egress port for the MVP'']
      else [])"

definition port_step ::
  "string set \<Rightarrow> string \<Rightarrow> nat \<Rightarrow> DpdkPortModel \<Rightarrow> iface_table \<Rightarrow>
   ValidationIssue list \<times> iface_table" where
  "port_step namespace_names dpdk_namespace index port ifaces =
     (let path = at_index ''dpdk_ports'' index in
      if dp_namespace port \<notin> namespace_names then
        ([issue (path @ ''.namespace'') ''unknown_namespace''
           (unknown_namespace_message (dp_namespace port))], ifaces)
      else
        (let mismatch =
           (if dp_namespace port \<noteq> dpdk_namespace then
              [issue (path @ ''.namespace'') ''port_namespace_mismatch''
                (''dpdk port '' @ quoted (dp_name port) @ '' must live in the datapath namespace ''
                  @ quoted dpdk_namespace @ '', not '' @ quoted (dp_namespace port))]
            else [])
         in if dp_name port \<in> ifaces_of ifaces (dp_namespace port) then
              (mismatch @
                 [issue (path @ ''.name'') ''interface_name_conflict''
                   (''interface name '' @ quoted (dp_name port) @ '' is already used in namespace ''
                     @ quoted (dp_namespace port))], ifaces)
            else (mismatch, iface_add (dp_namespace port) (dp_name port) ifaces)))"

fun port_loop ::
  "string set \<Rightarrow> string \<Rightarrow> nat \<Rightarrow> DpdkPortModel list \<Rightarrow> iface_table \<Rightarrow>
   ValidationIssue list \<times> iface_table" where
  "port_loop namespace_names dpdk_namespace index [] ifaces = ([], ifaces)"
| "port_loop namespace_names dpdk_namespace index (port # ports) ifaces =
     (case port_step namespace_names dpdk_namespace index port ifaces of (issues, ifaces') \<Rightarrow>
        (case port_loop namespace_names dpdk_namespace (Suc index) ports ifaces' of
           (issues', ifaces'') \<Rightarrow> (issues @ issues', ifaces'')))"

definition collect_dpdk_port_issues ::
  "DpdkPortModel list \<Rightarrow> string set \<Rightarrow> string \<Rightarrow> iface_table \<Rightarrow>
   ValidationIssue list \<times> string set \<times> iface_table" where
  "collect_dpdk_port_issues ports namespace_names dpdk_namespace ifaces =
     (case collect_duplicate_names ''dpdk_ports'' (map dp_name ports) of (duplicates, port_names) \<Rightarrow>
        (case port_loop namespace_names dpdk_namespace 0 ports ifaces of (issues, ifaces') \<Rightarrow>
           (duplicates @ port_role_issues ports @ issues, port_names, ifaces')))"

section \<open>Routes, capture points and bridge-side interfaces\<close>

definition route_step ::
  "string set \<Rightarrow> network_table \<Rightarrow> nat \<Rightarrow> RouteModel \<Rightarrow> ValidationIssue list" where
  "route_step namespace_names networks index route =
     (let path = at_index ''routes'' index in
      if rt_namespace route \<notin> namespace_names then
        [issue (path @ ''.namespace'') ''unknown_namespace''
          (unknown_namespace_message (rt_namespace route))]
      else
        (case (parse_network (path @ ''.dst'') False (Some (rt_dst route)),
               parse_address (path @ ''.via'') False (Some (rt_via route))) of
           ((dst_issues, _), (via_issues, None)) \<Rightarrow> dst_issues @ via_issues
         | ((dst_issues, _), (via_issues, Some via)) \<Rightarrow>
             dst_issues @ via_issues @
             (if networks (rt_namespace route) = [] then
                [issue path ''unreachable_gateway''
                  (''namespace '' @ quoted (rt_namespace route)
                    @ '' has no directly addressed links that can reach route via ''
                    @ rt_via route)]
              else if \<not> list_ex (\<lambda>net. network_contains net via) (networks (rt_namespace route)) then
                [issue (path @ ''.via'') ''unreachable_gateway''
                  (''gateway '' @ quoted (rt_via route)
                    @ '' is not reachable from any addressed link in namespace ''
                    @ quoted (rt_namespace route))]
              else [])))"

definition collect_route_issues ::
  "RouteModel list \<Rightarrow> string set \<Rightarrow> network_table \<Rightarrow> ValidationIssue list" where
  "collect_route_issues routes namespace_names networks =
     enum_collect (route_step namespace_names networks) routes"

definition capture_step ::
  "string set \<Rightarrow> iface_table \<Rightarrow> nat \<Rightarrow> CapturePointModel \<Rightarrow> ValidationIssue list" where
  "capture_step namespace_names ifaces index capture_point =
     (let path = at_index ''capture_points'' index in
      if cp_namespace capture_point \<notin> namespace_names then
        [issue (path @ ''.namespace'') ''unknown_namespace''
          (unknown_namespace_message (cp_namespace capture_point))]
      else if cp_interface capture_point \<notin> ifaces_of ifaces (cp_namespace capture_point) then
        [issue (path @ ''.interface'') ''unknown_interface''
          (''interface '' @ quoted (cp_interface capture_point) @ '' is not declared in namespace ''
            @ quoted (cp_namespace capture_point) @ '' through links or dpdk_ports'')]
      else [])"

definition collect_capture_point_issues ::
  "CapturePointModel list \<Rightarrow> string set \<Rightarrow> iface_table \<Rightarrow> ValidationIssue list" where
  "collect_capture_point_issues capture_points namespace_names ifaces =
     fst (collect_duplicate_names ''capture_points'' (map cp_name capture_points))
     @ enum_collect (capture_step namespace_names ifaces) capture_points"

definition bridge_side_issue :: "string \<Rightarrow> string \<Rightarrow> ValidationIssue" where
  "bridge_side_issue dpdk_namespace interface_name =
     issue ''links'' ''missing_bridge_side_interface''
       (''dpdk namespace '' @ quoted dpdk_namespace @ '' must define bridge-side interface ''
         @ quoted interface_name @ '' through the topology links'')"

definition collect_bridge_side_interface_issues ::
  "string \<Rightarrow> iface_table \<Rightarrow> ValidationIssue list" where
  "collect_bridge_side_interface_issues dpdk_namespace ifaces =
     map (bridge_side_issue dpdk_namespace)
       (filter (\<lambda>name. name \<notin> ifaces_of ifaces dpdk_namespace)
          [INGRESS_BRIDGE_KERNEL_INTERFACE, EGRESS_BRIDGE_KERNEL_INTERFACE])"

section \<open>Rulesets\<close>

definition path_with_prefix :: "string option \<Rightarrow> string \<Rightarrow> string" where
  "path_with_prefix path_prefix suffix =
     (case path_prefix of
        None \<Rightarrow> suffix
      | Some prefix \<Rightarrow> if prefix = [] then suffix else prefix @ ''.'' @ suffix)"

definition validate_rule_match :: "string \<Rightarrow> RuleMatchModel \<Rightarrow> ValidationIssue list" where
  "validate_rule_match path_prefix m =
     (let path = path_prefix @ ''.match'' in
        (if rm_src_ip m \<noteq> None \<and> rm_src_cidr m \<noteq> None then
           [issue path ''conflicting_source_match''
             ''src_ip and src_cidr cannot both be set on the same rule''] else [])
      @ (if rm_dst_ip m \<noteq> None \<and> rm_dst_cidr m \<noteq> None then
           [issue path ''conflicting_destination_match''
             ''dst_ip and dst_cidr cannot both be set on the same rule''] else [])
      @ fst (parse_address (path @ ''.src_ip'') True (rm_src_ip m))
      @ fst (parse_address (path @ ''.dst_ip'') True (rm_dst_ip m))
      @ fst (parse_network (path @ ''.src_cidr'') True (rm_src_cidr m))
      @ fst (parse_network (path @ ''.dst_cidr'') True (rm_dst_cidr m))
      @ (if rm_proto m = Some Proto_icmp \<and> (rm_src_port m \<noteq> None \<or> rm_dst_port m \<noteq> None) then
           [issue path ''icmp_port_match''
             ''icmp rules cannot constrain src_port or dst_port''] else []))"

definition validate_rule_action ::
  "string set option \<Rightarrow> string \<Rightarrow> RuleActionModel \<Rightarrow> ValidationIssue list" where
  "validate_rule_action allowed_port_names path action =
     (case (ra_port action, allowed_port_names) of
        (Some port_name, Some allowed) \<Rightarrow>
          if port_name \<notin> allowed then
            [issue (path @ ''.port'') ''unknown_port''
              (''port '' @ quoted port_name @ '' is not declared in dpdk_ports'')]
          else []
      | _ \<Rightarrow> [])"

definition rule_entry_path :: "string option \<Rightarrow> nat \<Rightarrow> string" where
  "rule_entry_path path_prefix index = path_with_prefix path_prefix (at_index ''entries'' index)"

definition rule_step ::
  "string option \<Rightarrow> string set option \<Rightarrow> nat \<Rightarrow> RuleModel \<Rightarrow> ValidationIssue list" where
  "rule_step path_prefix allowed_port_names index rule =
     validate_rule_match (rule_entry_path path_prefix index) (ru_match rule)
     @ validate_rule_action allowed_port_names (rule_entry_path path_prefix index @ ''.action'')
         (ru_action rule)"

definition duplicate_rule_issue ::
  "string option \<Rightarrow> nat \<Rightarrow> RuleModel \<Rightarrow> nat \<Rightarrow> ValidationIssue list" where
  "duplicate_rule_issue path_prefix index rule first_index =
     [issue (rule_entry_path path_prefix index @ ''.id'') ''duplicate_rule_id''
       (''rule id '' @ str_of_int (ru_id rule) @ '' duplicates the entry at index ''
         @ str_of_nat first_index)]"

definition collect_ruleset_issues ::
  "string option \<Rightarrow> string set option \<Rightarrow> RulesetModel \<Rightarrow> ValidationIssue list" where
  "collect_ruleset_issues path_prefix allowed_port_names ruleset =
     validate_rule_action allowed_port_names (path_with_prefix path_prefix ''default_action'')
       (rs_default_action ruleset)
     @ first_seen_loop (duplicate_rule_issue path_prefix)
         (rule_step path_prefix allowed_port_names) ru_id Map.empty 0 (rs_entries ruleset)"

section \<open>The two entry points\<close>

record ValidatedRuleset =
  vr_ruleset :: RulesetModel
  vr_allowed_port_names :: "string set"

record ValidatedTopologyConfig =
  vt_topology :: TopologyConfigModel
  vt_requested_dpdk_config :: DpdkProcessConfigModel
  vt_effective_dpdk_config :: EffectiveDpdkRuntimeModel
  vt_namespace_names :: "string set"
  vt_dpdk_port_names :: "string set"
  vt_namespace_interfaces :: "string \<rightharpoonup> string list"

definition empty_interfaces :: "string set \<Rightarrow> iface_table" where
  "empty_interfaces namespace_names = (\<lambda>ns. if ns \<in> namespace_names then Some {} else None)"

definition dpdk_namespace_issues :: "string \<Rightarrow> string set \<Rightarrow> ValidationIssue list" where
  "dpdk_namespace_issues dpdk_namespace namespace_names =
     (if dpdk_namespace \<notin> namespace_names then
        [issue ''processes.dpdkd.namespace'' ''unknown_namespace''
          (''dpdkd namespace '' @ quoted dpdk_namespace @ '' is not declared in namespaces'')]
      else [])"

definition topology_issues ::
  "TopologyConfigModel \<Rightarrow> ValidationIssue list \<times> string set \<times> string set \<times> iface_table" where
  "topology_issues config =
     (let (duplicates, namespace_names) =
            collect_duplicate_names ''namespaces'' (map ns_name (tc_namespaces config));
          dpdk_namespace = dc_namespace (pr_dpdkd (tc_processes config));
          (link_issues, link_ifaces, networks) =
            collect_link_issues (tc_links config) namespace_names
              (empty_interfaces namespace_names) (\<lambda>_. []);
          (port_issues, port_names, ifaces) =
            collect_dpdk_port_issues (tc_dpdk_ports config) namespace_names dpdk_namespace link_ifaces
      in (duplicates @ dpdk_namespace_issues dpdk_namespace namespace_names @ link_issues @ port_issues
          @ collect_route_issues (tc_routes config) namespace_names networks
          @ collect_capture_point_issues (tc_capture_points config) namespace_names ifaces
          @ collect_bridge_side_interface_issues dpdk_namespace ifaces
          @ collect_ruleset_issues (Some ''rules'') (Some port_names) (tc_rules config),
          namespace_names, port_names, ifaces))"

definition validate_topology_config ::
  "TopologyConfigModel \<Rightarrow> exn + ValidatedTopologyConfig" where
  "validate_topology_config config =
     (case topology_issues config of (issues, namespace_names, port_names, ifaces) \<Rightarrow>
        (case derive_effective_with_issues ''processes.dpdkd'' (int (length (tc_dpdk_ports config)))
                (pr_dpdkd (tc_processes config)) of
           Inl e \<Rightarrow> Inl e
         | Inr (runtime_issues, effective) \<Rightarrow>
             if issues @ runtime_issues \<noteq> [] then
               Inl (validation_failure ''topology config failed semantic validation''
                      TOPOLOGY_VALIDATION_ERROR (issues @ runtime_issues))
             else
               Inr \<lparr>vt_topology = config,
                    vt_requested_dpdk_config = pr_dpdkd (tc_processes config),
                    vt_effective_dpdk_config = effective,
                    vt_namespace_names = namespace_names,
                    vt_dpdk_port_names = port_names,
                    vt_namespace_interfaces = (\<lambda>ns. map_option sorted_list_of_set (ifaces ns))\<rparr>))"

definition validate_ruleset ::
  "RulesetModel \<Rightarrow> string set option \<Rightarrow> exn + ValidatedRuleset" where
  "validate_ruleset ruleset allowed_port_names =
     (case collect_ruleset_issues None allowed_port_names ruleset of
        [] \<Rightarrow> Inr \<lparr>vr_ruleset = ruleset,
                  vr_allowed_port_names =
                    (case allowed_port_names of None \<Rightarrow> {} | Some names \<Rightarrow> names)\<rparr>
      | issues \<Rightarrow> Inl (validation_failure ''rules config failed semantic validation''
                        RULE_VALIDATION_ERROR issues))"

section \<open>What a valid topology is\<close>

text \<open>
  The reference reading of a topology: the endpoints its links name, the networks those links
  connect, and a condition per part that mentions no issue, index or table.
\<close>

definition is_interface_ref :: "string \<times> string \<Rightarrow> string \<Rightarrow> bool" where
  "is_interface_ref r s \<longleftrightarrow>
     s = fst r @ '':'' @ snd r \<and> CHR '':'' \<notin> set (fst r) \<and> fst r \<noteq> [] \<and> snd r \<noteq> []"

definition interface_ref :: "string \<Rightarrow> (string \<times> string) option" where
  "interface_ref s = snd (parse_interface_ref [] s)"

definition link_ends :: "LinkModel \<Rightarrow> (string \<times> string) list" where
  "link_ends l = List.map_filter interface_ref [lk_a l, lk_b l]"

definition link_addresses_ok :: "LinkModel \<Rightarrow> bool" where
  "link_addresses_ok l \<longleftrightarrow>
     (case (lk_ip_a l, lk_ip_b l) of
        (None, None) \<Rightarrow> True
      | (Some a, Some b) \<Rightarrow>
          (case (ip_interface a, ip_interface b) of
             (ParsedV4 i, ParsedV4 j) \<Rightarrow> if_network i = if_network j
           | _ \<Rightarrow> False)
      | _ \<Rightarrow> False)"

definition link_network :: "LinkModel \<Rightarrow> ipv4_network option" where
  "link_network l =
     (case lk_ip_a l of
        None \<Rightarrow> None
      | Some a \<Rightarrow> (case ip_interface a of ParsedV4 i \<Rightarrow> Some (if_network i) | _ \<Rightarrow> None))"

definition links_ok :: "string set \<Rightarrow> LinkModel list \<Rightarrow> bool" where
  "links_ok namespaces links \<longleftrightarrow>
     distinct (map lk_name links) \<and>
     list_all (\<lambda>l. interface_ref (lk_a l) \<noteq> None \<and> interface_ref (lk_b l) \<noteq> None) links \<and>
     list_all (\<lambda>(ns, _). ns \<in> namespaces) (concat (map link_ends links)) \<and>
     distinct (concat (map link_ends links)) \<and> list_all link_addresses_ok links"

text \<open>The networks a namespace is connected to: those of the addressed links that end in it.\<close>

definition link_connects :: "string \<Rightarrow> LinkModel \<Rightarrow> ipv4_network list" where
  "link_connects ns l =
     (case link_network l of
        None \<Rightarrow> []
      | Some net \<Rightarrow> map (\<lambda>_. net) (filter (\<lambda>r. fst r = ns) (link_ends l)))"

definition connected_networks :: "LinkModel list \<Rightarrow> network_table" where
  "connected_networks links ns = concat (map (link_connects ns) links)"

definition ports_ok :: "string \<Rightarrow> (string \<times> string) set \<Rightarrow> DpdkPortModel list \<Rightarrow> bool" where
  "ports_ok dpdk_namespace ends ports \<longleftrightarrow>
     distinct (map dp_name ports) \<and>
     count_list (map dp_role ports) Role_ingress = 1 \<and>
     count_list (map dp_role ports) Role_egress = 1 \<and>
     list_all (\<lambda>p. dp_namespace p = dpdk_namespace \<and> (dpdk_namespace, dp_name p) \<notin> ends) ports"

definition route_ok :: "string set \<Rightarrow> network_table \<Rightarrow> RouteModel \<Rightarrow> bool" where
  "route_ok namespaces networks r \<longleftrightarrow>
     rt_namespace r \<in> namespaces \<and>
     (case ip_network (rt_dst r) of ParsedV4 _ \<Rightarrow> True | _ \<Rightarrow> False) \<and>
     (case ip_address (rt_via r) of
        ParsedV4 via \<Rightarrow> list_ex (\<lambda>net. network_contains net via) (networks (rt_namespace r))
      | _ \<Rightarrow> False)"

definition optional_address_ok :: "string option \<Rightarrow> bool" where
  "optional_address_ok v =
     (case v of None \<Rightarrow> True | Some s \<Rightarrow> (case ip_address s of ParsedV4 _ \<Rightarrow> True | _ \<Rightarrow> False))"

definition optional_network_ok :: "string option \<Rightarrow> bool" where
  "optional_network_ok v =
     (case v of None \<Rightarrow> True | Some s \<Rightarrow> (case ip_network s of ParsedV4 _ \<Rightarrow> True | _ \<Rightarrow> False))"

definition rule_match_ok :: "RuleMatchModel \<Rightarrow> bool" where
  "rule_match_ok m \<longleftrightarrow>
     (rm_src_ip m = None \<or> rm_src_cidr m = None) \<and> (rm_dst_ip m = None \<or> rm_dst_cidr m = None) \<and>
     optional_address_ok (rm_src_ip m) \<and> optional_address_ok (rm_dst_ip m) \<and>
     optional_network_ok (rm_src_cidr m) \<and> optional_network_ok (rm_dst_cidr m) \<and>
     (rm_proto m = Some Proto_icmp \<longrightarrow> rm_src_port m = None \<and> rm_dst_port m = None)"

definition action_port_ok :: "string set option \<Rightarrow> RuleActionModel \<Rightarrow> bool" where
  "action_port_ok allowed a =
     (case (ra_port a, allowed) of (Some p, Some names) \<Rightarrow> p \<in> names | _ \<Rightarrow> True)"

definition ruleset_ok :: "string set option \<Rightarrow> RulesetModel \<Rightarrow> bool" where
  "ruleset_ok allowed s \<longleftrightarrow>
     action_port_ok allowed (rs_default_action s) \<and> distinct (map ru_id (rs_entries s)) \<and>
     list_all (\<lambda>r. rule_match_ok (ru_match r) \<and> action_port_ok allowed (ru_action r)) (rs_entries s)"

definition config_namespaces :: "TopologyConfigModel \<Rightarrow> string set" where
  "config_namespaces c = ns_name ` set (tc_namespaces c)"

definition config_ends :: "TopologyConfigModel \<Rightarrow> (string \<times> string) set" where
  "config_ends c = set (concat (map link_ends (tc_links c)))"

definition config_dpdk_namespace :: "TopologyConfigModel \<Rightarrow> string" where
  "config_dpdk_namespace c = dc_namespace (pr_dpdkd (tc_processes c))"

text \<open>Every interface of the lab: the link endpoints and the datapath's own ports.\<close>

definition config_interfaces :: "TopologyConfigModel \<Rightarrow> (string \<times> string) set" where
  "config_interfaces c =
     config_ends c \<union> (\<lambda>p. (config_dpdk_namespace c, dp_name p)) ` set (tc_dpdk_ports c)"

definition topology_ok :: "TopologyConfigModel \<Rightarrow> bool" where
  "topology_ok c \<longleftrightarrow>
     distinct (map ns_name (tc_namespaces c)) \<and>
     config_dpdk_namespace c \<in> config_namespaces c \<and>
     links_ok (config_namespaces c) (tc_links c) \<and>
     ports_ok (config_dpdk_namespace c) (config_ends c) (tc_dpdk_ports c) \<and>
     list_all (route_ok (config_namespaces c) (connected_networks (tc_links c))) (tc_routes c) \<and>
     distinct (map cp_name (tc_capture_points c)) \<and>
     list_all (\<lambda>p. (cp_namespace p, cp_interface p) \<in> config_interfaces c) (tc_capture_points c) \<and>
     (config_dpdk_namespace c, INGRESS_BRIDGE_KERNEL_INTERFACE) \<in> config_interfaces c \<and>
     (config_dpdk_namespace c, EGRESS_BRIDGE_KERNEL_INTERFACE) \<in> config_interfaces c \<and>
     ruleset_ok (Some (dp_name ` set (tc_dpdk_ports c))) (tc_rules c)"

section \<open>The leaf parsers\<close>

lemma str_partition_sep:
  assumes "c \<notin> set a"
  shows "str_partition c (a @ c # b) = (a, True, b)"
  using assms by (simp add: str_partition_def takeWhile_tail dropWhile_append)

lemma str_partition_True:
  assumes "str_partition c s = (a, True, b)"
  shows "s = a @ c # b" and "c \<notin> set a"
proof -
  from assms have a: "a = takeWhile (\<lambda>x. x \<noteq> c) s" and "c \<in> set s"
    and b: "b = tl (dropWhile (\<lambda>x. x \<noteq> c) s)"
    by (auto simp: str_partition_def)
  then have ne: "dropWhile (\<lambda>x. x \<noteq> c) s \<noteq> []" by (auto simp: dropWhile_eq_Nil_conv)
  with hd_dropWhile [OF ne] b have "dropWhile (\<lambda>x. x \<noteq> c) s = c # b"
    by (cases "dropWhile (\<lambda>x. x \<noteq> c) s") auto
  with a show "s = a @ c # b" by (metis takeWhile_dropWhile_id)
  from a show "c \<notin> set a" by (auto dest: set_takeWhileD)
qed

lemma parse_interface_ref_Some_iff:
  "parse_interface_ref path s = (issues, Some r) \<longleftrightarrow> issues = [] \<and> is_interface_ref r s"
proof
  assume "parse_interface_ref path s = (issues, Some r)"
  then show "issues = [] \<and> is_interface_ref r s"
    by (auto simp: parse_interface_ref_def is_interface_ref_def split: prod.splits if_splits
        dest: str_partition_True)
next
  assume "issues = [] \<and> is_interface_ref r s"
  then show "parse_interface_ref path s = (issues, Some r)"
    by (cases r) (auto simp: parse_interface_ref_def is_interface_ref_def str_partition_sep)
qed

lemma interface_ref_Some_iff: "interface_ref s = Some r \<longleftrightarrow> is_interface_ref r s"
  by (cases "parse_interface_ref [] s")
    (metis interface_ref_def parse_interface_ref_Some_iff snd_conv)

lemma parse_interface_ref_snd: "snd (parse_interface_ref path s) = interface_ref s"
  by (auto simp: interface_ref_def parse_interface_ref_def split: prod.splits)

lemma parse_interface_ref_Nil_iff [collector_iff]:
  "fst (parse_interface_ref path s) = [] \<longleftrightarrow> interface_ref s \<noteq> None"
  by (auto simp: interface_ref_def parse_interface_ref_def split: prod.splits)

lemma parse_address_Nil_iff [collector_iff]:
  "fst (parse_address path True v) = [] \<longleftrightarrow> optional_address_ok v"
  by (simp add: parse_address_def optional_address_ok_def split: option.split ip_parse.split)

lemma parse_network_Nil_iff [collector_iff]:
  "fst (parse_network path True v) = [] \<longleftrightarrow> optional_network_ok v"
  by (simp add: parse_network_def optional_network_ok_def split: option.split ip_parse.split)

lemma collect_duplicate_names_Nil_iff [collector_iff]:
  "fst (collect_duplicate_names p names) = [] \<longleftrightarrow> distinct names"
  by (simp add: collect_duplicate_names_def repeated_keys_Nil_iff duplicate_name_issue_def)

lemma collect_duplicate_names_set [simp]:
  "snd (collect_duplicate_names p names) = set names"
  by (simp add: collect_duplicate_names_def)

section \<open>Routes, capture points and rules\<close>

interpretation route: issue_collector "route_step names nets" "route_ok names nets" for names nets
proof
  fix i r
  show "route_step names nets i r = [] \<longleftrightarrow> route_ok names nets r"
    by (simp add: route_step_def route_ok_def Let_def parse_network_def parse_address_def
        split: ip_parse.split)
qed

interpretation capture: issue_collector "capture_step names ifaces"
    "\<lambda>p. cp_namespace p \<in> names \<and> cp_interface p \<in> ifaces_of ifaces (cp_namespace p)"
    for names ifaces
  by unfold_locales (simp add: capture_step_def Let_def)

lemma validate_rule_match_Nil_iff [collector_iff]:
  "validate_rule_match path m = [] \<longleftrightarrow> rule_match_ok m"
  by (auto simp: validate_rule_match_def rule_match_ok_def Let_def collector_iff)

lemma validate_rule_action_Nil_iff [collector_iff]:
  "validate_rule_action allowed path a = [] \<longleftrightarrow> action_port_ok allowed a"
  by (simp add: validate_rule_action_def action_port_ok_def split: option.split)

interpretation rule: issue_collector "rule_step prefix allowed"
    "\<lambda>r. rule_match_ok (ru_match r) \<and> action_port_ok allowed (ru_action r)"
    for prefix allowed
  by unfold_locales (simp add: rule_step_def collector_iff)

lemma collect_ruleset_Nil_iff [collector_iff]:
  "collect_ruleset_issues prefix allowed s = [] \<longleftrightarrow> ruleset_ok allowed s"
  using rule.first_seen_loop_Nil_iff
    [of "duplicate_rule_issue prefix" Map.empty 0 prefix allowed ru_id "rs_entries s"]
  by (simp add: collect_ruleset_issues_def ruleset_ok_def collector_iff duplicate_rule_issue_def)

lemma collect_bridge_side_Nil_iff [collector_iff]:
  "collect_bridge_side_interface_issues ns ifaces = [] \<longleftrightarrow>
     INGRESS_BRIDGE_KERNEL_INTERFACE \<in> ifaces_of ifaces ns \<and>
     EGRESS_BRIDGE_KERNEL_INTERFACE \<in> ifaces_of ifaces ns"
  by (simp add: collect_bridge_side_interface_issues_def)

section \<open>Links\<close>

text \<open>The table of interfaces after a set of endpoints has been added to it.\<close>

definition with_interfaces :: "(string \<times> string) set \<Rightarrow> iface_table \<Rightarrow> iface_table" where
  "with_interfaces ends table = (\<lambda>ns. map_option (\<lambda>names. names \<union> ends `` {ns}) (table ns))"

lemma with_interfaces_empty [simp]: "with_interfaces {} table = table"
  by (simp add: with_interfaces_def option.map_ident)

lemma with_interfaces_with [simp]:
  "with_interfaces e (with_interfaces e' table) = with_interfaces (e \<union> e') table"
  by (auto simp: with_interfaces_def option.map_comp comp_def Un_ac Un_Image
      intro!: ext option.map_cong)

lemma dom_with_interfaces [simp]: "dom (with_interfaces e table) = dom table"
  by (auto simp: with_interfaces_def dom_def)

lemma iface_add_with: "iface_add ns name table = with_interfaces {(ns, name)} table"
  by (rule ext) (auto simp: iface_add_def with_interfaces_def Image_def map_option_case
      split: option.split)

lemma ifaces_of_with:
  "ns \<in> dom table \<Longrightarrow> ifaces_of (with_interfaces e table) ns = ifaces_of table ns \<union> e `` {ns}"
  by (auto simp: ifaces_of_def with_interfaces_def)

lemma ifaces_of_empty [simp]: "ifaces_of (empty_interfaces names) ns = {}"
  by (simp add: ifaces_of_def empty_interfaces_def)

lemma dom_empty_interfaces [simp]: "dom (empty_interfaces names) = names"
  by (auto simp: empty_interfaces_def split: if_splits)

lemma link_endpoint_Some:
  assumes "link_endpoint names index path (Some r) seen ifaces = (issues, seen', ifaces')"
    and "\<forall>k f. seen k = Some f \<longrightarrow> f \<le> index"
  shows "issues = [] \<longleftrightarrow> fst r \<in> names \<and> seen r \<in> {None, Some index}"
    and "fst r \<in> names \<Longrightarrow> ifaces' = with_interfaces {r} ifaces \<and>
           dom seen' = insert r (dom seen) \<and> (seen r = None \<longrightarrow> seen' = seen(r \<mapsto> index))"
    and "\<forall>k f. seen' k = Some f \<longrightarrow> f \<le> index"
  using assms by (cases r; auto simp: link_endpoint_def Let_def iface_add_with split: option.splits if_splits)+

lemma link_addressing_Nil_iff [collector_iff]:
  "fst (link_addressing names index l a b nets) = [] \<longleftrightarrow> link_addresses_ok l"
  by (auto simp: link_addressing_def link_addresses_ok_def parse_interface_address_def Let_def
      split: option.split ip_parse.split)

lemma link_addressing_networks:
  assumes "link_addresses_ok l" and "fst a \<in> names" and "fst b \<in> names"
    and "link_ends l = [a, b]"
  shows "snd (link_addressing names index l (Some a) (Some b) nets) = (\<lambda>ns. nets ns @ link_connects ns l)"
  using assms
  by (auto simp: link_addressing_def link_addresses_ok_def parse_interface_address_def Let_def
      link_connects_def link_network_def network_add_def fun_eq_iff
      split: option.splits ip_parse.splits prod.splits)

text \<open>The check of one link, given the endpoints the earlier links use.\<close>

definition link_ok :: "string set \<Rightarrow> (string \<times> string) set \<Rightarrow> LinkModel \<Rightarrow> bool" where
  "link_ok names used l \<longleftrightarrow>
     interface_ref (lk_a l) \<noteq> None \<and> interface_ref (lk_b l) \<noteq> None \<and>
     fst ` set (link_ends l) \<subseteq> names \<and> distinct (link_ends l) \<and> set (link_ends l) \<inter> used = {} \<and>
     link_addresses_ok l"

lemma link_endpoint_None [simp]:
  "link_endpoint names index path None seen ifaces = ([], seen, ifaces)"
  by (simp add: link_endpoint_def)

lemma link_endpoint_bound:
  assumes "link_endpoint names index path r seen ifaces = (issues, seen', ifaces')"
    and "\<forall>k f. seen k = Some f \<longrightarrow> f \<le> index"
  shows "\<forall>k f. seen' k = Some f \<longrightarrow> f \<le> index"
  using assms by (cases r) (simp, blast dest: link_endpoint_Some(3))

lemma parse_interface_ref_elim:
  obtains issues where "parse_interface_ref path s = (issues, interface_ref s)"
    and "issues = [] \<longleftrightarrow> interface_ref s \<noteq> None"
  by (metis parse_interface_ref_snd parse_interface_ref_Nil_iff prod.collapse)

lemma link_step_elim:
  assumes "link_step names index l (seen, ifaces, nets) = (issues, seen', ifaces', nets')"
  obtains ea seen1 ifaces1 eb addr where
    "link_endpoint names index (at_index ''links'' index @ ''.a'') (interface_ref (lk_a l)) seen ifaces
       = (ea, seen1, ifaces1)"
    "link_endpoint names index (at_index ''links'' index @ ''.b'') (interface_ref (lk_b l)) seen1 ifaces1
       = (eb, seen', ifaces')"
    "link_addressing names index l (interface_ref (lk_a l)) (interface_ref (lk_b l)) nets
       = (addr, nets')"
    "issues = [] \<longleftrightarrow> interface_ref (lk_a l) \<noteq> None \<and> interface_ref (lk_b l) \<noteq> None \<and>
       interface_ref (lk_a l) \<noteq> interface_ref (lk_b l) \<and> ea = [] \<and> eb = [] \<and> addr = []"
proof -
  obtain ea seen1 ifaces1 where a: "link_endpoint names index (at_index ''links'' index @ ''.a'')
      (interface_ref (lk_a l)) seen ifaces = (ea, seen1, ifaces1)" by (rule prod_cases3)
  obtain eb seen2 ifaces2 where b: "link_endpoint names index (at_index ''links'' index @ ''.b'')
      (interface_ref (lk_b l)) seen1 ifaces1 = (eb, seen2, ifaces2)" by (rule prod_cases3)
  obtain addr nets2 where n: "link_addressing names index l (interface_ref (lk_a l))
      (interface_ref (lk_b l)) nets = (addr, nets2)" by (rule prod.exhaust)
  obtain ia where ia: "parse_interface_ref (at_index ''links'' index @ ''.a'') (lk_a l) =
      (ia, interface_ref (lk_a l))" "ia = [] \<longleftrightarrow> interface_ref (lk_a l) \<noteq> None"
    by (rule parse_interface_ref_elim)
  obtain ib where ib: "parse_interface_ref (at_index ''links'' index @ ''.b'') (lk_b l) =
      (ib, interface_ref (lk_b l))" "ib = [] \<longleftrightarrow> interface_ref (lk_b l) \<noteq> None"
    by (rule parse_interface_ref_elim)
  from assms have eqs: "seen' = seen2" "ifaces' = ifaces2" "nets' = nets2"
    by (simp_all add: link_step_def ia(1) ib(1) a b n)
  have "issues = [] \<longleftrightarrow> interface_ref (lk_a l) \<noteq> None \<and> interface_ref (lk_b l) \<noteq> None \<and>
       interface_ref (lk_a l) \<noteq> interface_ref (lk_b l) \<and> ea = [] \<and> eb = [] \<and> addr = []"
    using assms ia(2) ib(2) by (auto simp: link_step_def ia(1) ib(1) a b n split: if_splits)
  with a b n show thesis by (intro that) (simp_all add: eqs)
qed

lemma link_ends_Some:
  "interface_ref (lk_a l) = Some a \<Longrightarrow> interface_ref (lk_b l) = Some b \<Longrightarrow> link_ends l = [a, b]"
  by (simp add: link_ends_def map_filter_def)

lemma link_step_props:
  assumes step: "link_step names index l (seen, ifaces, nets) = (issues, seen', ifaces', nets')"
    and bound: "\<forall>k f. seen k = Some f \<longrightarrow> f < index"
  shows "issues = [] \<longleftrightarrow> link_ok names (dom seen) l"
    and "issues = [] \<Longrightarrow> ifaces' = with_interfaces (set (link_ends l)) ifaces \<and>
      dom seen' = dom seen \<union> set (link_ends l) \<and> nets' = (\<lambda>ns. nets ns @ link_connects ns l)"
    and "\<forall>k f. seen' k = Some f \<longrightarrow> f < Suc index"
proof -
  obtain ea seen1 ifaces1 eb addr where
      a: "link_endpoint names index (at_index ''links'' index @ ''.a'') (interface_ref (lk_a l))
        seen ifaces = (ea, seen1, ifaces1)"
    and b: "link_endpoint names index (at_index ''links'' index @ ''.b'') (interface_ref (lk_b l))
        seen1 ifaces1 = (eb, seen', ifaces')"
    and n: "link_addressing names index l (interface_ref (lk_a l)) (interface_ref (lk_b l)) nets
        = (addr, nets')"
    and issues: "issues = [] \<longleftrightarrow> interface_ref (lk_a l) \<noteq> None \<and> interface_ref (lk_b l) \<noteq> None \<and>
        interface_ref (lk_a l) \<noteq> interface_ref (lk_b l) \<and> ea = [] \<and> eb = [] \<and> addr = []"
    using step by (rule link_step_elim)
  have le: "\<forall>k f. seen k = Some f \<longrightarrow> f \<le> index" using bound by (blast intro: less_imp_le)
  note le1 = link_endpoint_bound [OF a le]
  show "\<forall>k f. seen' k = Some f \<longrightarrow> f < Suc index"
    using link_endpoint_bound [OF b le1] unfolding less_Suc_eq_le by blast
  have addr: "addr = [] \<longleftrightarrow> link_addresses_ok l"
    using n link_addressing_Nil_iff [of names index l] by (metis fst_conv)
  have main: "(issues = [] \<longleftrightarrow> link_ok names (dom seen) l) \<and>
    (issues = [] \<longrightarrow> ifaces' = with_interfaces (set (link_ends l)) ifaces \<and>
      dom seen' = dom seen \<union> set (link_ends l) \<and> nets' = (\<lambda>ns. nets ns @ link_connects ns l))"
  proof (cases "interface_ref (lk_a l) = None \<or> interface_ref (lk_b l) = None")
    case True
    with issues show ?thesis by (auto simp: link_ok_def)
  next
    case False
    then obtain ra rb where r: "interface_ref (lk_a l) = Some ra" "interface_ref (lk_b l) = Some rb"
      by auto
    note ends = link_ends_Some [OF r]
    note A = link_endpoint_Some [OF a [unfolded r] le]
    note B = link_endpoint_Some [OF b [unfolded r] le1]
    have nets: "nets' = (\<lambda>ns. nets ns @ link_connects ns l)"
      if "link_addresses_ok l" "fst ra \<in> names" "fst rb \<in> names"
      using link_addressing_networks [OF that ends] n r by (metis snd_conv)
    have not_index: "seen ra \<noteq> Some index" "seen rb \<noteq> Some index" using bound by blast+
    show ?thesis
      using A B nets not_index
      by (auto simp: issues addr r ends link_ok_def domIff)
  qed
  then show "issues = [] \<longleftrightarrow> link_ok names (dom seen) l"
    and "issues = [] \<Longrightarrow> ifaces' = with_interfaces (set (link_ends l)) ifaces \<and>
      dom seen' = dom seen \<union> set (link_ends l) \<and> nets' = (\<lambda>ns. nets ns @ link_connects ns l)"
    by blast+
qed

definition links_wired :: "string set \<Rightarrow> (string \<times> string) set \<Rightarrow> LinkModel list \<Rightarrow> bool" where
  "links_wired names used links \<longleftrightarrow>
     list_all (\<lambda>l. interface_ref (lk_a l) \<noteq> None \<and> interface_ref (lk_b l) \<noteq> None) links \<and>
     list_all (\<lambda>(ns, _). ns \<in> names) (concat (map link_ends links)) \<and>
     distinct (concat (map link_ends links)) \<and>
     set (concat (map link_ends links)) \<inter> used = {} \<and> list_all link_addresses_ok links"

lemma links_wired_Cons:
  "links_wired names used (l # links) \<longleftrightarrow>
     link_ok names used l \<and> links_wired names (used \<union> set (link_ends l)) links"
  by (auto simp: links_wired_def link_ok_def list_all_iff)

lemma link_loop_props:
  assumes "link_loop names index links (seen, ifaces, nets) = (issues, ifaces', nets')"
    and "\<forall>k f. seen k = Some f \<longrightarrow> f < index"
  shows "(issues = [] \<longleftrightarrow> links_wired names (dom seen) links) \<and>
    (issues = [] \<longrightarrow> ifaces' = with_interfaces (set (concat (map link_ends links))) ifaces \<and>
      nets' = (\<lambda>ns. nets ns @ connected_networks links ns))"
  using assms
proof (induction links arbitrary: index seen ifaces nets issues)
  case Nil
  then show ?case by (simp add: connected_networks_def links_wired_def)
next
  case (Cons l links)
  obtain is1 seen1 ifaces1 nets1 where
      s: "link_step names index l (seen, ifaces, nets) = (is1, seen1, ifaces1, nets1)"
    by (rule prod_cases4)
  obtain is2 where r: "link_loop names (Suc index) links (seen1, ifaces1, nets1) = (is2, ifaces', nets')"
    and issues: "issues = is1 @ is2"
    using Cons.prems(1) s by (auto split: prod.splits)
  note S = link_step_props [OF s Cons.prems(2)]
  note R = Cons.IH [OF r S(3)]
  show ?case
  proof (cases "is1 = []")
    case True
    from S(2) [OF True] have upd: "ifaces1 = with_interfaces (set (link_ends l)) ifaces"
        "dom seen1 = dom seen \<union> set (link_ends l)" "nets1 = (\<lambda>ns. nets ns @ link_connects ns l)"
      by blast+
    from R [unfolded upd] S(1) True show ?thesis
      by (simp add: issues links_wired_Cons connected_networks_def Un_commute)
  next
    case False
    with S(1) show ?thesis by (simp add: issues links_wired_Cons)
  qed
qed

lemma collect_link_Nil:
  assumes "collect_link_issues links names ifaces nets = (issues, ifaces', nets')"
  shows "issues = [] \<longleftrightarrow> links_ok names links"
    and "issues = [] \<Longrightarrow> ifaces' = with_interfaces (set (concat (map link_ends links))) ifaces \<and>
      nets' = (\<lambda>ns. nets ns @ connected_networks links ns)"
proof -
  obtain is1 where r: "link_loop names 0 links (Map.empty, ifaces, nets) = (is1, ifaces', nets')"
    and issues: "issues = fst (collect_duplicate_names ''links'' (map lk_name links)) @ is1"
    using assms by (auto simp: collect_link_issues_def split: prod.splits)
  have L: "(is1 = [] \<longleftrightarrow> links_wired names {} links) \<and>
    (is1 = [] \<longrightarrow> ifaces' = with_interfaces (set (concat (map link_ends links))) ifaces \<and>
      nets' = (\<lambda>ns. nets ns @ connected_networks links ns))"
    using link_loop_props [OF r] by simp
  then show "issues = [] \<longleftrightarrow> links_ok names links"
    by (simp add: issues links_ok_def links_wired_def collector_iff)
  from L show "issues = [] \<Longrightarrow> ifaces' = with_interfaces (set (concat (map link_ends links))) ifaces \<and>
      nets' = (\<lambda>ns. nets ns @ connected_networks links ns)"
    by (simp add: issues)
qed

section \<open>Ports\<close>

lemma list_all_insert_name:
  "list_all (\<lambda>q. P q \<and> f q \<notin> insert x S) qs \<longleftrightarrow>
     x \<notin> f ` set qs \<and> list_all (\<lambda>q. P q \<and> f q \<notin> S) qs"
  by (induction qs) auto

lemma port_loop_props:
  assumes "port_loop names dpdk index ports ifaces = (issues, ifaces')"
    and "dom ifaces = names" and "dpdk \<in> names"
  shows "(issues = [] \<longleftrightarrow> distinct (map dp_name ports) \<and>
      list_all (\<lambda>p. dp_namespace p = dpdk \<and> dp_name p \<notin> ifaces_of ifaces dpdk) ports) \<and>
    (issues = [] \<longrightarrow> ifaces' = with_interfaces ((\<lambda>p. (dpdk, dp_name p)) ` set ports) ifaces)"
  using assms
proof (induction ports arbitrary: index ifaces issues)
  case Nil
  then show ?case by simp
next
  case (Cons p ports)
  obtain is1 ifaces1 where s: "port_step names dpdk index p ifaces = (is1, ifaces1)"
    by (rule prod.exhaust)
  obtain is2 where r: "port_loop names dpdk (Suc index) ports ifaces1 = (is2, ifaces')"
    and issues: "issues = is1 @ is2"
    using Cons.prems(1) s by (auto split: prod.splits)
  have ok: "is1 = [] \<longleftrightarrow> dp_namespace p = dpdk \<and> dp_name p \<notin> ifaces_of ifaces dpdk"
    and add: "is1 = [] \<Longrightarrow> ifaces1 = with_interfaces {(dpdk, dp_name p)} ifaces"
    using s Cons.prems(2,3) by (auto simp: port_step_def Let_def iface_add_with split: if_splits)
  show ?case
  proof (cases "is1 = []")
    case True
    note add = add [OF True]
    have names: "ifaces_of ifaces1 dpdk = insert (dp_name p) (ifaces_of ifaces dpdk)"
      using Cons.prems(2,3) by (auto simp: add ifaces_of_with)
    have dom: "dom ifaces1 = names" using Cons.prems(2) by (simp add: add)
    note IH = Cons.IH [OF r dom Cons.prems(3), unfolded names]
    have "issues = [] \<longleftrightarrow> distinct (map dp_name (p # ports)) \<and>
        list_all (\<lambda>p. dp_namespace p = dpdk \<and> dp_name p \<notin> ifaces_of ifaces dpdk) (p # ports)"
      unfolding issues True append_Nil conjunct1 [OF IH] list_all_insert_name
      using ok True by auto
    moreover have "is2 = [] \<Longrightarrow>
        ifaces' = with_interfaces ((\<lambda>p. (dpdk, dp_name p)) ` set (p # ports)) ifaces"
      using conjunct2 [OF IH] by (simp add: add)
    ultimately show ?thesis by (simp add: issues True)
  next
    case False
    with ok show ?thesis by (auto simp: issues)
  qed
qed

lemma collect_port_Nil:
  assumes "collect_dpdk_port_issues ports names dpdk ifaces = (issues, port_names, ifaces')"
    and "dom ifaces = names" and "dpdk \<in> names"
  shows "issues = [] \<longleftrightarrow> ports_ok dpdk {(ns, i). i \<in> ifaces_of ifaces ns} ports"
    and "issues = [] \<Longrightarrow> ifaces' = with_interfaces ((\<lambda>p. (dpdk, dp_name p)) ` set ports) ifaces"
    and "port_names = dp_name ` set ports"
proof -
  obtain is1 where r: "port_loop names dpdk 0 ports ifaces = (is1, ifaces')"
    and issues: "issues = fst (collect_duplicate_names ''dpdk_ports'' (map dp_name ports))
        @ port_role_issues ports @ is1"
    using assms(1) by (auto simp: collect_dpdk_port_issues_def split: prod.splits)
  note P = port_loop_props [OF r assms(2,3)]
  show "issues = [] \<longleftrightarrow> ports_ok dpdk {(ns, i). i \<in> ifaces_of ifaces ns} ports"
    using P by (auto simp: issues collector_iff ports_ok_def port_role_issues_def)
  show "issues = [] \<Longrightarrow> ifaces' = with_interfaces ((\<lambda>p. (dpdk, dp_name p)) ` set ports) ifaces"
    using P by (simp add: issues)
  show "port_names = dp_name ` set ports"
    using assms(1) by (auto simp: collect_dpdk_port_issues_def collect_duplicate_names_def
        split: prod.splits)
qed

section \<open>The whole configuration\<close>

lemma capture_Nil_iff [collector_iff]:
  "collect_capture_point_issues cps names ifaces = [] \<longleftrightarrow>
     distinct (map cp_name cps) \<and>
     list_all (\<lambda>p. cp_namespace p \<in> names \<and> cp_interface p \<in> ifaces_of ifaces (cp_namespace p)) cps"
  by (simp add: collect_capture_point_issues_def collector_iff capture.loop_Nil_iff)

lemma route_Nil_iff [collector_iff]:
  "collect_route_issues routes names nets = [] \<longleftrightarrow> list_all (route_ok names nets) routes"
  by (simp add: collect_route_issues_def route.loop_Nil_iff)

lemma links_ok_ends: "links_ok names links \<Longrightarrow> fst ` set (concat (map link_ends links)) \<subseteq> names"
  by (fastforce simp: links_ok_def list_all_iff)

lemma ifaces_of_config:
  assumes "ns \<in> names"
  shows "ifaces_of (with_interfaces e (empty_interfaces names)) ns = e `` {ns}"
  using assms by (simp add: ifaces_of_with)

lemma topology_issues_Nil:
  assumes "topology_issues c = (issues, names, port_names, ifaces)"
  shows "names = config_namespaces c" and "port_names = dp_name ` set (tc_dpdk_ports c)"
    and "issues = [] \<longleftrightarrow> topology_ok c"
    and "issues = [] \<Longrightarrow> ifaces = with_interfaces (config_interfaces c) (empty_interfaces names)"
proof -
  let ?N = "config_namespaces c" and ?d = "config_dpdk_namespace c"
  obtain li lifaces nets where
      l: "collect_link_issues (tc_links c) ?N (empty_interfaces ?N) (\<lambda>_. []) = (li, lifaces, nets)"
    by (rule prod_cases3)
  obtain pis pn ifs where
      p: "collect_dpdk_port_issues (tc_dpdk_ports c) ?N ?d lifaces = (pis, pn, ifs)"
    by (rule prod_cases3)
  obtain dup where d: "collect_duplicate_names ''namespaces'' (map ns_name (tc_namespaces c)) = (dup, ?N)"
    and dup: "dup = [] \<longleftrightarrow> distinct (map ns_name (tc_namespaces c))"
    by (metis collect_duplicate_names_Nil_iff collect_duplicate_names_set config_namespaces_def
        list.set_map prod.collapse)
  have eqs: "names = ?N" "port_names = pn" "ifaces = ifs"
    "issues = dup @ dpdk_namespace_issues ?d ?N @ li @ pis
       @ collect_route_issues (tc_routes c) ?N nets
       @ collect_capture_point_issues (tc_capture_points c) ?N ifs
       @ collect_bridge_side_interface_issues ?d ifs
       @ collect_ruleset_issues (Some ''rules'') (Some pn) (tc_rules c)"
    using assms
    unfolding topology_issues_def config_dpdk_namespace_def [symmetric] Let_def d prod.case l p
      prod.inject
    by blast+
  show "names = ?N" by (rule eqs)
  show pn: "port_names = dp_name ` set (tc_dpdk_ports c)"
    using p by (auto simp: eqs collect_dpdk_port_issues_def collect_duplicate_names_def split: prod.splits)
  note L = collect_link_Nil [OF l]
  have both: "(issues = [] \<longleftrightarrow> topology_ok c) \<and>
    (issues = [] \<longrightarrow> ifaces = with_interfaces (config_interfaces c) (empty_interfaces names))"
  proof (cases "li = [] \<and> ?d \<in> ?N")
    case False
    then have "\<not> topology_ok c" using L(1) by (auto simp: topology_ok_def)
    moreover have "issues \<noteq> []" using False by (auto simp: eqs dpdk_namespace_issues_def)
    ultimately show ?thesis by blast
  next
    case True
    then have links: "links_ok ?N (tc_links c)" using L(1) by blast
    from True L(2) have lifaces: "lifaces = with_interfaces (config_ends c) (empty_interfaces ?N)"
        and nets: "nets = connected_networks (tc_links c)"
      by (auto simp: config_ends_def)
    have ends: "fst ` config_ends c \<subseteq> ?N" using links_ok_ends [OF links] by (simp add: config_ends_def)
    then have lends: "{(ns, i). i \<in> ifaces_of lifaces ns} = config_ends c"
      by (auto simp: lifaces ifaces_of_def with_interfaces_def empty_interfaces_def
          split: option.splits if_splits)
    have "dom lifaces = ?N" by (simp add: lifaces)
    note P = collect_port_Nil [OF p this conjunct2 [OF True], unfolded lends]
    show ?thesis
    proof (cases "pis = []")
      case False
      with P(1) show ?thesis by (auto simp: eqs topology_ok_def)
    next
      case ports: True
      have ifs: "ifs = with_interfaces (config_interfaces c) (empty_interfaces ?N)"
        using P(2) [OF ports] by (simp add: lifaces config_interfaces_def Un_commute)
      have sub: "fst ` config_interfaces c \<subseteq> ?N" using ends True by (auto simp: config_interfaces_def)
      then have mem: "ns \<in> ?N \<and> i \<in> ifaces_of ifs ns \<longleftrightarrow> (ns, i) \<in> config_interfaces c" for ns i
        by (auto simp: ifs ifaces_of_config)
      have "i \<in> ifaces_of ifs ?d \<longleftrightarrow> (?d, i) \<in> config_interfaces c" for i
        using mem [of ?d] True by simp
      with ports True links P(1) show ?thesis
        by (simp add: eqs(4) eqs(2) [unfolded pn, symmetric] dup dpdk_namespace_issues_def
            topology_ok_def collector_iff nets mem) (simp add: eqs ifs)
    qed
  qed
  then show "issues = [] \<longleftrightarrow> topology_ok c"
    and "issues = [] \<Longrightarrow> ifaces = with_interfaces (config_interfaces c) (empty_interfaces names)"
    by blast+
qed

text \<open>The record the entry point returns for an accepted configuration.\<close>

definition validated_view :: "TopologyConfigModel \<Rightarrow> EffectiveDpdkRuntimeModel \<Rightarrow> ValidatedTopologyConfig" where
  "validated_view c effective =
     \<lparr>vt_topology = c, vt_requested_dpdk_config = pr_dpdkd (tc_processes c),
      vt_effective_dpdk_config = effective, vt_namespace_names = config_namespaces c,
      vt_dpdk_port_names = dp_name ` set (tc_dpdk_ports c),
      vt_namespace_interfaces = (\<lambda>ns.
        if ns \<in> config_namespaces c then Some (sorted_list_of_set (config_interfaces c `` {ns}))
        else None)\<rparr>"

lemma derive_effective_Inr_iff:
  "derive_effective_dpdk_runtime req n = Inr e \<longleftrightarrow>
     derive_effective_with_issues ''processes.dpdkd'' n req = Inr ([], e)"
  by (auto simp: derive_effective_dpdk_runtime_def split: sum.splits if_splits)

lemma interfaces_view:
  "map_option sorted_list_of_set (with_interfaces e (empty_interfaces names) ns) =
     (if ns \<in> names then Some (sorted_list_of_set (e `` {ns})) else None)"
  by (simp add: with_interfaces_def empty_interfaces_def)

lemma validate_topology_iff:
  "validate_topology_config c = Inr v \<longleftrightarrow>
     topology_ok c \<and>
     (\<exists>effective. derive_effective_dpdk_runtime (pr_dpdkd (tc_processes c))
        (int (length (tc_dpdk_ports c))) = Inr effective \<and> v = validated_view c effective)"
proof -
  obtain issues names port_names ifaces where
      t: "topology_issues c = (issues, names, port_names, ifaces)" by (rule prod_cases4)
  note T = topology_issues_Nil [OF t]
  show ?thesis
  proof (cases "issues = []")
    case True
    then show ?thesis
      using T by (auto simp: validate_topology_config_def t derive_effective_Inr_iff
          validated_view_def interfaces_view split: sum.splits if_splits)
  next
    case False
    with T(3) show ?thesis
      by (auto simp: validate_topology_config_def t split: sum.splits)
  qed
qed

lemma validate_ruleset_iff:
  "validate_ruleset s allowed = Inr v \<longleftrightarrow>
     ruleset_ok allowed s \<and>
     v = \<lparr>vr_ruleset = s, vr_allowed_port_names = (case allowed of None \<Rightarrow> {} | Some n \<Rightarrow> n)\<rparr>"
  using collect_ruleset_Nil_iff [of None allowed s]
  by (auto simp: validate_ruleset_def split: list.splits)

text \<open>A network a namespace is connected to is the network of an addressed link that ends in it.\<close>

lemma connected_networksD:
  assumes "net \<in> set (connected_networks links ns)"
  obtains l r where "l \<in> set links" "r \<in> set (link_ends l)" "fst r = ns" "link_network l = Some net"
  using assms by (auto simp: connected_networks_def link_connects_def split: option.splits)

lemma link_endsD:
  "r \<in> set (link_ends l) \<Longrightarrow> is_interface_ref r (lk_a l) \<or> is_interface_ref r (lk_b l)"
  by (auto simp: link_ends_def map_filter_def interface_ref_Some_iff [symmetric] split: if_splits)

lemma link_network_addresses:
  assumes "link_addresses_ok l" and "link_network l = Some net"
  obtains a b i j where "lk_ip_a l = Some a" "lk_ip_b l = Some b" "ip_interface a = ParsedV4 i"
    "ip_interface b = ParsedV4 j" "if_network i = net" "if_network j = net"
  using assms by (auto simp: link_addresses_ok_def link_network_def split: option.splits ip_parse.splits)

section \<open>The reference lab\<close>

text \<open>\<open>lab/topologies/linear.yaml\<close>, as the parser returns it.\<close>

definition linear_lab :: TopologyConfigModel where
  "linear_lab =
     \<lparr>tc_lab = \<lparr>lab_name = ''linear-basic''\<rparr>,
      tc_processes = \<lparr>pr_dpdkd = default_request ''dpdk-host'', pr_ctrld = None\<rparr>,
      tc_namespaces = [\<lparr>ns_name = ''tg-src''\<rparr>, \<lparr>ns_name = ''dpdk-host''\<rparr>, \<lparr>ns_name = ''tg-sink''\<rparr>],
      tc_links =
        [\<lparr>lk_name = ''src-to-host'', lk_a = ''tg-src:eth0'', lk_b = ''dpdk-host:veth-in-k'',
          lk_ip_a = Some ''10.0.0.1/24'', lk_ip_b = Some ''10.0.0.254/24''\<rparr>,
         \<lparr>lk_name = ''host-to-sink'', lk_a = ''dpdk-host:veth-out-k'', lk_b = ''tg-sink:eth0'',
          lk_ip_a = Some ''10.0.1.254/24'', lk_ip_b = Some ''10.0.1.1/24''\<rparr>],
      tc_dpdk_ports =
        [\<lparr>dp_name = ''dtap0'', dp_namespace = ''dpdk-host'', dp_role = Role_ingress\<rparr>,
         \<lparr>dp_name = ''dtap1'', dp_namespace = ''dpdk-host'', dp_role = Role_egress\<rparr>],
      tc_routes =
        [\<lparr>rt_namespace = ''tg-src'', rt_dst = ''10.0.1.0/24'', rt_via = ''10.0.0.254''\<rparr>,
         \<lparr>rt_namespace = ''tg-sink'', rt_dst = ''10.0.0.0/24'', rt_via = ''10.0.1.254''\<rparr>],
      tc_rules =
        \<lparr>rs_version = 1, rs_default_action = \<lparr>ra_type = Act_drop, ra_port = None\<rparr>,
         rs_entries = []\<rparr>,
      tc_capture_points =
        [\<lparr>cp_name = ''src-link'', cp_namespace = ''tg-src'', cp_interface = ''eth0''\<rparr>]\<rparr>"

lemma linear_refs:
  "interface_ref ''tg-src:eth0'' = Some (''tg-src'', ''eth0'')"
  "interface_ref ''dpdk-host:veth-in-k'' = Some (''dpdk-host'', ''veth-in-k'')"
  "interface_ref ''dpdk-host:veth-out-k'' = Some (''dpdk-host'', ''veth-out-k'')"
  "interface_ref ''tg-sink:eth0'' = Some (''tg-sink'', ''eth0'')"
  by (simp_all add: interface_ref_Some_iff is_interface_ref_def)

lemmas ip_eval = str_simps Let_def mk_ipv4_network_def ip_int_from_prefix_def mask_eq_exp_minus_1

lemma linear_addresses:
  "ip_interface ''10.0.0.1/24'' = ParsedV4 \<lparr>if_ip = 0x0A000001, if_network = \<lparr>network_address = 0x0A000000, netmask = 0xFFFFFF00\<rparr>\<rparr>"
  "ip_interface ''10.0.0.254/24'' = ParsedV4 \<lparr>if_ip = 0x0A0000FE, if_network = \<lparr>network_address = 0x0A000000, netmask = 0xFFFFFF00\<rparr>\<rparr>"
  "ip_interface ''10.0.1.254/24'' = ParsedV4 \<lparr>if_ip = 0x0A0001FE, if_network = \<lparr>network_address = 0x0A000100, netmask = 0xFFFFFF00\<rparr>\<rparr>"
  "ip_interface ''10.0.1.1/24'' = ParsedV4 \<lparr>if_ip = 0x0A000101, if_network = \<lparr>network_address = 0x0A000100, netmask = 0xFFFFFF00\<rparr>\<rparr>"
  "ip_network ''10.0.1.0/24'' = ParsedV4 \<lparr>network_address = 0x0A000100, netmask = 0xFFFFFF00\<rparr>"
  "ip_network ''10.0.0.0/24'' = ParsedV4 \<lparr>network_address = 0x0A000000, netmask = 0xFFFFFF00\<rparr>"
  "ip_address ''10.0.0.254'' = ParsedV4 0x0A0000FE"
  "ip_address ''10.0.1.254'' = ParsedV4 0x0A0001FE"
  by (simp_all add: ip_eval)

lemma linear_lab_ok: "topology_ok linear_lab"
proof -
  have ends: "map link_ends (tc_links linear_lab) =
      [[(''tg-src'', ''eth0''), (''dpdk-host'', ''veth-in-k'')],
       [(''dpdk-host'', ''veth-out-k''), (''tg-sink'', ''eth0'')]]"
    by (simp add: linear_lab_def link_ends_def map_filter_def linear_refs)
  have "links_ok (config_namespaces linear_lab) (tc_links linear_lab)"
    unfolding links_ok_def ends
    by (simp add: linear_lab_def config_namespaces_def linear_refs link_addresses_ok_def linear_addresses)
  moreover have "list_all (route_ok (config_namespaces linear_lab) (connected_networks (tc_links linear_lab)))
      (tc_routes linear_lab)"
    by (simp add: linear_lab_def config_namespaces_def route_ok_def linear_addresses
        connected_networks_def link_connects_def link_network_def link_ends_def map_filter_def
        linear_refs network_contains_def)
  ultimately show ?thesis
    unfolding topology_ok_def config_interfaces_def config_ends_def ends
    by (simp add: linear_lab_def config_dpdk_namespace_def config_namespaces_def default_request_def
        ports_ok_def ruleset_ok_def action_port_ok_def INGRESS_BRIDGE_KERNEL_INTERFACE_def
        EGRESS_BRIDGE_KERNEL_INTERFACE_def)
qed

lemma linear_lab_valid:
  "validate_topology_config linear_lab = Inr (validated_view linear_lab (default_profile 2))"
  unfolding validate_topology_iff
  using linear_lab_ok default_runtime [of 2 "''dpdk-host''"] by (simp add: linear_lab_def)

section \<open>Properties\<close>

text \<open>C6. A topology is accepted exactly when it meets the declarative conditions of
  \<open>topology_ok\<close> and its runtime profile can be derived; the result carries the namespaces, the
  ports and, for each namespace, the sorted list of the interfaces links and ports declare in it.\<close>

theorem topology_validation_iff:
  "validate_topology_config config = Inr validated \<longleftrightarrow>
     topology_ok config \<and>
     (\<exists>effective. derive_effective_dpdk_runtime (pr_dpdkd (tc_processes config))
        (int (length (tc_dpdk_ports config))) = Inr effective \<and>
        validated = validated_view config effective)"
  by (rule validate_topology_iff)

text \<open>C31. A standalone ruleset is accepted exactly when its rule ids are distinct, every match is
  consistent (one form per address, IPv4 only, no ports on ICMP) and, when port names are given,
  every action names one of them.\<close>

theorem ruleset_validation_iff:
  "validate_ruleset ruleset allowed = Inr validated \<longleftrightarrow>
     ruleset_ok allowed ruleset \<and>
     validated = \<lparr>vr_ruleset = ruleset,
       vr_allowed_port_names = (case allowed of None \<Rightarrow> {} | Some names \<Rightarrow> names)\<rparr>"
  by (rule validate_ruleset_iff)

text \<open>C32. In an accepted topology the gateway of every route shares its network with both ends of
  an addressed link that ends in the namespace of the route.\<close>

theorem accepted_gateway_on_link:
  assumes "validate_topology_config config = Inr validated" and "route \<in> set (tc_routes config)"
  shows "\<exists>link \<in> set (tc_links config). \<exists>a b i j via.
     (\<exists>ifn. is_interface_ref (rt_namespace route, ifn) (lk_a link) \<or>
            is_interface_ref (rt_namespace route, ifn) (lk_b link)) \<and>
     lk_ip_a link = Some a \<and> ip_interface a = ParsedV4 i \<and>
     lk_ip_b link = Some b \<and> ip_interface b = ParsedV4 j \<and>
     ip_address (rt_via route) = ParsedV4 via \<and>
     network_contains (if_network i) via \<and> if_network i = if_network j"
proof -
  from assms(1) have ok: "topology_ok config" by (simp add: validate_topology_iff)
  with assms(2) have "route_ok (config_namespaces config) (connected_networks (tc_links config)) route"
    by (auto simp: topology_ok_def list_all_iff)
  then obtain via net where via: "ip_address (rt_via route) = ParsedV4 via" "network_contains net via"
    and "net \<in> set (connected_networks (tc_links config) (rt_namespace route))"
    by (auto simp: route_ok_def list_ex_iff split: ip_parse.splits)
  then obtain l r where l: "l \<in> set (tc_links config)" and r: "r \<in> set (link_ends l)"
    "fst r = rt_namespace route" and net: "link_network l = Some net"
    by (rule_tac connected_networksD)
  from ok l have "link_addresses_ok l" by (auto simp: topology_ok_def links_ok_def list_all_iff)
  with net obtain a b i j where "lk_ip_a l = Some a" "lk_ip_b l = Some b"
      "ip_interface a = ParsedV4 i" "ip_interface b = ParsedV4 j" "if_network i = net" "if_network j = net"
    by (rule_tac link_network_addresses)
  moreover have "is_interface_ref (rt_namespace route, snd r) (lk_a l) \<or>
      is_interface_ref (rt_namespace route, snd r) (lk_b l)"
    using link_endsD [OF r(1)] r(2) by (metis prod.collapse)
  ultimately show ?thesis
    using l via by (intro bexI [of _ l] exI [of _ a] exI [of _ b] exI [of _ i] exI [of _ j]
        exI [of _ via]) auto
qed

theorem accepted_gateway_on_link_witness:
  "\<exists>link \<in> set (tc_links linear_lab). \<exists>a b i j via.
     (\<exists>ifn. is_interface_ref (''tg-sink'', ifn) (lk_a link) \<or>
            is_interface_ref (''tg-sink'', ifn) (lk_b link)) \<and>
     lk_ip_a link = Some a \<and> ip_interface a = ParsedV4 i \<and>
     lk_ip_b link = Some b \<and> ip_interface b = ParsedV4 j \<and>
     ip_address ''10.0.1.254'' = ParsedV4 via \<and>
     network_contains (if_network i) via \<and> if_network i = if_network j"
  using accepted_gateway_on_link [OF linear_lab_valid, of "tc_routes linear_lab ! 1"]
  by (simp add: linear_lab_def)

end
