(* ===== verification/Topology_Ops.thy ===== *)
theory Topology_Ops
  imports Netns Topology_Validation
begin

text \<open>
  The steps that build and remove a lab (\<open>ctrld/pktlab_ctrld/topology/\<close>: \<open>namespaces.py\<close>,
  \<open>links.py\<close>, \<open>routes.py\<close>, \<open>taps.py\<close>), as programs over the command runner, and what they do to
  the namespaces and interfaces of the host.
\<close>

section \<open>Namespaces\<close>

definition ensure_namespaces :: "'s runner \<Rightarrow> ValidatedTopologyConfig \<Rightarrow> ('s, unit) prog" where
  "ensure_namespaces run topology =
     for_each (\<lambda>namespace. ensure_namespace run (ns_name namespace))
       (tc_namespaces (vt_topology topology))"

definition destroy_namespaces :: "'s runner \<Rightarrow> ValidatedTopologyConfig \<Rightarrow> ('s, unit) prog" where
  "destroy_namespaces run topology =
     for_each (\<lambda>namespace. delete_namespace run (ns_name namespace))
       (rev (tc_namespaces (vt_topology topology)))"

section \<open>Links and bridges\<close>

definition INGRESS_BRIDGE_NAME :: string where "INGRESS_BRIDGE_NAME = ''br-in''"
definition EGRESS_BRIDGE_NAME :: string where "EGRESS_BRIDGE_NAME = ''br-out''"

definition split_ref :: "string \<Rightarrow> string \<times> string" where
  "split_ref value = (case str_partition (CHR '':'') value of (namespace, _, interface) \<Rightarrow>
     (namespace, interface))"

definition optional_address ::
  "'s runner \<Rightarrow> string \<times> string \<Rightarrow> string option \<Rightarrow> ('s, unit) prog" where
  "optional_address run ref ip =
     (case ip of None \<Rightarrow> ret () | Some cidr \<Rightarrow> replace_address run (fst ref) (snd ref) cidr)"

definition ensure_link :: "'s runner \<Rightarrow> LinkModel \<Rightarrow> ('s, unit) prog" where
  "ensure_link run link =
     then_do (ensure_veth_pair run (split_ref (lk_a link)) (split_ref (lk_b link)))
    (then_do (optional_address run (split_ref (lk_a link)) (lk_ip_a link))
             (optional_address run (split_ref (lk_b link)) (lk_ip_b link)))"

definition ensure_links :: "'s runner \<Rightarrow> ValidatedTopologyConfig \<Rightarrow> ('s, unit) prog" where
  "ensure_links run topology = for_each (ensure_link run) (tc_links (vt_topology topology))"

definition dpdk_namespace_of :: "ValidatedTopologyConfig \<Rightarrow> string" where
  "dpdk_namespace_of topology = dc_namespace (vt_requested_dpdk_config topology)"

definition ensure_bridges :: "'s runner \<Rightarrow> ValidatedTopologyConfig \<Rightarrow> ('s, unit) prog" where
  "ensure_bridges run topology =
     then_do (ensure_bridge run (dpdk_namespace_of topology) INGRESS_BRIDGE_NAME)
       (ensure_bridge run (dpdk_namespace_of topology) EGRESS_BRIDGE_NAME)"

definition bring_link_endpoints_up :: "'s runner \<Rightarrow> ValidatedTopologyConfig \<Rightarrow> ('s, unit) prog" where
  "bring_link_endpoints_up run topology =
     for_each (\<lambda>link.
         then_do (set_link_up run (fst (split_ref (lk_a link))) (snd (split_ref (lk_a link))))
           (set_link_up run (fst (split_ref (lk_b link))) (snd (split_ref (lk_b link)))))
       (tc_links (vt_topology topology))"

definition destroy_links_and_bridges :: "'s runner \<Rightarrow> ValidatedTopologyConfig \<Rightarrow> ('s, unit) prog" where
  "destroy_links_and_bridges run topology =
     then_do
       (for_each (\<lambda>bridge. delete_link run (dpdk_namespace_of topology) bridge)
          [EGRESS_BRIDGE_NAME, INGRESS_BRIDGE_NAME])
       (for_each (\<lambda>link. delete_link run (fst (split_ref (lk_a link))) (snd (split_ref (lk_a link))))
          (rev (tc_links (vt_topology topology))))"

section \<open>Routes\<close>

definition ensure_routes :: "'s runner \<Rightarrow> ValidatedTopologyConfig \<Rightarrow> ('s, unit) prog" where
  "ensure_routes run topology =
     for_each (\<lambda>route. replace_route run (rt_namespace route) (rt_dst route) (rt_via route))
       (tc_routes (vt_topology topology))"

section \<open>TAP interfaces\<close>

fun PortRole_value :: "PortRole \<Rightarrow> string" where
  "PortRole_value Role_ingress = ''ingress''"
| "PortRole_value Role_egress = ''egress''"

text \<open>The first port with the role, else the \<open>ValueError\<close>.\<close>

definition port_name_for_role :: "ValidatedTopologyConfig \<Rightarrow> PortRole \<Rightarrow> exn + string" where
  "port_name_for_role topology role =
     (case List.find (\<lambda>port. dp_role port = role) (tc_dpdk_ports (vt_topology topology)) of
        Some port \<Rightarrow> Inr (dp_name port)
      | None \<Rightarrow> Inl (PyValueError (''expected a dpdk port with role '' @ PortRole_value role)))"

definition wait_for_tap ::
  "'s runner \<Rightarrow> 's clock \<Rightarrow> rat \<Rightarrow> rat \<Rightarrow> string \<Rightarrow> string \<Rightarrow> ('s, unit) prog" where
  "wait_for_tap run clk timeout interval dpdk_namespace interface_name =
     wait_until clk (link_exists run dpdk_namespace interface_name)
       (interface_name @ '' in namespace '' @ dpdk_namespace) timeout interval"

definition reconcile_taps ::
  "'s runner \<Rightarrow> 's clock \<Rightarrow> rat \<Rightarrow> rat \<Rightarrow> ValidatedTopologyConfig \<Rightarrow> ('s, unit) prog" where
  "reconcile_taps run clk timeout interval topology =
     (let ns = dpdk_namespace_of topology in
      bind (lift_sum (port_name_for_role topology Role_ingress)) (\<lambda>ingress_port_name.
      bind (lift_sum (port_name_for_role topology Role_egress)) (\<lambda>egress_port_name.
      then_do (for_each (wait_for_tap run clk timeout interval ns) [ingress_port_name, egress_port_name])
     (then_do (attach_to_bridge run ns INGRESS_BRIDGE_KERNEL_INTERFACE INGRESS_BRIDGE_NAME)
     (then_do (attach_to_bridge run ns ingress_port_name INGRESS_BRIDGE_NAME)
     (then_do (attach_to_bridge run ns egress_port_name EGRESS_BRIDGE_NAME)
     (then_do (attach_to_bridge run ns EGRESS_BRIDGE_KERNEL_INTERFACE EGRESS_BRIDGE_NAME)
       (for_each (set_link_up run ns)
          [INGRESS_BRIDGE_KERNEL_INTERFACE, ingress_port_name, egress_port_name,
           EGRESS_BRIDGE_KERNEL_INTERFACE, INGRESS_BRIDGE_NAME, EGRESS_BRIDGE_NAME]))))))))"

text \<open>The names and endpoints a topology lists.\<close>

abbreviation lab_namespaces :: "ValidatedTopologyConfig \<Rightarrow> string set" where
  "lab_namespaces v \<equiv> ns_name ` set (tc_namespaces (vt_topology v))"

abbreviation lab_ends :: "ValidatedTopologyConfig \<Rightarrow> (string \<times> string) set" where
  "lab_ends v \<equiv> (\<Union>l \<in> set (tc_links (vt_topology v)). {split_ref (lk_a l), split_ref (lk_b l)})"

abbreviation lab_bridges :: "ValidatedTopologyConfig \<Rightarrow> (string \<times> string) set" where
  "lab_bridges v \<equiv> {(dpdk_namespace_of v, INGRESS_BRIDGE_NAME), (dpdk_namespace_of v, EGRESS_BRIDGE_NAME)}"

section \<open>The host\<close>

text \<open>
  What the operations rely on of \<open>ip\<close>, for a host whose state has a set of named namespaces and a
  set of interfaces by namespace. A command that cannot be launched or that exits with an error
  changes neither; \<open>netns list\<close> prints the names; adding and deleting do what they say, and deleting
  may take other interfaces along (the peer of a veth, the interfaces of a namespace); the commands
  that configure an existing interface or a route change neither set.
\<close>

locale ip_host =
  fixes run :: "'s runner"
    and nss :: "'s \<Rightarrow> string set"
    and links :: "'s \<Rightarrow> (string \<times> string) set"
  assumes launch_failure: "run argv s = (Inl e, s') \<Longrightarrow> nss s' = nss s \<and> links s' = links s"
    and exit_failure: "run argv s = (Inr c, s') \<Longrightarrow> cpr_returncode c \<noteq> 0 \<Longrightarrow>
      nss s' = nss s \<and> links s' = links s"
    and netns_list: "run (ip_argv None [''netns'', ''list'']) s = (Inr c, s') \<Longrightarrow>
      cpr_returncode c = 0 \<Longrightarrow>
      nss s' = nss s \<and> links s' = links s \<and> set (namespaces_of_output (cpr_stdout c)) = nss s"
    and netns_add: "run (ip_argv None [''netns'', ''add'', n]) s = (Inr c, s') \<Longrightarrow>
      cpr_returncode c = 0 \<Longrightarrow> nss s' = insert n (nss s) \<and> links s \<subseteq> links s'"
    and netns_del: "run (ip_argv None [''netns'', ''del'', n]) s = (Inr c, s') \<Longrightarrow>
      cpr_returncode c = 0 \<Longrightarrow> nss s' = nss s - {n} \<and> links s' \<subseteq> links s"
    and link_show: "run (ip_argv (Some ns) [''link'', ''show'', ''dev'', i]) s = (Inr c, s') \<Longrightarrow>
      nss s' = nss s \<and> links s' = links s \<and>
      (cpr_returncode c = 0 \<longrightarrow> (ns, i) \<in> links s) \<and> (cpr_returncode c = 1 \<longrightarrow> (ns, i) \<notin> links s)"
    and veth_add: "run (ip_argv None (veth_argv (fst a) (snd a) (fst b) (snd b))) s = (Inr c, s') \<Longrightarrow>
      cpr_returncode c = 0 \<Longrightarrow> nss s' = nss s \<and> links s' = insert a (insert b (links s))"
    and bridge_add:
      "run (ip_argv (Some ns) [''link'', ''add'', ''name'', i, ''type'', ''bridge'']) s = (Inr c, s') \<Longrightarrow>
      cpr_returncode c = 0 \<Longrightarrow> nss s' = nss s \<and> links s' = insert (ns, i) (links s)"
    and link_del: "run (ip_argv (Some ns) [''link'', ''del'', ''dev'', i]) s = (Inr c, s') \<Longrightarrow>
      cpr_returncode c = 0 \<Longrightarrow> nss s' = nss s \<and> links s' \<subseteq> links s - {(ns, i)}"
    and configure: "arguments \<in>
        {[''address'', ''replace'', cidr, ''dev'', i], [''route'', ''replace'', dst, ''via'', via],
         [''link'', ''set'', ''dev'', i, ''master'', bridge], [''link'', ''set'', ''dev'', i, ''up'']} \<Longrightarrow>
      run (ip_argv (Some ns) arguments) s = (Inr c, s') \<Longrightarrow> cpr_returncode c = 0 \<Longrightarrow>
      nss s' = nss s \<and> links s' = links s"
begin

definition same :: "'s \<Rightarrow> 's \<Rightarrow> bool" where
  "same s s' \<longleftrightarrow> nss s' = nss s \<and> links s' = links s"

lemma checked:
  assumes "\<And>c s'. run (ip_argv ns args) s = (Inr c, s') \<Longrightarrow> cpr_returncode c = 0 \<Longrightarrow> Q () s'"
    and "\<And>e s'. same s s' \<Longrightarrow> E e s'"
  shows "outcome (run_ip_checked run args ns) Q E s"
  using assms launch_failure [of "ip_argv ns args" s] exit_failure [of "ip_argv ns args" s]
  by (auto simp: run_ip_checked_def run_ip_def exec_simps same_def Let_def split: prod.split sum.split)

lemma namespace_exists_outcome:
  assumes "\<And>s'. same s s' \<Longrightarrow> Q (n \<in> nss s) s'" and "\<And>e s'. same s s' \<Longrightarrow> E e s'"
  shows "outcome (namespace_exists run n) Q E s"
  using assms launch_failure [of "ip_argv None [''netns'', ''list'']" s]
    exit_failure [of "ip_argv None [''netns'', ''list'']" s] netns_list [of s]
  by (auto simp: namespace_exists_def list_namespaces_def run_ip_def exec_simps same_def Let_def
      split: prod.split sum.split)

lemma link_exists_outcome:
  assumes "\<And>s'. same s s' \<Longrightarrow> Q ((ns, i) \<in> links s) s'" and "\<And>e s'. same s s' \<Longrightarrow> E e s'"
  shows "outcome (link_exists run ns i) Q E s"
  using assms launch_failure [of "ip_argv (Some ns) [''link'', ''show'', ''dev'', i]" s]
    link_show [of ns i s]
  by (auto simp: link_exists_def run_ip_def exec_simps same_def Let_def split: prod.split sum.split)

lemma ensure_namespace_outcome:
  "outcome (ensure_namespace run n)
     (\<lambda>_ s'. nss s' = insert n (nss s) \<and> links s \<subseteq> links s') (\<lambda>_ s'. same s s') s"
  unfolding ensure_namespace_def outcome_bind
proof (rule namespace_exists_outcome)
  fix s1 assume "same s s1"
  then show "outcome (if n \<in> nss s then ret () else run_ip_checked run [''netns'', ''add'', n] None)
      (\<lambda>_ s'. nss s' = insert n (nss s) \<and> links s \<subseteq> links s') (\<lambda>_ s'. same s s') s1"
    by (auto simp: exec_simps same_def intro!: checked dest!: netns_add)
qed

lemma delete_namespace_outcome:
  "outcome (delete_namespace run n)
     (\<lambda>_ s'. nss s' = nss s - {n} \<and> links s' \<subseteq> links s) (\<lambda>_ s'. same s s') s"
  unfolding delete_namespace_def outcome_bind
proof (rule namespace_exists_outcome)
  fix s1 assume "same s s1"
  then show "outcome (if \<not> n \<in> nss s then ret () else run_ip_checked run [''netns'', ''del'', n] None)
      (\<lambda>_ s'. nss s' = nss s - {n} \<and> links s' \<subseteq> links s) (\<lambda>_ s'. same s s') s1"
    by (auto simp: exec_simps same_def intro!: checked dest!: netns_del)
qed

lemma ensure_bridge_outcome:
  "outcome (ensure_bridge run ns i)
     (\<lambda>_ s'. nss s' = nss s \<and> links s' = insert (ns, i) (links s)) (\<lambda>_ s'. same s s') s"
  unfolding ensure_bridge_def outcome_bind
proof (rule link_exists_outcome)
  fix s1 assume "same s s1"
  then show "outcome (if (ns, i) \<in> links s then ret ()
      else run_ip_checked run [''link'', ''add'', ''name'', i, ''type'', ''bridge''] (Some ns))
      (\<lambda>_ s'. nss s' = nss s \<and> links s' = insert (ns, i) (links s)) (\<lambda>_ s'. same s s') s1"
    by (auto simp: exec_simps same_def intro!: checked dest!: bridge_add)
qed

lemma delete_link_outcome:
  "outcome (delete_link run ns i)
     (\<lambda>_ s'. nss s' = nss s \<and> links s' \<subseteq> links s - {(ns, i)}) (\<lambda>_ s'. same s s') s"
  unfolding delete_link_def outcome_bind
proof (rule link_exists_outcome)
  fix s1 assume "same s s1"
  then show "outcome (if \<not> (ns, i) \<in> links s then ret ()
      else run_ip_checked run [''link'', ''del'', ''dev'', i] (Some ns))
      (\<lambda>_ s'. nss s' = nss s \<and> links s' \<subseteq> links s - {(ns, i)}) (\<lambda>_ s'. same s s') s1"
    by (auto simp: exec_simps same_def intro!: checked dest!: link_del)
qed

lemma ensure_veth_pair_outcome:
  "outcome (ensure_veth_pair run a b)
     (\<lambda>_ s'. nss s' = nss s \<and> links s' = insert a (insert b (links s))) (\<lambda>_ s'. same s s') s"
  unfolding ensure_veth_pair_def outcome_bind
proof (rule link_exists_outcome)
  fix s1 assume s1: "same s s1"
  have "outcome (if (fst a, snd a) \<in> links s then link_exists run (fst b) (snd b) else ret False)
      (\<lambda>p s'. (p \<longrightarrow> a \<in> links s \<and> b \<in> links s) \<and> same s s') (\<lambda>_ s'. same s s') s1"
    using s1 by (auto simp: exec_simps same_def intro!: link_exists_outcome)
  then show "outcome (if (fst a, snd a) \<in> links s then link_exists run (fst b) (snd b) else ret False)
      (\<lambda>p. outcome (if p then ret ()
         else run_ip_checked run (veth_argv (fst a) (snd a) (fst b) (snd b)) None)
        (\<lambda>_ s'. nss s' = nss s \<and> links s' = insert a (insert b (links s))) (\<lambda>_ s'. same s s'))
      (\<lambda>_ s'. same s s') s1"
    by (rule outcome_mono) (auto simp: exec_simps same_def intro!: checked dest!: veth_add)
qed

lemmas configure_argv = configure [OF insertI1] configure [OF insertI2 [OF insertI1]]
  configure [OF insertI2 [OF insertI2 [OF insertI1]]]
  configure [OF insertI2 [OF insertI2 [OF insertI2 [OF insertI1]]]]

lemma configure_outcome:
  "outcome (replace_address run ns i cidr) (\<lambda>_ s'. same s s') (\<lambda>_ s'. same s s') s"
  "outcome (replace_route run ns dst via) (\<lambda>_ s'. same s s') (\<lambda>_ s'. same s s') s"
  "outcome (attach_to_bridge run ns i bridge) (\<lambda>_ s'. same s s') (\<lambda>_ s'. same s s') s"
  "outcome (set_link_up run ns i) (\<lambda>_ s'. same s s') (\<lambda>_ s'. same s s') s"
  by (auto simp: replace_address_def replace_route_def attach_to_bridge_def set_link_up_def same_def
      intro!: checked dest!: configure_argv)

lemma ensure_namespaces_outcome:
  "outcome (ensure_namespaces run v)
     (\<lambda>_ s'. nss s' = nss s \<union> lab_namespaces v \<and> links s \<subseteq> links s')
     (\<lambda>_ s'. nss s \<subseteq> nss s' \<and> nss s' \<subseteq> nss s \<union> lab_namespaces v \<and> links s \<subseteq> links s') s"
  unfolding ensure_namespaces_def
proof (rule outcome_for_each [where I = "\<lambda>done s'. nss s' = nss s \<union> ns_name ` set done \<and> links s \<subseteq> links s'"],
    goal_cases)
  case (2 "done" n s1)
  show ?case
    using 2 by (intro outcome_mono [OF ensure_namespace_outcome]) (auto simp: same_def subset_iff)
qed simp

lemma destroy_namespaces_outcome:
  "outcome (destroy_namespaces run v)
     (\<lambda>_ s'. nss s' = nss s - lab_namespaces v \<and> links s' \<subseteq> links s)
     (\<lambda>_ s'. nss s' \<subseteq> nss s \<and> nss s - lab_namespaces v \<subseteq> nss s' \<and> links s' \<subseteq> links s) s"
proof -
  let ?ns = "rev (tc_namespaces (vt_topology v))"
  have "outcome (destroy_namespaces run v)
     (\<lambda>_ s'. nss s' = nss s - ns_name ` set ?ns \<and> links s' \<subseteq> links s)
     (\<lambda>_ s'. nss s' \<subseteq> nss s \<and> nss s - lab_namespaces v \<subseteq> nss s' \<and> links s' \<subseteq> links s) s"
    unfolding destroy_namespaces_def
  proof (rule outcome_for_each [where I = "\<lambda>done s'. nss s' = nss s - ns_name ` set done \<and> links s' \<subseteq> links s"],
      goal_cases)
    case (2 "done" n s1)
    show ?case
      using 2 by (intro outcome_mono [OF delete_namespace_outcome]) (auto simp: same_def subset_iff)
  qed simp
  then show ?thesis by simp
qed

lemma optional_address_outcome:
  "outcome (optional_address run r ip) (\<lambda>_ s'. same s s') (\<lambda>_ s'. same s s') s"
  by (cases ip) (auto simp: optional_address_def exec_simps same_def configure_outcome [unfolded same_def])

lemma ensure_link_outcome:
  "outcome (ensure_link run l)
     (\<lambda>_ s'. nss s' = nss s \<and> links s' = links s \<union> {split_ref (lk_a l), split_ref (lk_b l)})
     (\<lambda>_ s'. nss s' = nss s \<and> links s \<subseteq> links s') s"
  unfolding ensure_link_def outcome_then
  by (rule outcome_mono [OF ensure_veth_pair_outcome])
    (auto simp: same_def intro!: outcome_mono [OF optional_address_outcome])

lemma ensure_links_outcome:
  "outcome (ensure_links run v)
     (\<lambda>_ s'. nss s' = nss s \<and> links s' = links s \<union> lab_ends v)
     (\<lambda>_ s'. nss s' = nss s \<and> links s \<subseteq> links s') s"
  unfolding ensure_links_def
proof (rule outcome_for_each [where I = "\<lambda>done s'. nss s' = nss s \<and>
      links s' = links s \<union> (\<Union>l \<in> set done. {split_ref (lk_a l), split_ref (lk_b l)})"], goal_cases)
  case (2 "done" l s1)
  show ?case
    using 2 by (intro outcome_mono [OF ensure_link_outcome]) auto
qed simp

lemma ensure_bridges_outcome:
  "outcome (ensure_bridges run v)
     (\<lambda>_ s'. nss s' = nss s \<and> links s' = links s \<union> lab_bridges v)
     (\<lambda>_ s'. nss s' = nss s \<and> links s \<subseteq> links s') s"
  unfolding ensure_bridges_def outcome_then
  by (rule outcome_mono [OF ensure_bridge_outcome])
    (auto simp: same_def intro!: outcome_mono [OF ensure_bridge_outcome])

lemma same_loop:
  assumes "\<And>x s. x \<in> set xs \<Longrightarrow> outcome (f x) (\<lambda>_ s'. same s s') (\<lambda>_ s'. same s s') s"
  shows "outcome (for_each f xs) (\<lambda>_ s'. same s s') (\<lambda>_ s'. same s s') s"
proof (rule outcome_for_each [where I = "\<lambda>_ s'. same s s'"], goal_cases)
  case (2 "done" x s1)
  show ?case
    using 2 by (intro outcome_mono [OF assms]) (auto simp: same_def)
qed (simp add: same_def)

lemma bring_link_endpoints_up_outcome:
  "outcome (bring_link_endpoints_up run v) (\<lambda>_ s'. same s s') (\<lambda>_ s'. same s s') s"
  unfolding bring_link_endpoints_up_def
  by (rule same_loop, unfold outcome_then, rule outcome_mono [OF configure_outcome(4)])
    (auto simp: same_def intro!: outcome_mono [OF configure_outcome(4)])

lemma ensure_routes_outcome:
  "outcome (ensure_routes run v) (\<lambda>_ s'. same s s') (\<lambda>_ s'. same s s') s"
  unfolding ensure_routes_def by (rule same_loop) (rule configure_outcome)

lemma delete_loop:
  "outcome (for_each (\<lambda>x. delete_link run (ns x) (i x)) xs)
     (\<lambda>_ s'. nss s' = nss s \<and> links s' \<subseteq> links s - (\<lambda>x. (ns x, i x)) ` set xs)
     (\<lambda>_ s'. nss s' = nss s \<and> links s' \<subseteq> links s) s"
proof (rule outcome_for_each [where I = "\<lambda>done s'. nss s' = nss s \<and>
      links s' \<subseteq> links s - (\<lambda>x. (ns x, i x)) ` set done"], goal_cases)
  case (2 "done" x s1)
  show ?case
    using 2 by (intro outcome_mono [OF delete_link_outcome]) (auto simp: same_def)
qed simp

lemma destroy_links_and_bridges_outcome:
  "outcome (destroy_links_and_bridges run v)
     (\<lambda>_ s'. nss s' = nss s \<and>
        links s' \<subseteq> links s - lab_bridges v - (\<lambda>l. split_ref (lk_a l)) ` set (tc_links (vt_topology v)))
     (\<lambda>_ s'. nss s' = nss s \<and> links s' \<subseteq> links s) s"
  unfolding destroy_links_and_bridges_def outcome_then
  by (rule outcome_mono [OF delete_loop])
    (auto intro!: outcome_mono [OF delete_loop])

end

section \<open>A host with a clock\<close>

text \<open>
  Commands take time, and interfaces may appear while the controller waits or looks at the clock, as
  the TAP interfaces of the datapath do.
\<close>

locale lab_host = ip_host run nss links + steady_clock clk time
  for run :: "'s runner" and nss links and clk :: "'s clock" and time +
  assumes run_takes_time: "time s \<le> time (snd (run argv s))"
    and read_frame: "nss (snd (clk_monotonic clk s)) = nss s \<and> links s \<subseteq> links (snd (clk_monotonic clk s))"
    and sleep_frame: "nss (clk_sleep clk d s) = nss s \<and> links s \<subseteq> links (clk_sleep clk d s)"
begin

lemma link_exists_timed:
  "outcome (link_exists run ns i)
     (\<lambda>b s'. time s \<le> time s' \<and> same s s' \<and> (b \<longrightarrow> (ns, i) \<in> links s')) (\<lambda>_ s'. same s s') s"
proof -
  have "outcome (link_exists run ns i) (\<lambda>_ s'. time s \<le> time s') (\<lambda>_ _. True) s"
    using run_takes_time [of s "ip_argv (Some ns) [''link'', ''show'', ''dev'', i]"]
    by (auto simp: link_exists_def run_ip_def exec_simps Let_def split: prod.splits sum.splits)
  moreover have "outcome (link_exists run ns i)
      (\<lambda>b s'. same s s' \<and> (b \<longrightarrow> (ns, i) \<in> links s')) (\<lambda>_ s'. same s s') s"
    by (rule link_exists_outcome) (auto simp: same_def)
  ultimately show ?thesis by (rule outcome_mono [OF outcome_conj]) auto
qed

lemma wait_for_tap_outcome:
  assumes "0 < timeout" and "0 < interval"
  shows "outcome (wait_for_tap run clk timeout interval ns i)
     (\<lambda>_ s'. (nss s' = nss s \<and> links s \<subseteq> links s') \<and> (ns, i) \<in> links s')
     (\<lambda>_ s'. nss s' = nss s \<and> links s \<subseteq> links s') s"
  unfolding wait_for_tap_def
proof (rule wait_until_outcome [OF assms, where I = "\<lambda>s'. nss s' = nss s \<and> links s \<subseteq> links s'"],
    goal_cases)
  case (2 s1)
  then show ?case by (intro outcome_mono [OF link_exists_timed]) (auto simp: same_def)
next
  case (3 s1)
  then show ?case using read_frame [of s1] by auto
next
  case (4 s1)
  then show ?case using sleep_frame [of interval s1] by auto
qed auto

lemma reconcile_taps_outcome:
  assumes "0 < timeout" and "0 < interval"
  shows "outcome (reconcile_taps run clk timeout interval v)
     (\<lambda>_ s'. nss s' = nss s \<and> links s \<subseteq> links s' \<and>
        (\<forall>role p. port_name_for_role v role = Inr p \<longrightarrow> (dpdk_namespace_of v, p) \<in> links s'))
     (\<lambda>_ s'. nss s' = nss s \<and> links s \<subseteq> links s') s"
proof (cases "port_name_for_role v Role_ingress"; cases "port_name_for_role v Role_egress")
  fix p q assume p: "port_name_for_role v Role_ingress = Inr p" and q: "port_name_for_role v Role_egress = Inr q"
  let ?ns = "dpdk_namespace_of v"
  have ports: "(\<forall>role p'. port_name_for_role v role = Inr p' \<longrightarrow> (?ns, p') \<in> L) \<longleftrightarrow>
      (?ns, p) \<in> L \<and> (?ns, q) \<in> L" for L
    using p q by (metis PortRole.exhaust sum.inject(2))
  have wait: "outcome (for_each (wait_for_tap run clk timeout interval ?ns) [p, q])
      (\<lambda>_ s'. (nss s' = nss s \<and> links s \<subseteq> links s') \<and> (?ns, p) \<in> links s' \<and> (?ns, q) \<in> links s')
      (\<lambda>_ s'. nss s' = nss s \<and> links s \<subseteq> links s') s"
    unfolding for_each.simps outcome_then
    by (rule outcome_mono [OF wait_for_tap_outcome [OF assms]])
      (auto simp: exec_simps subset_iff intro!: outcome_mono [OF wait_for_tap_outcome [OF assms]])
  let ?G = "\<lambda>s'. nss s' = nss s \<and> links s \<subseteq> links s' \<and> (?ns, p) \<in> links s' \<and> (?ns, q) \<in> links s'"
  and ?E = "\<lambda>_ :: exn. \<lambda>s'. nss s' = nss s \<and> links s \<subseteq> links s'"
  have attach: "?G s1 \<Longrightarrow> outcome (attach_to_bridge run ?ns i b) (\<lambda>_. ?G) ?E s1" for i b s1
    by (rule outcome_mono [OF configure_outcome(3)]) (auto simp: same_def)
  have up: "?G s1 \<Longrightarrow> outcome (for_each (set_link_up run ?ns) is) (\<lambda>_. ?G) ?E s1" for "is" s1
    by (rule outcome_mono [OF same_loop [OF configure_outcome(4)]]) (auto simp: same_def)
  have rest: "?G s1 \<Longrightarrow> outcome
      (then_do (attach_to_bridge run ?ns i1 b1) (then_do (attach_to_bridge run ?ns i2 b2)
      (then_do (attach_to_bridge run ?ns i3 b3) (then_do (attach_to_bridge run ?ns i4 b4)
        (for_each (set_link_up run ?ns) is))))) (\<lambda>_. ?G) ?E s1" for i1 i2 i3 i4 b1 b2 b3 b4 "is" s1
    by (rule outcome_then_inv [where G = ?G], assumption, rule attach, assumption)+ (rule up)
  show ?thesis
    unfolding reconcile_taps_def Let_def outcome_bind outcome_lift_sum p q sum.case ports
    by (subst outcome_then, rule outcome_mono [OF wait]) (rule rest, auto)
qed (simp_all add: reconcile_taps_def Let_def outcome_bind outcome_lift_sum)

end

end
