(* ===== verification/Frames.thy ===== *)
theory Frames
  imports Topology_Ops
begin

text \<open>
  Partial correctness, for what a program does in any environment, also one in which it may not
  return: \<open>safely m Q E s\<close> is \<open>outcome m Q E s\<close> without the promise to return. A program
  \<open>keeps\<close> a predicate when it holds after every run that starts with it, also one that ends with
  an exception. The rules below give this for every operation on the host: each keeps what the command runner
  and the clock keep.
\<close>

named_theorems keeps_intros \<open>programs that keep a predicate\<close>

definition safely ::
  "('s, 'a) prog \<Rightarrow> ('a \<Rightarrow> 's \<Rightarrow> bool) \<Rightarrow> (exn \<Rightarrow> 's \<Rightarrow> bool) \<Rightarrow> 's \<Rightarrow> bool" where
  "safely m Q E s \<longleftrightarrow> m s = None \<or> outcome m Q E s"

definition keeps :: "('s \<Rightarrow> bool) \<Rightarrow> ('s, 'a) prog \<Rightarrow> bool" where
  "keeps I m \<longleftrightarrow> (\<forall>s. I s \<longrightarrow> safely m (\<lambda>_. I) (\<lambda>_. I) s)"

section \<open>Rules\<close>

lemma outcome_safely: "outcome m Q E s \<Longrightarrow> safely m Q E s"
  by (simp add: safely_def)

lemma safely_run: "safely m Q E s \<Longrightarrow> m s = Some (r, s') \<Longrightarrow> case r of Inl e \<Rightarrow> E e s' | Inr x \<Rightarrow> Q x s'"
  by (auto simp: safely_def outcome_def split: sum.splits)

lemma safelyI: "(\<And>r s'. m s = Some (r, s') \<Longrightarrow> case r of Inl e \<Rightarrow> E e s' | Inr x \<Rightarrow> Q x s') \<Longrightarrow> safely m Q E s"
  by (cases "m s") (auto simp: safely_def outcome_def split: sum.splits)

lemma safely_mono:
  assumes "safely m Q E s" and "\<And>x s'. Q x s' \<Longrightarrow> Q' x s'" and "\<And>e s'. E e s' \<Longrightarrow> E' e s'"
  shows "safely m Q' E' s"
  using assms outcome_mono [of m Q E s Q' E'] by (auto simp: safely_def)

lemma safely_ret [exec_simps]: "safely (ret x) Q E s \<longleftrightarrow> Q x s"
  by (simp add: safely_def exec_simps) (simp add: ret_def)

lemma safely_raise [exec_simps]: "safely (raise e) Q E s \<longleftrightarrow> E e s"
  by (simp add: safely_def exec_simps) (simp add: raise_def)

lemma safely_bind [exec_simps]:
  "safely (bind m k) Q E s \<longleftrightarrow> safely m (\<lambda>x. safely (k x) Q E) E s"
  by (auto simp: safely_def outcome_def bind_def split: option.splits sum.splits)

lemma safely_then [exec_simps]:
  "safely (then_do m k) Q E s \<longleftrightarrow> safely m (\<lambda>_. safely k Q E) E s"
  by (simp add: then_do_def safely_bind)

lemma safely_attempt [exec_simps]:
  "safely (attempt m) Q E s \<longleftrightarrow> safely m (\<lambda>x. Q (Inr x)) (\<lambda>e. Q (Inl e)) s"
  by (auto simp: safely_def outcome_def attempt_def split: option.splits sum.splits)

lemma safely_lift_sum [exec_simps]:
  "safely (lift_sum r) Q E s \<longleftrightarrow> (case r of Inl e \<Rightarrow> E e s | Inr x \<Rightarrow> Q x s)"
  by (simp add: safely_def outcome_lift_sum) (simp add: lift_sum_def)

lemma safely_step [exec_simps]:
  "safely (step f) Q E s \<longleftrightarrow> (case f s of (Inl e, s') \<Rightarrow> E e s' | (Inr x, s') \<Rightarrow> Q x s')"
  by (simp add: safely_def outcome_step) (simp add: step_def)

lemma safely_on_snd [exec_simps]:
  "safely (on_snd m) Q E (c, s) \<longleftrightarrow> safely m (\<lambda>x s'. Q x (c, s')) (\<lambda>e s'. E e (c, s')) s"
  by (simp add: safely_def outcome_on_snd) (auto simp: on_snd_def)

lemma safely_get_fst [exec_simps]: "safely get_fst Q E (c, s) \<longleftrightarrow> Q c (c, s)"
  by (simp add: safely_def outcome_get_fst) (simp add: get_fst_def)

lemma safely_put_fst [exec_simps]: "safely (put_fst c') Q E (c, s) \<longleftrightarrow> Q () (c', s)"
  by (simp add: safely_def outcome_put_fst) (simp add: put_fst_def)

section \<open>Predicates that are kept\<close>

lemma keepsD: "keeps I m \<Longrightarrow> I s \<Longrightarrow> safely m (\<lambda>_. I) (\<lambda>_. I) s"
  by (simp add: keeps_def)

lemma keeps_run: "keeps I m \<Longrightarrow> I s \<Longrightarrow> m s = Some (r, s') \<Longrightarrow> I s'"
  by (drule (1) keepsD, drule (1) safely_run) (simp split: sum.splits)

lemma keeps_ret [keeps_intros]: "keeps I (ret x)"
  and keeps_raise [keeps_intros]: "keeps I (raise e)"
  and keeps_lift_sum [keeps_intros]: "keeps I (lift_sum r)"
  by (auto simp: keeps_def exec_simps split: sum.splits)

lemma keeps_bind [keeps_intros]: "keeps I m \<Longrightarrow> (\<And>x. keeps I (k x)) \<Longrightarrow> keeps I (bind m k)"
  unfolding keeps_def safely_bind by (blast intro: safely_mono)

lemma keeps_then [keeps_intros]: "keeps I m \<Longrightarrow> keeps I k \<Longrightarrow> keeps I (then_do m k)"
  unfolding then_do_def by (rule keeps_bind)

lemma keeps_attempt [keeps_intros]: "keeps I m \<Longrightarrow> keeps I (attempt m)"
  by (simp add: keeps_def safely_attempt)

lemma keeps_if [keeps_intros]: "keeps I m \<Longrightarrow> keeps I m' \<Longrightarrow> keeps I (if b then m else m')"
  by simp

lemma keeps_case_option [keeps_intros]:
  "keeps I m \<Longrightarrow> (\<And>x. keeps I (k x)) \<Longrightarrow> keeps I (case v of None \<Rightarrow> m | Some x \<Rightarrow> k x)"
  by (cases v) simp_all

lemma keeps_case_sum [keeps_intros]:
  "(\<And>x. keeps I (f x)) \<Longrightarrow> (\<And>x. keeps I (g x)) \<Longrightarrow> keeps I (case v of Inl x \<Rightarrow> f x | Inr x \<Rightarrow> g x)"
  by (cases v) simp_all

lemma keeps_for_each [keeps_intros]: "(\<And>x. keeps I (f x)) \<Longrightarrow> keeps I (for_each f xs)"
  by (induction xs) (simp_all add: keeps_ret keeps_then)

lemma keeps_executor_run [keeps_intros]:
  assumes "\<And>s. I s \<Longrightarrow> I (snd (run argv s))"
  shows "keeps I (executor_run run argv allowed)"
  using assms unfolding executor_run_def keeps_def safely_bind safely_step
  by (auto simp: exec_simps Let_def split: prod.splits sum.splits) (metis snd_conv)+

lemma poll_loop_kept:
  assumes "poll_loop clk body deadline interval s = Some rs"
  shows "I s \<longrightarrow> keeps I body \<longrightarrow> (\<forall>s. I s \<longrightarrow> I (snd (clk_monotonic clk s))) \<longrightarrow>
    (\<forall>s. I s \<longrightarrow> I (clk_sleep clk interval s)) \<longrightarrow> I (snd rs)"
proof (rule poll_loop.raw_induct [where P = "\<lambda>clk body deadline interval s rs.
      I s \<longrightarrow> keeps I body \<longrightarrow> (\<forall>s. I s \<longrightarrow> I (snd (clk_monotonic clk s))) \<longrightarrow>
      (\<forall>s. I s \<longrightarrow> I (clk_sleep clk interval s)) \<longrightarrow> I (snd rs)", OF _ assms], intro impI, goal_cases)
  case loop: (1 again clk body deadline interval s rs)
  show ?case
  proof (cases "fst (clk_monotonic clk s) < deadline")
    case False
    with loop show ?thesis by auto
  next
    case True
    with loop obtain r s1 where b: "body (snd (clk_monotonic clk s)) = Some (r, s1)"
      by (cases "body (snd (clk_monotonic clk s))") auto
    then have "I s1" using loop keeps_run [of I body] by blast
    moreover have "I (snd rs)" if "again clk body deadline interval (clk_sleep clk interval s1) = Some rs"
      using loop(1) [OF that] loop \<open>I s1\<close> by blast
    ultimately show ?thesis using loop(2) True b by (auto split: sum.splits option.splits)
  qed
qed

lemma keeps_poll_loop:
  assumes "keeps I body"
    and "\<And>s. I s \<Longrightarrow> I (snd (clk_monotonic clk s))" and "\<And>s. I s \<Longrightarrow> I (clk_sleep clk interval s)"
  shows "keeps I (poll_loop clk body deadline interval)"
  unfolding keeps_def
proof (intro allI impI safelyI)
  fix s r s' assume "I s" "poll_loop clk body deadline interval s = Some (r, s')"
  with poll_loop_kept [of clk body deadline interval s "(r, s')" I] assms
  show "case r of Inl e \<Rightarrow> I s' | Inr x \<Rightarrow> I s'" by (simp split: sum.split)
qed

lemma keeps_on_snd: "keeps I m \<Longrightarrow> keeps (\<lambda>cs. I (snd cs)) (on_snd m)"
  by (auto simp: keeps_def safely_on_snd)

lemma safely_keeps_conj:
  assumes "safely m Q E s" and "keeps I m" and "I s"
  shows "safely m (\<lambda>x s. Q x s \<and> I s) (\<lambda>e s. E e s \<and> I s) s"
  using assms keepsD [OF assms(2,3)] by (auto simp: safely_def outcome_conj)

lemma keeps_both:
  assumes "keeps I m" and "keeps J m"
  shows "keeps (\<lambda>s. I s \<and> J s) m"
  unfolding keeps_def
proof (intro allI impI)
  fix s assume "I s \<and> J s"
  then show "safely m (\<lambda>_ s. I s \<and> J s) (\<lambda>_ s. I s \<and> J s) s"
    using safely_keeps_conj [OF keepsD [OF assms(1)] assms(2)] by simp
qed

lemma outcome_keeps:
  assumes "outcome m Q E s" and "keeps I m" and "I s"
  shows "outcome m (\<lambda>x s. Q x s \<and> I s) (\<lambda>e s. E e s \<and> I s) s"
  using assms keepsD [OF assms(2,3)] by (auto simp: safely_def intro: outcome_conj dest: outcome_returns)

section \<open>The operations on the host\<close>

lemma keeps_step [keeps_intros]: "(\<And>s. I s \<Longrightarrow> I (snd (f s))) \<Longrightarrow> keeps I (step f)"
  by (auto simp: keeps_def safely_step split: prod.splits sum.splits) (metis snd_conv)+

text \<open>What a command runner and a clock leave alone, the topology operations leave alone.\<close>

locale untouched =
  fixes I :: "'s \<Rightarrow> bool" and run :: "'s runner" and clk :: "'s clock"
  assumes run_keeps: "I s \<Longrightarrow> I (snd (run argv s))"
    and clock_keeps: "I s \<Longrightarrow> I (snd (clk_monotonic clk s))"
    and sleep_keeps: "I s \<Longrightarrow> I (clk_sleep clk d s)"
begin

lemma keeps_run_ip: "keeps I (run_ip run arguments namespace allowed)"
  unfolding run_ip_def by (intro keeps_intros run_keeps)

lemmas netns_defs = run_ip_checked_def list_namespaces_def namespace_exists_def ensure_namespace_def
  delete_namespace_def link_exists_def ensure_veth_pair_def delete_link_def ensure_bridge_def
  replace_address_def replace_route_def attach_to_bridge_def set_link_up_def

lemma keeps_link_exists: "keeps I (link_exists run ns i)"
  unfolding link_exists_def by (intro keeps_intros keeps_run_ip)

lemma keeps_wait_until:
  "keeps I predicate \<Longrightarrow> keeps I (wait_until clk predicate description timeout interval)"
  unfolding wait_until_def read_clock_def
  by (intro keeps_intros keeps_poll_loop clock_keeps sleep_keeps)
    (auto intro: clock_keeps split: prod.split dest: clock_keeps)

lemma keeps_destroy_links: "keeps I (destroy_links_and_bridges run v)"
  and keeps_destroy_namespaces: "keeps I (destroy_namespaces run v)"
  and keeps_ensure_namespaces: "keeps I (ensure_namespaces run v)"
  and keeps_ensure_links: "keeps I (ensure_links run v)"
  and keeps_ensure_bridges: "keeps I (ensure_bridges run v)"
  and keeps_links_up: "keeps I (bring_link_endpoints_up run v)"
  and keeps_ensure_routes: "keeps I (ensure_routes run v)"
  unfolding destroy_links_and_bridges_def destroy_namespaces_def ensure_namespaces_def ensure_links_def
    ensure_link_def optional_address_def ensure_bridges_def bring_link_endpoints_up_def ensure_routes_def
    netns_defs Let_def
  by (intro keeps_intros keeps_run_ip)+

lemma keeps_reconcile_taps: "keeps I (reconcile_taps run clk timeout interval v)"
  unfolding reconcile_taps_def wait_for_tap_def attach_to_bridge_def set_link_up_def run_ip_checked_def
    Let_def
  by (intro keeps_intros keeps_run_ip keeps_wait_until keeps_link_exists)

lemmas keeps_host = keeps_destroy_links keeps_destroy_namespaces keeps_ensure_namespaces
  keeps_ensure_links keeps_ensure_bridges keeps_links_up keeps_ensure_routes keeps_reconcile_taps

end

end
