(* ===== verification/Config_Load.thy ===== *)
theory Config_Load
  imports Ctrl_Types Frames
begin

text \<open>
  Reading configuration documents (\<open>ctrld/pktlab_ctrld/config/topology.py\<close> and
  \<open>config/rules.py\<close>). The file system, the YAML reader and pydantic's model validation are the
  parameter \<open>config_env\<close>. A YAML document is seen only as far as the code looks at it: nothing,
  a mapping (whose contents only the models read) or a value of another type with the name of that type.
\<close>

section \<open>The environment\<close>

datatype 'y yaml_document = Doc_none | Doc_mapping 'y | Doc_other string

text \<open>\<open>yaml.safe_load\<close>: a document, a \<open>YAMLError\<close> with its text, or another exception a
  constructor of the reader raises.\<close>

datatype 'y yaml_result = Yaml_value "'y yaml_document" | Yaml_error string | Yaml_raises exn

datatype loc_part = Loc_name string | Loc_index int

record error_item =
  ei_loc :: "loc_part list"
  ei_type :: string
  ei_msg :: string

record ('w, 'y) config_env =
  cf_read_text :: "string \<Rightarrow> 'w \<Rightarrow> (exn + string) \<times> 'w"
  cf_safe_load :: "string \<Rightarrow> 'y yaml_result"
  cf_topology_validate :: "'y \<Rightarrow> error_item list + TopologyConfigModel"
  cf_rules_validate :: "'y \<Rightarrow> error_item list + RulesetModel"

text \<open>\<open>str(Path(path))\<close> of a POSIX path: empty and \<open>.\<close> components go, and of several leading
  slashes one stays, except that exactly two stay.\<close>

definition path_root :: "string \<Rightarrow> string" where
  "path_root p =
     (let n = length (takeWhile (\<lambda>c. c = CHR ''/'') p) in
      if n = 0 then [] else if n = 2 then ''//'' else ''/'')"

definition path_parts :: "string \<Rightarrow> string list" where
  "path_parts p = filter (\<lambda>s. s \<noteq> [] \<and> s \<noteq> ''.'') (str_split (CHR ''/'') p)"

definition path_str :: "string \<Rightarrow> string" where
  "path_str p =
     (if path_root p = [] \<and> path_parts p = [] then ''.''
      else path_root p @ str_join ''/'' (path_parts p))"

section \<open>Shared by both documents\<close>

fun loc_part_str :: "loc_part \<Rightarrow> string" where
  "loc_part_str (Loc_name s) = s"
| "loc_part_str (Loc_index i) = str_of_int i"

definition issue_path :: "error_item \<Rightarrow> string" where
  "issue_path item =
     (let path = str_join ''.'' (map loc_part_str (ei_loc item)) in if path = [] then ''$'' else path)"

definition serialize_pydantic_errors :: "error_item list \<Rightarrow> pyval list" where
  "serialize_pydantic_errors items =
     map (\<lambda>item. PDict [(''path'', PStr (issue_path item)), (''code'', PStr (ei_type item)),
       (''message'', PStr (ei_msg item))]) items"

definition parse_error :: "string \<Rightarrow> pydict \<Rightarrow> exn" where
  "parse_error message context = Pktlab (mk_ConfigParseError message (Some context))"

definition load_yaml_mapping ::
  "('w, 'y) config_env \<Rightarrow> string \<Rightarrow> string \<Rightarrow> string \<Rightarrow> exn + 'y" where
  "load_yaml_mapping env text source document_name =
     (case cf_safe_load env text of
        Yaml_error detail \<Rightarrow>
          Inl (parse_error (document_name @ '' YAML could not be parsed'')
            [(''source'', PStr source), (''detail'', PStr detail)])
      | Yaml_raises e \<Rightarrow> Inl e
      | Yaml_value Doc_none \<Rightarrow> Inl (parse_error (document_name @ '' is empty'') [(''source'', PStr source)])
      | Yaml_value (Doc_other type_name) \<Rightarrow>
          Inl (parse_error (document_name @ '' must be a mapping at the document root'')
            [(''source'', PStr source), (''root_type'', PStr type_name)])
      | Yaml_value (Doc_mapping payload) \<Rightarrow> Inr payload)"

section \<open>Topologies\<close>

definition parse_topology_config_text ::
  "('w, 'y) config_env \<Rightarrow> string \<Rightarrow> string \<Rightarrow> exn + TopologyConfigModel" where
  "parse_topology_config_text env text source =
     (case load_yaml_mapping env text source ''topology config'' of
        Inl e \<Rightarrow> Inl e
      | Inr payload \<Rightarrow>
          (case cf_topology_validate env payload of
             Inl items \<Rightarrow>
               Inl (parse_error ''topology config structure is invalid''
                 [(''source'', PStr source), (''issues'', PList (serialize_pydantic_errors items))])
           | Inr model \<Rightarrow> Inr model))"

definition load_topology_config ::
  "('w, 'y) config_env \<Rightarrow> string \<Rightarrow> ('w, TopologyConfigModel) prog" where
  "load_topology_config env path =
     (let source_path = path_str path in
      bind (attempt (step (cf_read_text env source_path))) (\<lambda>r.
        case r of
          Inl (PyOSError kind detail) \<Rightarrow>
            raise (parse_error ''unable to read topology config''
              [(''source'', PStr source_path), (''detail'', PStr detail)])
        | Inl e \<Rightarrow> raise e
        | Inr text \<Rightarrow> lift_sum (parse_topology_config_text env text source_path)))"

section \<open>Rule sets\<close>

text \<open>\<open>config/rules.py\<close> has its own copies of the two helpers.\<close>

definition rules_load_yaml_mapping ::
  "('w, 'y) config_env \<Rightarrow> string \<Rightarrow> string \<Rightarrow> string \<Rightarrow> exn + 'y" where
  "rules_load_yaml_mapping env text source document_name =
     (case cf_safe_load env text of
        Yaml_error detail \<Rightarrow>
          Inl (parse_error (document_name @ '' YAML could not be parsed'')
            [(''source'', PStr source), (''detail'', PStr detail)])
      | Yaml_raises e \<Rightarrow> Inl e
      | Yaml_value Doc_none \<Rightarrow> Inl (parse_error (document_name @ '' is empty'') [(''source'', PStr source)])
      | Yaml_value (Doc_other type_name) \<Rightarrow>
          Inl (parse_error (document_name @ '' must be a mapping at the document root'')
            [(''source'', PStr source), (''root_type'', PStr type_name)])
      | Yaml_value (Doc_mapping payload) \<Rightarrow> Inr payload)"

definition rules_serialize_pydantic_errors :: "error_item list \<Rightarrow> pyval list" where
  "rules_serialize_pydantic_errors items =
     map (\<lambda>item. PDict [(''path'', PStr (issue_path item)), (''code'', PStr (ei_type item)),
       (''message'', PStr (ei_msg item))]) items"

lemma rules_helpers_agree [simp]:
  "rules_load_yaml_mapping = load_yaml_mapping" "rules_serialize_pydantic_errors = serialize_pydantic_errors"
  by (auto simp: fun_eq_iff rules_load_yaml_mapping_def load_yaml_mapping_def rules_serialize_pydantic_errors_def
      serialize_pydantic_errors_def)

definition parse_rules_config_text ::
  "('w, 'y) config_env \<Rightarrow> string \<Rightarrow> string \<Rightarrow> exn + RulesetModel" where
  "parse_rules_config_text env text source =
     (case rules_load_yaml_mapping env text source ''rules config'' of
        Inl e \<Rightarrow> Inl e
      | Inr payload \<Rightarrow>
          (case cf_rules_validate env payload of
             Inl items \<Rightarrow>
               Inl (parse_error ''rules config structure is invalid''
                 [(''source'', PStr source), (''issues'', PList (rules_serialize_pydantic_errors items))])
           | Inr model \<Rightarrow> Inr model))"

definition load_rules_config ::
  "('w, 'y) config_env \<Rightarrow> string \<Rightarrow> ('w, RulesetModel) prog" where
  "load_rules_config env path =
     (let source_path = path_str path in
      bind (attempt (step (cf_read_text env source_path))) (\<lambda>r.
        case r of
          Inl (PyOSError kind detail) \<Rightarrow>
            raise (parse_error ''unable to read rules config''
              [(''source'', PStr source_path), (''detail'', PStr detail)])
        | Inl e \<Rightarrow> raise e
        | Inr text \<Rightarrow> lift_sum (parse_rules_config_text env text source_path)))"

section \<open>What a loader promises\<close>

text \<open>An error of the loader for a document of this source.\<close>

definition reports_source :: "string \<Rightarrow> exn \<Rightarrow> bool" where
  "reports_source source e \<longleftrightarrow>
     (\<exists>err. e = Pktlab err \<and> err_class err = ConfigParseErrorClass \<and> err_code err = CONFIG_PARSE_ERROR \<and>
        map_of (err_context err) ''source'' = Some (PStr source))"

lemma parse_error_reports: "reports_source source (parse_error message ((''source'', PStr source) # context))"
  by (simp add: reports_source_def parse_error_def mk_ConfigParseError_def mk_PktlabError_def)

lemma load_yaml_mapping_cases:
  "(\<exists>y. cf_safe_load env text = Yaml_value (Doc_mapping y) \<and>
        load_yaml_mapping env text source name = Inr y) \<or>
   (\<exists>e. load_yaml_mapping env text source name = Inl e \<and>
        (reports_source source e \<or> cf_safe_load env text = Yaml_raises e))"
  by (auto simp: load_yaml_mapping_def parse_error_reports split: yaml_result.split yaml_document.split)

text \<open>
  Both documents are loaded alike: the text of the file, its mapping and then the model. The contract is
  proved once for a loader of this form.
\<close>

locale document_loader =
  fixes env :: "('w, 'y) config_env"
    and validate :: "'y \<Rightarrow> error_item list + 'm"
    and parse :: "string \<Rightarrow> string \<Rightarrow> exn + 'm"
    and load :: "string \<Rightarrow> ('w, 'm) prog"
    and name unreadable malformed :: string
  assumes parse_eq: "parse text source =
      (case load_yaml_mapping env text source name of
         Inl e \<Rightarrow> Inl e
       | Inr payload \<Rightarrow>
           (case validate payload of
              Inl items \<Rightarrow> Inl (parse_error malformed
                [(''source'', PStr source), (''issues'', PList (serialize_pydantic_errors items))])
            | Inr model \<Rightarrow> Inr model))"
    and load_eq: "load path =
      bind (attempt (step (cf_read_text env (path_str path)))) (\<lambda>r.
        case r of
          Inl (PyOSError kind detail) \<Rightarrow>
            raise (parse_error unreadable [(''source'', PStr (path_str path)), (''detail'', PStr detail)])
        | Inl e \<Rightarrow> raise e
        | Inr text \<Rightarrow> lift_sum (parse text (path_str path)))"
begin

lemma parse_Inr_iff:
  "parse doc source = Inr m \<longleftrightarrow>
     (\<exists>y. cf_safe_load env doc = Yaml_value (Doc_mapping y) \<and> validate y = Inr m)"
  using load_yaml_mapping_cases [of env doc source name]
  by (auto simp: parse_eq load_yaml_mapping_def split: sum.splits yaml_result.splits yaml_document.splits)

lemma parse_Inl:
  assumes "parse doc source = Inl e"
  shows "reports_source source e \<or> cf_safe_load env doc = Yaml_raises e"
  using assms load_yaml_mapping_cases [of env doc source name]
  by (auto simp: parse_eq parse_error_reports split: sum.splits)

lemma load_outcome:
  "outcome (load path)
     (\<lambda>m w'. \<exists>text y. cf_read_text env (path_str path) w = (Inr text, w') \<and>
        cf_safe_load env text = Yaml_value (Doc_mapping y) \<and> validate y = Inr m)
     (\<lambda>e w'. w' = snd (cf_read_text env (path_str path) w) \<and>
        (reports_source (path_str path) e \<or>
         (fst (cf_read_text env (path_str path) w) = Inl e \<and> (\<forall>kind detail. e \<noteq> PyOSError kind detail)) \<or>
         (\<exists>text. fst (cf_read_text env (path_str path) w) = Inr text \<and> cf_safe_load env text = Yaml_raises e)))
     w"
  unfolding load_eq
  by (cases "cf_read_text env (path_str path) w")
    (auto simp: exec_simps parse_Inr_iff parse_error_reports split: sum.split exn.split dest: parse_Inl)

end

interpretation topology_document: document_loader env "cf_topology_validate env"
  "parse_topology_config_text env" "load_topology_config env" "''topology config''"
  "''unable to read topology config''" "''topology config structure is invalid''"
  by unfold_locales (rule parse_topology_config_text_def, simp add: load_topology_config_def Let_def)

interpretation rules_document: document_loader env "cf_rules_validate env"
  "parse_rules_config_text env" "load_rules_config env" "''rules config''"
  "''unable to read rules config''" "''rules config structure is invalid''"
  by unfold_locales (rule parse_rules_config_text_def [unfolded rules_helpers_agree], simp add: load_rules_config_def Let_def)

section \<open>Properties\<close>


end
