(* ===== verification/Ipc_Protocol.thy ===== *)
theory Ipc_Protocol
  imports Ctrl_Types "HOL-Library.Word"
begin

text \<open>
  The controller's side of the datapath IPC (\<open>ctrld/pktlab_ctrld/dpdk_client/\<close>:
  \<open>protocol.py\<close>, \<open>models.py\<close>, \<open>client.py\<close>): length-prefixed frames over a stream
  socket, the response envelope and the typed call on top of them.

  A connected socket is the sequence of what its \<open>recv\<close> will deliver: chunks of bytes, or a
  failure of the operating system; the end of the sequence is the end of the stream. The JSON
  decoder, pydantic's serialiser of a request and its validation of a command's payload are
  parameters. The two response envelopes are validated as their class definitions say.
\<close>

type_synonym byte = "8 word"

section \<open>The socket\<close>

datatype sock_event = Chunk "byte list" | RecvFail os_error string

type_synonym socket = "sock_event list"

text \<open>\<open>sock.recv(n)\<close>: at most \<open>n\<close> bytes of the next chunk; what is left of it stays.\<close>

fun recv :: "nat \<Rightarrow> socket \<Rightarrow> (exn + byte list) \<times> socket" where
  "recv n [] = (Inr [], [])"
| "recv n (RecvFail k m # s) = (Inl (PyOSError k m), s)"
| "recv n (Chunk bs # s) =
     (if length bs \<le> n then (Inr bs, s) else (Inr (take n bs), Chunk (drop n bs) # s))"

section \<open>Frames\<close>

definition MAX_FRAME_PAYLOAD_SIZE :: nat where
  "MAX_FRAME_PAYLOAD_SIZE = 16384"

definition FRAME_HEADER_SIZE :: nat where
  "FRAME_HEADER_SIZE = 4"

text \<open>\<open>struct.Struct(">I")\<close>: an unsigned 32-bit integer, most significant byte first.\<close>

definition header_pack :: "nat \<Rightarrow> byte list" where
  "header_pack n =
     [word_of_nat (n div 2 ^ 24), word_of_nat (n div 2 ^ 16), word_of_nat (n div 2 ^ 8), word_of_nat n]"

definition header_unpack :: "byte list \<Rightarrow> nat" where
  "header_unpack bs = foldl (\<lambda>acc b. acc * 256 + unat b) 0 bs"

definition frame_length_context :: "nat \<Rightarrow> pydict" where
  "frame_length_context n =
     [(''payload_length'', PInt (int n)),
      (''max_payload_length'', PInt (int (MAX_FRAME_PAYLOAD_SIZE - 1)))]"

definition frame_payload :: "byte list \<Rightarrow> exn + byte list" where
  "frame_payload payload =
     (let payload_length = length payload in
      if payload_length = 0 \<or> payload_length \<ge> MAX_FRAME_PAYLOAD_SIZE then
        Inl (Pktlab (mk_DatapathProtocolError
               ''request payload exceeds the supported IPC frame size''
               (Some (frame_length_context payload_length))))
      else Inr (header_pack payload_length @ payload))"

definition eof_error :: "nat \<Rightarrow> nat \<Rightarrow> exn" where
  "eof_error expected remaining =
     Pktlab (mk_DatapathProtocolError ''unexpected EOF while reading an IPC frame''
       (Some [(''expected_bytes'', PInt (int expected)), (''remaining_bytes'', PInt (int remaining))]))"

function read_loop ::
  "nat \<Rightarrow> nat \<Rightarrow> byte list list \<Rightarrow> socket \<Rightarrow> (exn + byte list) \<times> socket" where
  "read_loop expected remaining chunks s =
     (if remaining = 0 then (Inr (concat chunks), s)
      else
        (case recv remaining s of
           (Inl e, s') \<Rightarrow> (Inl e, s')
         | (Inr chunk, s') \<Rightarrow>
             if chunk = [] then (Inl (eof_error expected remaining), s')
             else read_loop expected (remaining - length chunk) (chunks @ [chunk]) s'))"
  by pat_completeness auto
termination
  by (relation "measure (\<lambda>(_, remaining, _, _). remaining)") auto

declare read_loop.simps [simp del]

definition read_exact :: "nat \<Rightarrow> socket \<Rightarrow> (exn + byte list) \<times> socket" where
  "read_exact expected s = read_loop expected expected [] s"

definition recv_frame :: "socket \<Rightarrow> (exn + byte list) \<times> socket" where
  "recv_frame s =
     (case read_exact FRAME_HEADER_SIZE s of
        (Inl e, s') \<Rightarrow> (Inl e, s')
      | (Inr header, s') \<Rightarrow>
          (let payload_length = header_unpack header in
           if payload_length = 0 \<or> payload_length \<ge> MAX_FRAME_PAYLOAD_SIZE then
             (Inl (Pktlab (mk_DatapathProtocolError ''received an invalid IPC frame length''
                     (Some (frame_length_context payload_length)))), s')
           else read_exact payload_length s'))"

section \<open>Requests and envelopes\<close>

datatype DatapathCommand =
    Cmd_ping | Cmd_get_version | Cmd_get_health | Cmd_get_ports | Cmd_get_stats | Cmd_reset_stats
  | Cmd_pause_datapath | Cmd_resume_datapath

fun DatapathCommand_value :: "DatapathCommand \<Rightarrow> string" where
  "DatapathCommand_value Cmd_ping = ''ping''"
| "DatapathCommand_value Cmd_get_version = ''get_version''"
| "DatapathCommand_value Cmd_get_health = ''get_health''"
| "DatapathCommand_value Cmd_get_ports = ''get_ports''"
| "DatapathCommand_value Cmd_get_stats = ''get_stats''"
| "DatapathCommand_value Cmd_reset_stats = ''reset_stats''"
| "DatapathCommand_value Cmd_pause_datapath = ''pause_datapath''"
| "DatapathCommand_value Cmd_resume_datapath = ''resume_datapath''"

datatype DatapathErrorCode =
    DEC_INVALID_REQUEST | DEC_INVALID_PAYLOAD | DEC_UNKNOWN_COMMAND | DEC_RULE_VALIDATION_ERROR
  | DEC_PORT_INIT_ERROR | DEC_STATE_CONFLICT | DEC_INTERNAL_ERROR

definition DatapathErrorCode_of :: "string \<Rightarrow> DatapathErrorCode option" where
  "DatapathErrorCode_of s =
     map_of [(''INVALID_REQUEST'', DEC_INVALID_REQUEST), (''INVALID_PAYLOAD'', DEC_INVALID_PAYLOAD),
       (''UNKNOWN_COMMAND'', DEC_UNKNOWN_COMMAND),
       (''RULE_VALIDATION_ERROR'', DEC_RULE_VALIDATION_ERROR),
       (''PORT_INIT_ERROR'', DEC_PORT_INIT_ERROR), (''STATE_CONFLICT'', DEC_STATE_CONFLICT),
       (''INTERNAL_ERROR'', DEC_INTERNAL_ERROR)] s"

text \<open>\<open>REQUEST_ID_PATTERN\<close> together with \<open>min_length=1\<close>.\<close>

definition request_id_char :: "char \<Rightarrow> bool" where
  "request_id_char c \<longleftrightarrow> (let n = (of_char c :: nat) in
     65 \<le> n \<and> n \<le> 90 \<or> 97 \<le> n \<and> n \<le> 122 \<or> char_isdecimal c \<or> c \<in> set ''._:-'')"

definition request_id_ok :: "string \<Rightarrow> bool" where
  "request_id_ok s \<longleftrightarrow> s \<noteq> [] \<and> list_all request_id_char s"

text \<open>The eight request classes differ in their \<open>cmd\<close> literal only; the payload is empty.\<close>

record RequestEnvelope =
  rq_id :: string
  rq_cmd :: DatapathCommand

definition mk_request :: "DatapathCommand \<Rightarrow> string \<Rightarrow> exn + RequestEnvelope" where
  "mk_request cmd i =
     (if request_id_ok i then Inr \<lparr>rq_id = i, rq_cmd = cmd\<rparr>
      else Inl (PydanticError ''RequestEnvelope''))"

record DatapathErrorModel =
  de_code :: DatapathErrorCode
  de_message :: string

datatype ResponseEnvelope =
    RawSuccessEnvelope (response_id: string) (success_payload: pydict)
  | RawErrorEnvelope (response_id: string) (response_error: DatapathErrorModel)

text \<open>The value of an id field: a string that matches the pattern.\<close>

definition id_field :: "pydict \<Rightarrow> string option" where
  "id_field raw =
     (case map_of raw ''id'' of
        Some (PStr i) \<Rightarrow> if request_id_ok i then Some i else None
      | _ \<Rightarrow> None)"

definition only_keys :: "string list \<Rightarrow> pydict \<Rightarrow> bool" where
  "only_keys ks raw \<longleftrightarrow> list_all (\<lambda>(k, _). k \<in> set ks) raw"

definition RawSuccessEnvelope_validate :: "pydict \<Rightarrow> ResponseEnvelope option" where
  "RawSuccessEnvelope_validate raw =
     (case (id_field raw, map_of raw ''payload'') of
        (Some i, Some (PDict p)) \<Rightarrow>
          if only_keys [''id'', ''ok'', ''payload''] raw then Some (RawSuccessEnvelope i p) else None
      | _ \<Rightarrow> None)"

definition DatapathErrorModel_validate :: "pydict \<Rightarrow> DatapathErrorModel option" where
  "DatapathErrorModel_validate raw =
     (case (map_of raw ''code'', map_of raw ''message'') of
        (Some (PStr c), Some (PStr m)) \<Rightarrow>
          (case DatapathErrorCode_of c of
             Some code \<Rightarrow>
               if m \<noteq> [] \<and> only_keys [''code'', ''message''] raw
               then Some \<lparr>de_code = code, de_message = m\<rparr> else None
           | None \<Rightarrow> None)
      | _ \<Rightarrow> None)"

definition RawErrorEnvelope_validate :: "pydict \<Rightarrow> ResponseEnvelope option" where
  "RawErrorEnvelope_validate raw =
     (case (id_field raw, map_of raw ''error'') of
        (Some i, Some (PDict e)) \<Rightarrow>
          (case DatapathErrorModel_validate e of
             Some err \<Rightarrow>
               if only_keys [''id'', ''ok'', ''error''] raw then Some (RawErrorEnvelope i err) else None
           | None \<Rightarrow> None)
      | _ \<Rightarrow> None)"

fun pyval_type_name :: "pyval \<Rightarrow> string" where
  "pyval_type_name PNone = ''NoneType''"
| "pyval_type_name (PBool b) = ''bool''"
| "pyval_type_name (PInt i) = ''int''"
| "pyval_type_name (PFloat r) = ''float''"
| "pyval_type_name (PStr s) = ''str''"
| "pyval_type_name (PList xs) = ''list''"
| "pyval_type_name (PDict d) = ''dict''"

text \<open>What the decoding of a frame gives: \<open>json.loads(payload.decode("utf-8"))\<close>.\<close>

datatype json_decoded = NotUtf8 | NotJson int int int | JsonValue pyval

text \<open>The decoder and pydantic's description of a validation failure are parameters.\<close>

definition protocol_error :: "string \<Rightarrow> pydict \<Rightarrow> exn" where
  "protocol_error message context = Pktlab (mk_DatapathProtocolError message (Some context))"

definition parse_response ::
  "(byte list \<Rightarrow> json_decoded) \<Rightarrow> (pydict \<Rightarrow> pyval) \<Rightarrow> byte list \<Rightarrow> exn + ResponseEnvelope" where
  "parse_response json_decode errors_of payload =
     (case json_decode payload of
        NotUtf8 \<Rightarrow> Inl (Pktlab (mk_DatapathProtocolError ''IPC response is not valid UTF-8'' None))
      | NotJson line column pos \<Rightarrow>
          Inl (protocol_error ''IPC response is not valid JSON''
            [(''line'', PInt line), (''column'', PInt column), (''position'', PInt pos)])
      | JsonValue (PDict raw) \<Rightarrow>
          (let validated = (\<lambda>r. case r of
                 Some envelope \<Rightarrow> Inr envelope
               | None \<Rightarrow> Inl (protocol_error ''IPC response failed basic envelope validation''
                           [(''errors'', errors_of raw)]))
           in if map_of raw ''ok'' = Some (PBool True) then validated (RawSuccessEnvelope_validate raw)
              else if map_of raw ''ok'' = Some (PBool False) then
                validated (RawErrorEnvelope_validate raw)
              else Inl (protocol_error ''IPC response did not contain a valid ok discriminator''
                     [(''keys'', PList (map PStr (sort (map fst raw))))]))
      | JsonValue v \<Rightarrow>
          Inl (protocol_error ''IPC response must be a JSON object''
            [(''response_type'', PStr (pyval_type_name v))]))"

section \<open>The client\<close>

text \<open>
  The other end of a Unix socket during one exchange: whether connecting fails, whether sending
  fails, and what it answers to the bytes it was sent.
\<close>

record ipc_peer =
  peer_connect :: "(os_error \<times> string) option"
  peer_sendall :: "byte list \<Rightarrow> (os_error \<times> string) option"
  peer_reply :: "byte list \<Rightarrow> socket"

record DpdkClient =
  cl_socket_path :: string
  cl_timeout_seconds :: rat

definition DpdkClient_init :: "string \<Rightarrow> rat \<Rightarrow> exn + DpdkClient" where
  "DpdkClient_init path timeout =
     (if path = [] then Inl (PyValueError ''socket_path must be a non-empty string'')
      else if timeout \<le> 0 then Inl (PyValueError ''timeout_seconds must be greater than zero'')
      else Inr \<lparr>cl_socket_path = path, cl_timeout_seconds = timeout\<rparr>)"

definition encode_request :: "(RequestEnvelope \<Rightarrow> byte list) \<Rightarrow> RequestEnvelope \<Rightarrow> exn + byte list" where
  "encode_request dump_json request = frame_payload (dump_json request)"

definition recv_response ::
  "(byte list \<Rightarrow> json_decoded) \<Rightarrow> (pydict \<Rightarrow> pyval) \<Rightarrow> socket \<Rightarrow> exn + ResponseEnvelope" where
  "recv_response json_decode errors_of s =
     (case recv_frame s of (Inl e, _) \<Rightarrow> Inl e | (Inr bs, _) \<Rightarrow> parse_response json_decode errors_of bs)"

text \<open>The handlers around an exchange: every operating-system error becomes a transport error.\<close>

definition transport_error :: "DpdkClient \<Rightarrow> RequestEnvelope \<Rightarrow> string \<Rightarrow> pydict \<Rightarrow> exn" where
  "transport_error client request message extra =
     Pktlab (mk_DatapathTransportError message
       (Some ([(''socket_path'', PStr (cl_socket_path client)),
               (''cmd'', PStr (DatapathCommand_value (rq_cmd request)))] @ extra)))"

fun map_os_error :: "DpdkClient \<Rightarrow> RequestEnvelope \<Rightarrow> exn \<Rightarrow> exn" where
  "map_os_error client request (PyOSError FileNotFoundError m) =
     transport_error client request ''datapath IPC socket was not found'' []"
| "map_os_error client request (PyOSError ConnectionRefusedError m) =
     transport_error client request ''datapath IPC socket refused the connection'' []"
| "map_os_error client request (PyOSError SocketTimeout m) =
     transport_error client request ''datapath IPC request timed out''
       [(''timeout_seconds'', PFloat (cl_timeout_seconds client))]"
| "map_os_error client request (PyOSError (OSErrno n) m) =
     transport_error client request ''datapath IPC transport failed'' [(''errno'', PInt n)]"
| "map_os_error client request e = e"

definition exchange_body ::
  "(RequestEnvelope \<Rightarrow> byte list) \<Rightarrow> (byte list \<Rightarrow> json_decoded) \<Rightarrow> (pydict \<Rightarrow> pyval) \<Rightarrow>
   ipc_peer \<Rightarrow> RequestEnvelope \<Rightarrow> exn + ResponseEnvelope" where
  "exchange_body dump_json json_decode errors_of peer request =
     (case peer_connect peer of
        Some (k, m) \<Rightarrow> Inl (PyOSError k m)
      | None \<Rightarrow>
          (case encode_request dump_json request of
             Inl e \<Rightarrow> Inl e
           | Inr bs \<Rightarrow>
               (case peer_sendall peer bs of
                  Some (k, m) \<Rightarrow> Inl (PyOSError k m)
                | None \<Rightarrow> recv_response json_decode errors_of (peer_reply peer bs))))"

definition exchange ::
  "(RequestEnvelope \<Rightarrow> byte list) \<Rightarrow> (byte list \<Rightarrow> json_decoded) \<Rightarrow> (pydict \<Rightarrow> pyval) \<Rightarrow>
   DpdkClient \<Rightarrow> ipc_peer \<Rightarrow> RequestEnvelope \<Rightarrow> exn + ResponseEnvelope" where
  "exchange dump_json json_decode errors_of client peer request =
     (case exchange_body dump_json json_decode errors_of peer request of
        Inl e \<Rightarrow> Inl (map_os_error client request e)
      | Inr r \<Rightarrow> Inr r)"

record 'p CommandResult =
  cr_request_id :: string
  cr_payload :: "'p option"
  cr_error :: "DatapathErrorModel option"

definition cr_ok :: "'p CommandResult \<Rightarrow> bool" where
  "cr_ok r \<longleftrightarrow> cr_error r = None"

definition cr_unwrap :: "'p CommandResult \<Rightarrow> exn + 'p" where
  "cr_unwrap r =
     (case cr_payload r of
        None \<Rightarrow> Inl (PyRuntimeError ''cannot unwrap a failed command result'')
      | Some p \<Rightarrow> Inr p)"

definition cr_success :: "string \<Rightarrow> 'p \<Rightarrow> 'p CommandResult" where
  "cr_success i p = \<lparr>cr_request_id = i, cr_payload = Some p, cr_error = None\<rparr>"

definition cr_failure :: "string \<Rightarrow> DatapathErrorModel \<Rightarrow> 'p CommandResult" where
  "cr_failure i e = \<lparr>cr_request_id = i, cr_payload = None, cr_error = Some e\<rparr>"

text \<open>\<open>payload_type.model_validate\<close> is a parameter: the payload, or pydantic's errors.\<close>

definition typed_call ::
  "(RequestEnvelope \<Rightarrow> byte list) \<Rightarrow> (byte list \<Rightarrow> json_decoded) \<Rightarrow> (pydict \<Rightarrow> pyval) \<Rightarrow>
   (pydict \<Rightarrow> pyval + 'p) \<Rightarrow> DpdkClient \<Rightarrow> ipc_peer \<Rightarrow> RequestEnvelope \<Rightarrow> exn + 'p CommandResult" where
  "typed_call dump_json json_decode errors_of payload_validate client peer request =
     (case exchange dump_json json_decode errors_of client peer request of
        Inl e \<Rightarrow> Inl e
      | Inr response \<Rightarrow>
          if response_id response \<noteq> rq_id request then
            Inl (protocol_error ''IPC response id did not match the request id''
              [(''request_id'', PStr (rq_id request)), (''response_id'', PStr (response_id response)),
               (''cmd'', PStr (DatapathCommand_value (rq_cmd request)))])
          else
            (case response of
               RawErrorEnvelope _ err \<Rightarrow> Inr (cr_failure (rq_id request) err)
             | RawSuccessEnvelope _ raw \<Rightarrow>
                 (case payload_validate raw of
                    Inl errors \<Rightarrow>
                      Inl (protocol_error ''IPC success payload failed validation''
                        [(''request_id'', PStr (rq_id request)),
                         (''cmd'', PStr (DatapathCommand_value (rq_cmd request))), (''errors'', errors)])
                  | Inr payload \<Rightarrow> Inr (cr_success (rq_id request) payload))))"

text \<open>A client method draws an id, builds its request and makes the typed call.\<close>

definition client_call ::
  "(RequestEnvelope \<Rightarrow> byte list) \<Rightarrow> (byte list \<Rightarrow> json_decoded) \<Rightarrow> (pydict \<Rightarrow> pyval) \<Rightarrow>
   (pydict \<Rightarrow> pyval + 'p) \<Rightarrow> DatapathCommand \<Rightarrow> DpdkClient \<Rightarrow> ipc_peer \<Rightarrow> string \<Rightarrow>
   exn + 'p CommandResult" where
  "client_call dump_json json_decode errors_of payload_validate cmd client peer fresh_id =
     (case mk_request cmd fresh_id of
        Inl e \<Rightarrow> Inl e
      | Inr request \<Rightarrow>
          typed_call dump_json json_decode errors_of payload_validate client peer request)"

text \<open>The payloads of the commands, and what their \<open>Field\<close> declarations demand.\<close>

record AckPayload =
  ack_message :: string

record VersionPayload =
  vp_service :: string
  vp_version :: string
  vp_dpdk_version :: string

record HealthStateModel =
  hs_state :: DatapathState
  hs_message :: string
  hs_applied_rule_version :: int
  hs_ports_ready :: bool
  hs_paused :: bool

datatype DatapathPortState = Port_up | Port_down

record PortInfoModel =
  pi_name :: string
  pi_port_id :: int
  pi_role :: PortRole
  pi_state :: DatapathPortState

record DatapathStatsModel =
  st_rx_packets :: int
  st_tx_packets :: int
  st_drop_packets :: int
  st_drop_parse_errors :: int
  st_drop_no_match :: int
  st_rx_bursts :: int
  st_tx_bursts :: int
  st_unsent_packets :: int
  st_rule_hits :: "(string \<times> int) list"

definition VersionPayload_ok :: "VersionPayload \<Rightarrow> bool" where
  "VersionPayload_ok v \<longleftrightarrow>
     vp_service v = ''pktlab-dpdkd'' \<and> vp_version v \<noteq> [] \<and> vp_dpdk_version v \<noteq> []"

definition HealthStateModel_ok :: "HealthStateModel \<Rightarrow> bool" where
  "HealthStateModel_ok h \<longleftrightarrow> 0 \<le> hs_applied_rule_version h"

definition PortInfoModel_ok :: "PortInfoModel \<Rightarrow> bool" where
  "PortInfoModel_ok p \<longleftrightarrow> pi_name p \<noteq> [] \<and> 0 \<le> pi_port_id p"

definition DatapathStatsModel_ok :: "DatapathStatsModel \<Rightarrow> bool" where
  "DatapathStatsModel_ok s \<longleftrightarrow>
     0 \<le> st_rx_packets s \<and> 0 \<le> st_tx_packets s \<and> 0 \<le> st_drop_packets s \<and>
     0 \<le> st_drop_parse_errors s \<and> 0 \<le> st_drop_no_match s \<and> 0 \<le> st_rx_bursts s \<and>
     0 \<le> st_tx_bursts s \<and> 0 \<le> st_unsent_packets s"

text \<open>The third-party code a client uses: serialiser, decoder and the payload validators.\<close>

record ipc_codec =
  dump_json :: "RequestEnvelope \<Rightarrow> byte list"
  json_decode :: "byte list \<Rightarrow> json_decoded"
  errors_of :: "pydict \<Rightarrow> pyval"
  ack_validate :: "pydict \<Rightarrow> pyval + AckPayload"
  version_validate :: "pydict \<Rightarrow> pyval + VersionPayload"
  health_validate :: "pydict \<Rightarrow> pyval + HealthStateModel"
  ports_validate :: "pydict \<Rightarrow> pyval + PortInfoModel list"
  stats_validate :: "pydict \<Rightarrow> pyval + DatapathStatsModel"

definition codec_call ::
  "ipc_codec \<Rightarrow> (pydict \<Rightarrow> pyval + 'p) \<Rightarrow> DatapathCommand \<Rightarrow> DpdkClient \<Rightarrow> ipc_peer \<Rightarrow> string \<Rightarrow>
   exn + 'p CommandResult" where
  "codec_call codec = client_call (dump_json codec) (json_decode codec) (errors_of codec)"

definition ping :: "ipc_codec \<Rightarrow> DpdkClient \<Rightarrow> ipc_peer \<Rightarrow> string \<Rightarrow> exn + AckPayload CommandResult" where
  "ping codec = codec_call codec (ack_validate codec) Cmd_ping"

definition get_version ::
  "ipc_codec \<Rightarrow> DpdkClient \<Rightarrow> ipc_peer \<Rightarrow> string \<Rightarrow> exn + VersionPayload CommandResult" where
  "get_version codec = codec_call codec (version_validate codec) Cmd_get_version"

definition get_health ::
  "ipc_codec \<Rightarrow> DpdkClient \<Rightarrow> ipc_peer \<Rightarrow> string \<Rightarrow> exn + HealthStateModel CommandResult" where
  "get_health codec = codec_call codec (health_validate codec) Cmd_get_health"

definition get_ports ::
  "ipc_codec \<Rightarrow> DpdkClient \<Rightarrow> ipc_peer \<Rightarrow> string \<Rightarrow> exn + PortInfoModel list CommandResult" where
  "get_ports codec = codec_call codec (ports_validate codec) Cmd_get_ports"

definition get_stats ::
  "ipc_codec \<Rightarrow> DpdkClient \<Rightarrow> ipc_peer \<Rightarrow> string \<Rightarrow> exn + DatapathStatsModel CommandResult" where
  "get_stats codec = codec_call codec (stats_validate codec) Cmd_get_stats"

definition reset_stats ::
  "ipc_codec \<Rightarrow> DpdkClient \<Rightarrow> ipc_peer \<Rightarrow> string \<Rightarrow> exn + AckPayload CommandResult" where
  "reset_stats codec = codec_call codec (ack_validate codec) Cmd_reset_stats"

definition pause_datapath ::
  "ipc_codec \<Rightarrow> DpdkClient \<Rightarrow> ipc_peer \<Rightarrow> string \<Rightarrow> exn + AckPayload CommandResult" where
  "pause_datapath codec = codec_call codec (ack_validate codec) Cmd_pause_datapath"

definition resume_datapath ::
  "ipc_codec \<Rightarrow> DpdkClient \<Rightarrow> ipc_peer \<Rightarrow> string \<Rightarrow> exn + AckPayload CommandResult" where
  "resume_datapath codec = codec_call codec (ack_validate codec) Cmd_resume_datapath"

text \<open>\<open>f"req-{uuid.uuid4().hex[:12]}"\<close> for the hexadecimal digits of a uuid.\<close>

definition default_request_id :: "string \<Rightarrow> string" where
  "default_request_id uuid_hex = ''req-'' @ take 12 uuid_hex"

section \<open>Streams\<close>

text \<open>The bytes a socket still delivers before it fails or ends, and that it does not fail.\<close>

fun stream_bytes :: "socket \<Rightarrow> byte list" where
  "stream_bytes [] = []"
| "stream_bytes (Chunk bs # s) = (if bs = [] then [] else bs @ stream_bytes s)"
| "stream_bytes (RecvFail k m # s) = []"

definition clean :: "socket \<Rightarrow> bool" where
  "clean s \<longleftrightarrow> (\<forall>ev \<in> set s. \<exists>bs. ev = Chunk bs \<and> bs \<noteq> [])"

lemma clean_simps [simp]:
  "clean []" "clean (Chunk bs # s) \<longleftrightarrow> bs \<noteq> [] \<and> clean s" "\<not> clean (RecvFail k m # s)"
  by (auto simp: clean_def)

lemma recv_sound:
  assumes "recv n s = (Inr bs, s')" and "bs \<noteq> []" and "0 < n"
  shows "stream_bytes s = bs @ stream_bytes s'" and "length bs \<le> n"
    and "clean s \<Longrightarrow> clean s'"
  using assms by (cases s rule: stream_bytes.cases; auto split: if_splits)+

lemma recv_clean:
  assumes "clean s" and "0 < n"
  shows "(stream_bytes s = [] \<and> recv n s = (Inr [], [])) \<or>
         (\<exists>bs s'. recv n s = (Inr bs, s') \<and> bs \<noteq> [])"
  using assms by (cases s rule: stream_bytes.cases) auto

lemma read_loop_sound:
  assumes "read_loop expected remaining chunks s = (Inr bs, s')"
  shows "\<exists>body. bs = concat chunks @ body \<and> length body = remaining \<and>
    stream_bytes s = body @ stream_bytes s' \<and> (clean s \<longrightarrow> clean s')"
  using assms
proof (induction expected remaining chunks s rule: read_loop.induct)
  case (1 expected remaining chunks s)
  show ?case
  proof (cases "remaining = 0")
    case True
    with "1.prems" show ?thesis by (simp add: read_loop.simps)
  next
    case False
    with "1.prems" obtain chunk s1 where r: "recv remaining s = (Inr chunk, s1)" and c: "chunk \<noteq> []"
      and go: "read_loop expected (remaining - length chunk) (chunks @ [chunk]) s1 = (Inr bs, s')"
      by (subst (asm) read_loop.simps) (auto split: sum.splits prod.splits if_splits)
    have pos: "0 < remaining" using False by simp
    note R = recv_sound [OF r c pos]
    obtain body where "bs = concat (chunks @ [chunk]) @ body" "length body = remaining - length chunk"
        "stream_bytes s1 = body @ stream_bytes s'" "clean s1 \<longrightarrow> clean s'"
      using "1.IH" [OF False r [symmetric] refl c go] by blast
    with R show ?thesis by (intro exI [of _ "chunk @ body"]) auto
  qed
qed

lemma read_loop_enough:
  assumes "clean s" and "remaining \<le> length (stream_bytes s)"
  shows "\<exists>bs s'. read_loop expected remaining chunks s = (Inr bs, s')"
  using assms
proof (induction expected remaining chunks s rule: read_loop.induct)
  case (1 expected remaining chunks s)
  show ?case
  proof (cases "remaining = 0")
    case True
    then show ?thesis by (simp add: read_loop.simps)
  next
    case False
    then have pos: "0 < remaining" by simp
    with "1.prems"(2) have "stream_bytes s \<noteq> []" by auto
    with recv_clean [OF "1.prems"(1) pos]
    obtain chunk s1 where r: "recv remaining s = (Inr chunk, s1)" and c: "chunk \<noteq> []" by blast
    note R = recv_sound [OF r c pos]
    have "\<exists>bs s'. read_loop expected (remaining - length chunk) (chunks @ [chunk]) s1 = (Inr bs, s')"
      using "1.prems" R by (intro "1.IH" [OF False r [symmetric] refl c]) auto
    with False r c show ?thesis by (subst read_loop.simps) simp
  qed
qed

lemma read_loop_short:
  assumes "clean s" and "length (stream_bytes s) < remaining"
  shows "\<exists>s'. read_loop expected remaining chunks s =
    (Inl (eof_error expected (remaining - length (stream_bytes s))), s')"
  using assms
proof (induction expected remaining chunks s rule: read_loop.induct)
  case (1 expected remaining chunks s)
  have pos: "0 < remaining" using "1.prems"(2) by simp
  from recv_clean [OF "1.prems"(1) pos] show ?case
  proof (elim disjE conjE exE)
    assume "stream_bytes s = []" and "recv remaining s = (Inr [], [])"
    with pos show ?thesis by (subst read_loop.simps) simp
  next
    fix chunk s1 assume r: "recv remaining s = (Inr chunk, s1)" and c: "chunk \<noteq> []"
    note R = recv_sound [OF r c pos]
    have "\<exists>s'. read_loop expected (remaining - length chunk) (chunks @ [chunk]) s1 =
        (Inl (eof_error expected (remaining - length chunk - length (stream_bytes s1))), s')"
      using "1.prems" R pos by (intro "1.IH" [OF _ r [symmetric] refl c]) auto
    with pos r c R show ?thesis by (subst read_loop.simps) simp
  qed
qed

lemma read_exact_sound:
  assumes "read_exact n s = (Inr bs, s')"
  shows "length bs = n" and "stream_bytes s = bs @ stream_bytes s'" and "clean s \<Longrightarrow> clean s'"
  using read_loop_sound [OF assms [unfolded read_exact_def]] by auto

lemma read_exact_clean:
  assumes "clean s" and "stream_bytes s = bs @ rest"
  obtains s' where "read_exact (length bs) s = (Inr bs, s')" "stream_bytes s' = rest" "clean s'"
proof -
  from assms have "length bs \<le> length (stream_bytes s)" by simp
  with assms(1) obtain bs' s' where r: "read_exact (length bs) s = (Inr bs', s')"
    unfolding read_exact_def using read_loop_enough by blast
  note R = read_exact_sound [OF r]
  from R(1,2) assms(2) have "bs' = bs" "stream_bytes s' = rest" by auto
  with r R(3) assms(1) show thesis by (intro that) auto
qed

lemma read_exact_short:
  assumes "clean s" and "length (stream_bytes s) < n"
  shows "\<exists>s'. read_exact n s = (Inl (eof_error n (n - length (stream_bytes s))), s')"
  unfolding read_exact_def by (rule read_loop_short [OF assms])

section \<open>Headers\<close>

lemma unat_byte_of_nat [simp]: "unat (word_of_nat n :: byte) = n mod 256"
  by (simp add: unat_of_nat)

lemma header_unpack_pack:
  assumes "n < 2 ^ 32"
  shows "header_unpack (header_pack n) = n"
proof -
  have "n div 2 ^ 24 mod 256 = n div 2 ^ 24" using assms by simp
  moreover have "n div 2 ^ 24 * 256 + n div 2 ^ 16 mod 256 = n div 2 ^ 16"
    using div_mult_mod_eq [of "n div 2 ^ 16" 256] by (simp add: div_mult2_eq [symmetric])
  moreover have "n div 2 ^ 16 * 256 + n div 2 ^ 8 mod 256 = n div 2 ^ 8"
    using div_mult_mod_eq [of "n div 2 ^ 8" 256] by (simp add: div_mult2_eq [symmetric])
  moreover have "n div 2 ^ 8 * 256 + n mod 256 = n"
    using div_mult_mod_eq [of n 256] by simp
  ultimately show ?thesis by (simp add: header_pack_def header_unpack_def)
qed

lemma unat_byte_less: "unat b < 256" for b :: byte
  using unsigned_less [of b, where ?'a = nat] by simp

lemma byte_of_digit: "(a * 256 + unat b) mod 256 = unat b" for b :: byte
  using unat_byte_less [of b] by simp

lemma byte_of_nat_digit: "word_of_nat (a * 256 + unat b) = b" for b :: byte
  by (simp only: word_unat_eq_iff unat_byte_of_nat byte_of_digit)

lemma header_pack_unpack:
  assumes "length bs = 4"
  shows "header_pack (header_unpack bs) = bs"
proof -
  from assms obtain a b c d where bs: "bs = [a, b, c, d]"
    by (auto simp: length_Suc_conv eval_nat_numeral)
  let ?n = "((unat a * 256 + unat b) * 256 + unat c) * 256 + unat d"
  have "?n div 2 ^ 8 = (unat a * 256 + unat b) * 256 + unat c" using unat_byte_less [of d] by simp
  moreover have "?n div 2 ^ 16 = unat a * 256 + unat b" using unat_byte_less [of c] unat_byte_less [of d] by simp
  moreover have "?n div 2 ^ 24 = unat a" using unat_byte_less [of b] unat_byte_less [of c] unat_byte_less [of d] by simp
  moreover have "header_unpack bs = ?n" by (simp add: bs header_unpack_def)
  moreover have "word_of_nat (unat a) = a" by simp
  ultimately show ?thesis
    unfolding bs header_pack_def by (simp only: byte_of_nat_digit)
qed

lemma length_header_pack [simp]: "length (header_pack n) = FRAME_HEADER_SIZE"
  by (simp add: header_pack_def FRAME_HEADER_SIZE_def)

lemma frame_payload_Inr_iff:
  "frame_payload p = Inr f \<longleftrightarrow>
     f = header_pack (length p) @ p \<and> p \<noteq> [] \<and> length p < MAX_FRAME_PAYLOAD_SIZE"
  by (auto simp: frame_payload_def Let_def split: if_splits)

lemma header_unpack_frame:
  assumes "frame_payload p = Inr f"
  shows "header_unpack (header_pack (length p)) = length p"
  using assms by (intro header_unpack_pack)
    (auto simp: frame_payload_Inr_iff MAX_FRAME_PAYLOAD_SIZE_def)

section \<open>Frames on a stream\<close>

lemma recv_frame_delivers:
  assumes "clean s" and f: "frame_payload p = Inr f" and "stream_bytes s = f @ rest"
  shows "\<exists>s'. recv_frame s = (Inr p, s') \<and> stream_bytes s' = rest \<and> clean s'"
proof -
  note frame = f [unfolded frame_payload_Inr_iff]
  from assms(3) frame have "stream_bytes s = header_pack (length p) @ (p @ rest)" by simp
  with assms(1) obtain s1 where 1: "read_exact FRAME_HEADER_SIZE s = (Inr (header_pack (length p)), s1)"
      "stream_bytes s1 = p @ rest" "clean s1"
    by (metis read_exact_clean length_header_pack)
  obtain s2 where "read_exact (length p) s1 = (Inr p, s2)" "stream_bytes s2 = rest" "clean s2"
    using 1(2,3) by (metis read_exact_clean)
  with 1 frame header_unpack_frame [OF f] show ?thesis
    by (auto simp: recv_frame_def Let_def)
qed

lemma recv_frame_sound:
  assumes "recv_frame s = (Inr p, s')"
  shows "\<exists>f. frame_payload p = Inr f \<and> stream_bytes s = f @ stream_bytes s'"
proof -
  from assms obtain header s1 where h: "read_exact FRAME_HEADER_SIZE s = (Inr header, s1)"
    and n: "1 \<le> header_unpack header" "header_unpack header < MAX_FRAME_PAYLOAD_SIZE"
    and b: "read_exact (header_unpack header) s1 = (Inr p, s')"
    by (auto simp: recv_frame_def Let_def
        split: sum.splits prod.splits if_splits)
  note H = read_exact_sound [OF h] and B = read_exact_sound [OF b]
  have "header_pack (length p) = header"
    using header_pack_unpack [of header] H(1) B(1) by (simp add: FRAME_HEADER_SIZE_def)
  with H(2) B(1,2) n show ?thesis
    by (intro exI [of _ "header @ p"]) (auto simp: frame_payload_Inr_iff)
qed

lemma recv_frame_truncated:
  assumes "clean s" and f: "frame_payload p = Inr f" and "f = stream_bytes s @ missing" and "missing \<noteq> []"
  shows "\<exists>s'. recv_frame s = (Inl (if length (stream_bytes s) < FRAME_HEADER_SIZE
    then eof_error FRAME_HEADER_SIZE (FRAME_HEADER_SIZE - length (stream_bytes s))
    else eof_error (length p) (length missing)), s')"
proof (cases "length (stream_bytes s) < FRAME_HEADER_SIZE")
  case True
  with read_exact_short [OF assms(1)] show ?thesis by (fastforce simp: recv_frame_def)
next
  case False
  note frame = f [unfolded frame_payload_Inr_iff]
  obtain body where body: "stream_bytes s = header_pack (length p) @ body" "p = body @ missing"
  proof -
    have "length (header_pack (length p)) \<le> length (stream_bytes s)" using False by simp
    moreover have "header_pack (length p) @ p = stream_bytes s @ missing" using assms(3) frame by simp
    ultimately show thesis using that by (auto simp: append_eq_append_conv_if) (metis append_take_drop_id)
  qed
  with assms(1) obtain s1 where 1: "read_exact FRAME_HEADER_SIZE s = (Inr (header_pack (length p)), s1)"
      "stream_bytes s1 = body" "clean s1"
    by (metis read_exact_clean length_header_pack)
  then obtain s2 where "read_exact (length p) s1 = (Inl (eof_error (length p) (length missing)), s2)"
    using read_exact_short [of s1 "length p"] body(2) assms(4) by auto
  with 1 False frame header_unpack_frame [OF f] show ?thesis
    by (auto simp: recv_frame_def Let_def)
qed

section \<open>Errors of a call\<close>

text \<open>The errors an exchange may end with: the two project errors of the datapath client.\<close>

definition datapath_error :: "exn \<Rightarrow> bool" where
  "datapath_error e \<longleftrightarrow>
     (\<exists>err. e = Pktlab err \<and> err_class err \<in> {DatapathProtocolErrorClass, DatapathTransportErrorClass})"

definition protocol_failure :: "exn \<Rightarrow> bool" where
  "protocol_failure e \<longleftrightarrow> (\<exists>err. e = Pktlab err \<and> err_class err = DatapathProtocolErrorClass)"

lemma protocol_failure_simps [simp]:
  "protocol_failure (protocol_error m c)" "protocol_failure (eof_error n r)"
  "protocol_failure (Pktlab (mk_DatapathProtocolError m x))"
  by (simp_all add: protocol_failure_def protocol_error_def eof_error_def)

lemma recv_error: "recv n s = (Inl e, s') \<Longrightarrow> \<exists>k m. e = PyOSError k m"
  by (cases s rule: stream_bytes.cases) (auto split: if_splits)

lemma read_loop_error:
  "read_loop expected remaining chunks s = (Inl e, s') \<Longrightarrow> protocol_failure e \<or> (\<exists>k m. e = PyOSError k m)"
proof (induction expected remaining chunks s rule: read_loop.induct)
  case (1 expected remaining chunks s)
  from "1.prems" show ?case
    by (subst (asm) read_loop.simps)
      (auto split: if_splits sum.splits prod.splits dest: recv_error "1.IH" [rotated 3])
qed

lemma recv_response_error:
  assumes "recv_response decode errs s = Inl e"
  shows "protocol_failure e \<or> (\<exists>k m. e = PyOSError k m)"
  using assms
  by (auto simp: recv_response_def recv_frame_def read_exact_def parse_response_def Let_def
      split: prod.splits sum.splits if_splits json_decoded.splits pyval.splits option.splits
      dest!: read_loop_error)

lemma map_os_error_datapath:
  assumes "protocol_failure e \<or> (\<exists>k m. e = PyOSError k m)"
  shows "datapath_error (map_os_error client request e)"
  using assms
  by (cases "(client, request, e)" rule: map_os_error.cases)
    (auto simp: datapath_error_def protocol_failure_def transport_error_def)

lemma exchange_error:
  "exchange dump decode errs client peer request = Inl e \<Longrightarrow> datapath_error e"
  by (auto simp: exchange_def exchange_body_def encode_request_def frame_payload_def Let_def
      split: sum.splits option.splits if_splits intro!: map_os_error_datapath dest: recv_response_error)

lemma typed_call_error:
  "typed_call dump decode errs payload_validate client peer request = Inl e \<Longrightarrow>
     datapath_error e"
  by (auto simp: typed_call_def split: sum.splits if_splits ResponseEnvelope.splits dest: exchange_error)
    (auto simp: datapath_error_def protocol_error_def)

lemma parse_response_success:
  assumes "decode bs = JsonValue (PDict [(''id'', PStr i), (''ok'', PBool True), (''payload'', PDict raw)])"
    and "request_id_ok i"
  shows "parse_response decode errs bs = Inr (RawSuccessEnvelope i raw)"
  using assms by (simp add: parse_response_def RawSuccessEnvelope_validate_def id_field_def only_keys_def)

lemma mk_request_Inr_iff:
  "mk_request cmd i = Inr request \<longleftrightarrow> request_id_ok i \<and> request = \<lparr>rq_id = i, rq_cmd = cmd\<rparr>"
  by (auto simp: mk_request_def)

text \<open>A peer that takes the request and answers with one frame, however the bytes are cut.\<close>

definition answers :: "ipc_peer \<Rightarrow> byte list \<Rightarrow> byte list \<Rightarrow> bool" where
  "answers peer sent body \<longleftrightarrow>
     peer_connect peer = None \<and> peer_sendall peer sent = None \<and> clean (peer_reply peer sent) \<and>
     (\<exists>f rest. frame_payload body = Inr f \<and> stream_bytes (peer_reply peer sent) = f @ rest)"

lemma exchange_answer:
  assumes "encode_request dump request = Inr sent" and "answers peer sent body"
  shows "exchange dump decode errs client peer request =
    (case parse_response decode errs body of
       Inl e \<Rightarrow> Inl (map_os_error client request e) | Inr r \<Rightarrow> Inr r)"
proof -
  from assms(2) obtain f rest where f: "frame_payload body = Inr f"
    "stream_bytes (peer_reply peer sent) = f @ rest" and ok: "peer_connect peer = None"
    "peer_sendall peer sent = None" "clean (peer_reply peer sent)"
    by (auto simp: answers_def)
  from recv_frame_delivers [OF ok(3) f] obtain s' where
    "recv_frame (peer_reply peer sent) = (Inr body, s')" by blast
  with ok assms(1) show ?thesis by (simp add: exchange_def exchange_body_def recv_response_def)
qed

text \<open>A call that is answered with the success envelope of its request.\<close>

lemma client_call_answer:
  assumes "mk_request cmd i = Inr request"
    and "frame_payload (dump request) = Inr sent"
    and "answers peer sent body"
    and "decode body =
      JsonValue (PDict [(''id'', PStr i), (''ok'', PBool True), (''payload'', PDict raw)])"
    and "payload_validate raw = Inr payload"
  shows "client_call dump decode errs payload_validate cmd client peer i =
    Inr (cr_success i payload)"
proof -
  from assms(1) have i: "request_id_ok i" "rq_id request = i" by (simp_all add: mk_request_Inr_iff)
  have "exchange dump decode errs client peer request = Inr (RawSuccessEnvelope i raw)"
    using assms(2,3) parse_response_success [of decode body i raw errs, OF assms(4) i(1)]
    by (simp add: exchange_answer encode_request_def)
  with assms(1,5) i(2) show ?thesis by (simp add: client_call_def typed_call_def)
qed

section \<open>Properties\<close>

text \<open>C9. However the kernel cuts the byte stream into chunks, a frame that was written is read back
  as its payload, and the bytes after it stay in the stream.\<close>

theorem frame_round_trip:
  assumes "frame_payload payload = Inr frame" and "\<forall>chunk \<in> set chunks. chunk \<noteq> []"
    and "concat chunks = frame @ rest"
  shows "\<exists>s'. recv_frame (map Chunk chunks) = (Inr payload, s') \<and> stream_bytes s' = rest"
proof -
  have "clean (map Chunk chunks)" using assms(2) by (auto simp: clean_def)
  moreover have "stream_bytes (map Chunk chunks) = concat chunks"
    using assms(2) by (induction chunks) auto
  ultimately show ?thesis using recv_frame_delivers [OF _ assms(1)] assms(3) by metis
qed

theorem frame_round_trip_witness:
  "\<exists>s'. recv_frame (map Chunk [[0, 0], [0, 2, 123], [125, 7]]) = (Inr [123, 125], s') \<and>
     stream_bytes s' = [7]"
  by (rule frame_round_trip [where frame = "[0, 0, 0, 2, 123, 125]"])
    (simp_all add: frame_payload_def header_pack_def MAX_FRAME_PAYLOAD_SIZE_def)

text \<open>C20. A frame that is returned was on the wire: the stream started with the header of its length
  and its bytes, and the length is between 1 and 16383.\<close>

theorem frame_sound:
  assumes "recv_frame s = (Inr payload, s')"
  shows "stream_bytes s = header_pack (length payload) @ payload @ stream_bytes s' \<and>
    1 \<le> length payload \<and> length payload \<le> 16383"
  using recv_frame_sound [OF assms]
  by (auto simp: frame_payload_Inr_iff MAX_FRAME_PAYLOAD_SIZE_def Suc_le_eq)

theorem frame_sound_witness:
  "stream_bytes [Chunk [0, 0, 0], Chunk [1, 9, 8]] = header_pack 1 @ [9] @ [8] \<and>
     (1::nat) \<le> 1 \<and> (1::nat) \<le> 16383"
proof -
  have "recv_frame [Chunk [0, 0, 0], Chunk [1, 9, 8]] = (Inr [9], [Chunk [8]])"
    by (simp add: recv_frame_def read_exact_def read_loop.simps FRAME_HEADER_SIZE_def
        header_unpack_def MAX_FRAME_PAYLOAD_SIZE_def)
  from frame_sound [OF this] show ?thesis by simp
qed

text \<open>When the stream ends inside a frame the reader reports the end of file, with the number of
  bytes that are missing from the part it was reading.\<close>

theorem frame_truncated:
  assumes "clean s" and "frame_payload payload = Inr (stream_bytes s @ missing)" and "missing \<noteq> []"
  shows "\<exists>s'. recv_frame s =
    (Inl (if length (stream_bytes s) < FRAME_HEADER_SIZE
          then eof_error FRAME_HEADER_SIZE (FRAME_HEADER_SIZE - length (stream_bytes s))
          else eof_error (length payload) (length missing)), s')"
  by (rule recv_frame_truncated [OF assms(1,2) refl assms(3)])

theorem frame_truncated_witness:
  "\<exists>s'. recv_frame [Chunk [0, 0], Chunk [0, 3, 1]] = (Inl (eof_error 3 2), s')"
  using frame_truncated [of "[Chunk [0, 0], Chunk [0, 3, 1]]" "[1, 2, 3]" "[2, 3]"]
  by (simp add: frame_payload_def header_pack_def MAX_FRAME_PAYLOAD_SIZE_def FRAME_HEADER_SIZE_def)
    (simp add: numeral_2_eq_2 numeral_3_eq_3)


text \<open>C22. A daemon that answers a request with the success envelope of its id, in one frame cut in any
  way, is understood: the call returns the validated payload.\<close>

theorem typed_call_success:
  assumes "mk_request cmd i = Inr request"
    and "frame_payload (dump request) = Inr sent"
    and "answers peer sent body"
    and "decode body =
      JsonValue (PDict [(''id'', PStr i), (''ok'', PBool True), (''payload'', PDict raw)])"
    and "payload_validate raw = Inr payload"
  shows "client_call dump decode errs payload_validate cmd client peer i =
    Inr (cr_success i payload)"
  by (rule client_call_answer [where request = request and sent = sent and body = body and raw = raw and dump = dump
      and decode = decode and payload_validate = payload_validate]) (fact assms)+

theorem typed_call_success_witness:
  "client_call (\<lambda>_. [123, 125])
     (\<lambda>_. JsonValue (PDict [(''id'', PStr ''req-1''), (''ok'', PBool True),
        (''payload'', PDict [(''message'', PStr ''pong'')])]))
     (\<lambda>_. PNone) (\<lambda>raw. case map_of raw ''message'' of Some v \<Rightarrow> Inr v | None \<Rightarrow> Inl PNone)
     Cmd_ping \<lparr>cl_socket_path = ''/run/x'', cl_timeout_seconds = 1\<rparr>
     \<lparr>peer_connect = None, peer_sendall = (\<lambda>_. None),
      peer_reply = (\<lambda>_. [Chunk [0], Chunk [0, 0, 1, 42]])\<rparr> ''req-1'' =
   Inr (cr_success ''req-1'' (PStr ''pong''))"
  by (rule typed_call_success [where sent = "[0, 0, 0, 2, 123, 125]" and body = "[42]" and
        raw = "[(''message'', PStr ''pong'')]" and request = "\<lparr>rq_id = ''req-1'', rq_cmd = Cmd_ping\<rparr>"])
    (simp_all add: frame_payload_def header_pack_def MAX_FRAME_PAYLOAD_SIZE_def answers_def
      mk_request_def request_id_ok_def request_id_char_def char_isdecimal_def)

end
