(* ===== verification/Supervisor.thy ===== *)
theory Supervisor
  imports Ipc_Protocol Netns
begin

text \<open>
  The supervisor of the datapath process (\<open>ctrld/pktlab_ctrld/process/supervisor.py\<close>). Its
  attributes are the record \<open>SupervisorState\<close>, the first part of the state of its programs; the
  rest of the world is the second. The process table (\<open>subprocess.Popen\<close> and the methods of the
  handle it returns), the clock and the other end of the IPC socket are the parameter \<open>env\<close>. The
  IPC calls are those of \<open>Ipc_Protocol\<close>, on whatever peer the socket has at that moment.
\<close>

section \<open>Configuration and status\<close>

record SupervisorConfig =
  sc_dpdkd_binary :: string
  sc_socket_path :: string
  sc_launch_prefix :: "string list"
  sc_extra_args :: "string list"
  sc_startup_timeout_seconds :: rat
  sc_poll_interval_seconds :: rat
  sc_shutdown_timeout_seconds :: rat

definition SupervisorConfig_post_init :: "SupervisorConfig \<Rightarrow> exn + SupervisorConfig" where
  "SupervisorConfig_post_init c =
     (if str_strip (sc_dpdkd_binary c) = [] then
        Inl (PyValueError ''dpdkd_binary must be a non-empty string'')
      else if str_strip (sc_socket_path c) = [] then
        Inl (PyValueError ''socket_path must be a non-empty string'')
      else if list_ex (\<lambda>token. str_strip token = []) (sc_launch_prefix c) then
        Inl (PyValueError ''launch_prefix must not contain empty elements'')
      else if list_ex (\<lambda>token. str_strip token = []) (sc_extra_args c) then
        Inl (PyValueError ''extra_args must not contain empty elements'')
      else if sc_startup_timeout_seconds c \<le> 0 then
        Inl (PyValueError ''startup_timeout_seconds must be greater than zero'')
      else if sc_poll_interval_seconds c \<le> 0 then
        Inl (PyValueError ''poll_interval_seconds must be greater than zero'')
      else if sc_shutdown_timeout_seconds c \<le> 0 then
        Inl (PyValueError ''shutdown_timeout_seconds must be greater than zero'')
      else Inr c)"

record DatapathProcessStatus =
  ps_managed :: bool
  ps_socket_path :: string
  ps_pid :: "int option"
  ps_running :: bool
  ps_reachable :: bool
  ps_exit_code :: "int option"
  ps_last_error :: "string option"
  ps_version :: "VersionPayload option"
  ps_health :: "HealthStateModel option"

definition default_status :: "bool \<Rightarrow> string \<Rightarrow> DatapathProcessStatus" where
  "default_status managed path =
     \<lparr>ps_managed = managed, ps_socket_path = path, ps_pid = None, ps_running = False,
      ps_reachable = False, ps_exit_code = None, ps_last_error = None, ps_version = None,
      ps_health = None\<rparr>"

section \<open>The process and the world\<close>

text \<open>
  A process handle is its pid. \<open>pe_poll\<close> is the exit code, if any; \<open>pe_wait\<close> raises
  \<open>TimeoutExpired\<close>; \<open>pe_stderr\<close> reads and closes the error stream, \<open>None\<close> when it is
  absent or closed; \<open>pe_exchange\<close> is the peer of the next IPC exchange and the id drawn for it.
\<close>

record 's process_env =
  pe_popen :: "string list \<Rightarrow> 's \<Rightarrow> (exn + int) \<times> 's"
  pe_poll :: "int \<Rightarrow> 's \<Rightarrow> int option \<times> 's"
  pe_terminate :: "int \<Rightarrow> 's \<Rightarrow> 's"
  pe_kill :: "int \<Rightarrow> 's \<Rightarrow> 's"
  pe_wait :: "int \<Rightarrow> rat \<Rightarrow> 's \<Rightarrow> (exn + int) \<times> 's"
  pe_stderr :: "int \<Rightarrow> 's \<Rightarrow> (exn + string option) \<times> 's"
  pe_exchange :: "'s \<Rightarrow> (ipc_peer \<times> string) \<times> 's"
  pe_codec :: ipc_codec
  pe_clock :: "'s clock"

record SupervisorState =
  sv_process :: "int option"
  sv_client :: "DpdkClient option"
  sv_last_version :: "VersionPayload option"
  sv_last_health :: "HealthStateModel option"
  sv_last_error :: "string option"
  sv_last_exit_code :: "int option"

definition initial_supervisor :: SupervisorState where
  "initial_supervisor =
     \<lparr>sv_process = None, sv_client = None, sv_last_version = None, sv_last_health = None,
      sv_last_error = None, sv_last_exit_code = None\<rparr>"

type_synonym ('s, 'a) sprog = "(SupervisorState \<times> 's, 'a) prog"

definition update :: "(SupervisorState \<Rightarrow> SupervisorState) \<Rightarrow> ('s, unit) sprog" where
  "update f = bind get_fst (\<lambda>sv. put_fst (f sv))"

definition clear_history :: "SupervisorState \<Rightarrow> SupervisorState" where
  "clear_history sv =
     sv\<lparr>sv_last_version := None, sv_last_health := None, sv_last_error := None, sv_last_exit_code := None\<rparr>"

definition poll :: "'s process_env \<Rightarrow> int \<Rightarrow> ('s, int option) sprog" where
  "poll env pid = on_snd (step (\<lambda>s. case pe_poll env pid s of (code, s') \<Rightarrow> (Inr code, s')))"

definition signal :: "('s \<Rightarrow> 's) \<Rightarrow> ('s, unit) sprog" where
  "signal f = on_snd (step (\<lambda>s. (Inr (), f s)))"

definition consume_stderr :: "'s process_env \<Rightarrow> int \<Rightarrow> ('s, string) sprog" where
  "consume_stderr env pid =
     bind (on_snd (step (pe_stderr env pid))) (\<lambda>content.
       ret (case content of None \<Rightarrow> [] | Some text \<Rightarrow> str_strip text))"

section \<open>IPC state\<close>

definition process_error :: "string \<Rightarrow> pydict \<Rightarrow> exn" where
  "process_error message context = Pktlab (mk_ProcessExecutionError message (Some context))"

definition require_client :: "SupervisorConfig \<Rightarrow> ('s, DpdkClient) sprog" where
  "require_client cfg =
     bind get_fst (\<lambda>sv.
       case sv_client sv of
         None \<Rightarrow> raise (process_error ''datapath client is not initialized''
                   [(''socket_path'', PStr (sc_socket_path cfg))])
       | Some client \<Rightarrow> ret client)"

definition ipc_call ::
  "'s process_env \<Rightarrow> (ipc_codec \<Rightarrow> DpdkClient \<Rightarrow> ipc_peer \<Rightarrow> string \<Rightarrow> exn + 'p CommandResult) \<Rightarrow>
   DpdkClient \<Rightarrow> ('s, 'p CommandResult) sprog" where
  "ipc_call env command client =
     on_snd (step (\<lambda>s. case pe_exchange env s of ((peer, request_id), s') \<Rightarrow>
       (command (pe_codec env) client peer request_id, s')))"

fun DatapathErrorCode_value :: "DatapathErrorCode \<Rightarrow> string" where
  "DatapathErrorCode_value DEC_INVALID_REQUEST = ''INVALID_REQUEST''"
| "DatapathErrorCode_value DEC_INVALID_PAYLOAD = ''INVALID_PAYLOAD''"
| "DatapathErrorCode_value DEC_UNKNOWN_COMMAND = ''UNKNOWN_COMMAND''"
| "DatapathErrorCode_value DEC_RULE_VALIDATION_ERROR = ''RULE_VALIDATION_ERROR''"
| "DatapathErrorCode_value DEC_PORT_INIT_ERROR = ''PORT_INIT_ERROR''"
| "DatapathErrorCode_value DEC_STATE_CONFLICT = ''STATE_CONFLICT''"
| "DatapathErrorCode_value DEC_INTERNAL_ERROR = ''INTERNAL_ERROR''"

text \<open>The three checks treat a refusal alike: remember the message and raise it.\<close>

definition accept_or_raise ::
  "SupervisorConfig \<Rightarrow> string \<Rightarrow> 'p CommandResult \<Rightarrow> ('s, unit) sprog" where
  "accept_or_raise cfg what result =
     (case cr_error result of
        None \<Rightarrow> ret ()
      | Some err \<Rightarrow>
          (let code = DatapathErrorCode_value (de_code err);
               message = ''datapath '' @ what @ '' failed: '' @ code @ '': '' @ de_message err
           in then_do (update (\<lambda>sv. sv\<lparr>sv_last_error := Some message\<rparr>))
                (raise (process_error message
                   [(''socket_path'', PStr (sc_socket_path cfg)),
                    (''error'', PDict [(''code'', PStr code), (''message'', PStr (de_message err))])]))))"

definition refresh_ipc_state ::
  "'s process_env \<Rightarrow> SupervisorConfig \<Rightarrow> int \<Rightarrow> ('s, DatapathProcessStatus) sprog" where
  "refresh_ipc_state env cfg pid =
     bind (require_client cfg) (\<lambda>client.
     bind (ipc_call env ping client) (\<lambda>ping_result.
     then_do (accept_or_raise cfg ''readiness ping'' ping_result)
    (bind (ipc_call env get_health client) (\<lambda>health_result.
     then_do (accept_or_raise cfg ''health check'' health_result)
    (bind (ipc_call env get_version client) (\<lambda>version_result.
     then_do (accept_or_raise cfg ''version check'' version_result)
    (bind (lift_sum (cr_unwrap health_result)) (\<lambda>health.
     then_do (update (\<lambda>sv. sv\<lparr>sv_last_health := Some health\<rparr>))
    (bind (lift_sum (cr_unwrap version_result)) (\<lambda>version.
     then_do (update (\<lambda>sv. sv\<lparr>sv_last_version := Some version, sv_last_error := None,
                sv_last_exit_code := None\<rparr>))
      (ret ((default_status True (sc_socket_path cfg))
         \<lparr>ps_pid := Some pid, ps_running := True, ps_reachable := True, ps_version := Some version,
          ps_health := Some health\<rparr>))))))))))))"

text \<open>\<open>except DatapathTransportError as exc\<close>.\<close>

definition transport_failure :: "exn \<Rightarrow> PktlabError option" where
  "transport_failure e =
     (case e of
        Pktlab err \<Rightarrow> if err_class err = DatapathTransportErrorClass then Some err else None
      | _ \<Rightarrow> None)"

section \<open>Status\<close>

definition history_status :: "SupervisorConfig \<Rightarrow> SupervisorState \<Rightarrow> DatapathProcessStatus" where
  "history_status cfg sv =
     (default_status True (sc_socket_path cfg))
       \<lparr>ps_exit_code := sv_last_exit_code sv, ps_last_error := sv_last_error sv,
        ps_version := sv_last_version sv, ps_health := sv_last_health sv\<rparr>"

definition exited_status ::
  "SupervisorConfig \<Rightarrow> int \<Rightarrow> string \<Rightarrow> ('s, DatapathProcessStatus) sprog" where
  "exited_status cfg exit_code stderr =
     then_do (update (\<lambda>sv. sv\<lparr>sv_last_exit_code := Some exit_code,
        sv_last_error := Some (if stderr \<noteq> [] then stderr
          else str_or (sv_last_error sv) ''datapath process exited unexpectedly''),
        sv_process := None, sv_client := None\<rparr>))
    (bind get_fst (\<lambda>sv. ret (history_status cfg sv)))"

definition status_locked ::
  "'s process_env \<Rightarrow> SupervisorConfig \<Rightarrow> ('s, DatapathProcessStatus) sprog" where
  "status_locked env cfg =
     bind get_fst (\<lambda>sv.
       case sv_process sv of
         None \<Rightarrow> ret (history_status cfg sv)
       | Some pid \<Rightarrow>
           bind (poll env pid) (\<lambda>code.
             case code of
               Some exit_code \<Rightarrow>
                 bind (consume_stderr env pid) (\<lambda>stderr. exited_status cfg exit_code stderr)
             | None \<Rightarrow>
                 bind (attempt (refresh_ipc_state env cfg pid)) (\<lambda>r.
                   case r of
                     Inr status \<Rightarrow> ret status
                   | Inl e \<Rightarrow>
                       (case transport_failure e of
                          None \<Rightarrow> raise e
                        | Some err \<Rightarrow>
                            then_do (update (\<lambda>sv. sv\<lparr>sv_last_error := Some (err_message err)\<rparr>))
                           (bind get_fst (\<lambda>sv.
                              ret ((default_status True (sc_socket_path cfg))
                                \<lparr>ps_pid := Some pid, ps_running := True,
                                 ps_last_error := sv_last_error sv, ps_version := sv_last_version sv,
                                 ps_health := sv_last_health sv\<rparr>)))))))"

section \<open>Stopping\<close>

definition wait_for_exit :: "'s process_env \<Rightarrow> SupervisorConfig \<Rightarrow> int \<Rightarrow> ('s, unit) sprog" where
  "wait_for_exit env cfg pid =
     then_do (on_snd (step (pe_wait env pid (sc_shutdown_timeout_seconds cfg)))) (ret ())"

definition terminate_process :: "'s process_env \<Rightarrow> SupervisorConfig \<Rightarrow> int \<Rightarrow> ('s, unit) sprog" where
  "terminate_process env cfg pid =
     then_do (signal (pe_terminate env pid))
    (bind (attempt (wait_for_exit env cfg pid)) (\<lambda>r.
       case r of
         Inr _ \<Rightarrow> ret ()
       | Inl (PyTimeoutExpired _) \<Rightarrow>
           then_do (signal (pe_kill env pid)) (wait_for_exit env cfg pid)
       | Inl e \<Rightarrow> raise e))"

definition stop_locked :: "'s process_env \<Rightarrow> SupervisorConfig \<Rightarrow> bool \<Rightarrow> ('s, unit) sprog" where
  "stop_locked env cfg clear =
     bind get_fst (\<lambda>sv.
     then_do (update (\<lambda>sv. sv\<lparr>sv_process := None, sv_client := None\<rparr>))
       (let forget = (if clear then update clear_history else ret ()) in
        case sv_process sv of
          None \<Rightarrow> forget
        | Some pid \<Rightarrow>
            bind (poll env pid) (\<lambda>code.
            then_do (if code = None then terminate_process env cfg pid else ret ())
           (then_do (consume_stderr env pid) forget))))"

definition supervisor_stop :: "'s process_env \<Rightarrow> SupervisorConfig \<Rightarrow> ('s, unit) sprog" where
  "supervisor_stop env cfg = stop_locked env cfg True"

section \<open>Starting\<close>

text \<open>One round of the readiness loop: a status, an error, or another round after a sleep.\<close>

definition ready_round ::
  "'s process_env \<Rightarrow> SupervisorConfig \<Rightarrow> ('s, DatapathProcessStatus option) sprog" where
  "ready_round env cfg =
     bind get_fst (\<lambda>sv.
       case sv_process sv of
         None \<Rightarrow> raise (process_error ''datapath process state was lost during startup''
                   [(''socket_path'', PStr (sc_socket_path cfg))])
       | Some pid \<Rightarrow>
           bind (poll env pid) (\<lambda>code.
             case code of
               Some exit_code \<Rightarrow>
                 bind (consume_stderr env pid) (\<lambda>stderr.
                 then_do (update (\<lambda>sv. sv\<lparr>sv_last_exit_code := Some exit_code,
                    sv_last_error := Some (if stderr \<noteq> [] then stderr
                      else ''datapath process exited before readiness'')\<rparr>))
                   (raise (process_error ''datapath process exited before readiness was confirmed''
                      [(''binary_path'', PStr (sc_dpdkd_binary cfg)),
                       (''socket_path'', PStr (sc_socket_path cfg)), (''exit_code'', PInt exit_code),
                       (''stderr'', text_or_none stderr)])))
             | None \<Rightarrow>
                 bind (attempt (refresh_ipc_state env cfg pid)) (\<lambda>r.
                   case r of
                     Inr status \<Rightarrow> ret (Some status)
                   | Inl e \<Rightarrow>
                       (case transport_failure e of
                          None \<Rightarrow> raise e
                        | Some err \<Rightarrow>
                            then_do (update (\<lambda>sv. sv\<lparr>sv_last_error := Some (err_message err)\<rparr>))
                              (ret None)))))"

definition pair_clock :: "'s clock \<Rightarrow> ('c \<times> 's) clock" where
  "pair_clock clk =
     \<lparr>clk_monotonic = (\<lambda>(c, s). (fst (clk_monotonic clk s), (c, snd (clk_monotonic clk s)))),
      clk_sleep = (\<lambda>d (c, s). (c, clk_sleep clk d s))\<rparr>"

definition wait_for_ready ::
  "'s process_env \<Rightarrow> SupervisorConfig \<Rightarrow> ('s, DatapathProcessStatus) sprog" where
  "wait_for_ready env cfg =
     bind (read_clock (pair_clock (pe_clock env))) (\<lambda>now.
     bind (poll_loop (pair_clock (pe_clock env)) (ready_round env cfg)
             (now + sc_startup_timeout_seconds cfg) (sc_poll_interval_seconds cfg)) (\<lambda>r.
       case r of
         Some status \<Rightarrow> ret status
       | None \<Rightarrow>
           raise (process_error ''timed out waiting for datapath IPC readiness''
             [(''binary_path'', PStr (sc_dpdkd_binary cfg)), (''socket_path'', PStr (sc_socket_path cfg)),
              (''timeout_seconds'', PFloat (sc_startup_timeout_seconds cfg))])))"

definition launch_command :: "SupervisorConfig \<Rightarrow> string list" where
  "launch_command cfg =
     sc_launch_prefix cfg @ [sc_dpdkd_binary cfg, ''--socket-path'', sc_socket_path cfg]
     @ sc_extra_args cfg"

definition launch ::
  "'s process_env \<Rightarrow> SupervisorConfig \<Rightarrow> ('s, DatapathProcessStatus) sprog" where
  "launch env cfg =
     then_do (update clear_history)
    (bind (on_snd (step (pe_popen env (launch_command cfg)))) (\<lambda>pid.
     then_do (update (\<lambda>sv. sv\<lparr>sv_process := Some pid\<rparr>))
    (bind (lift_sum (DpdkClient_init (sc_socket_path cfg) 1)) (\<lambda>client.
     then_do (update (\<lambda>sv. sv\<lparr>sv_client := Some client\<rparr>))
    (bind (attempt (wait_for_ready env cfg)) (\<lambda>r.
       case r of
         Inr status \<Rightarrow> ret status
       | Inl e \<Rightarrow> then_do (stop_locked env cfg False) (raise e)))))))"

definition supervisor_start ::
  "'s process_env \<Rightarrow> SupervisorConfig \<Rightarrow> ('s, DatapathProcessStatus) sprog" where
  "supervisor_start env cfg =
     bind get_fst (\<lambda>sv.
       case sv_process sv of
         None \<Rightarrow> launch env cfg
       | Some pid \<Rightarrow>
           bind (poll env pid) (\<lambda>code.
             if code = None then wait_for_ready env cfg else launch env cfg))"

section \<open>Commands to a reachable datapath\<close>

definition reachable_call ::
  "'s process_env \<Rightarrow> SupervisorConfig \<Rightarrow> string \<Rightarrow>
   (ipc_codec \<Rightarrow> DpdkClient \<Rightarrow> ipc_peer \<Rightarrow> string \<Rightarrow> exn + 'p CommandResult) \<Rightarrow>
   ('s, 'p CommandResult) sprog" where
  "reachable_call env cfg what command =
     bind (status_locked env cfg) (\<lambda>status.
       if \<not> ps_reachable status then
         raise (Pktlab (mk_DatapathTransportError
           (''datapath IPC is not reachable for '' @ what)
           (Some [(''socket_path'', PStr (sc_socket_path cfg))])))
       else bind (require_client cfg) (\<lambda>client. ipc_call env command client))"

definition supervisor_get_ports ::
  "'s process_env \<Rightarrow> SupervisorConfig \<Rightarrow> ('s, PortInfoModel list CommandResult) sprog" where
  "supervisor_get_ports env cfg = reachable_call env cfg ''port status'' get_ports"

definition supervisor_get_stats ::
  "'s process_env \<Rightarrow> SupervisorConfig \<Rightarrow> ('s, DatapathStatsModel CommandResult) sprog" where
  "supervisor_get_stats env cfg = reachable_call env cfg ''stats'' get_stats"

definition supervisor_reset_stats ::
  "'s process_env \<Rightarrow> SupervisorConfig \<Rightarrow> ('s, AckPayload CommandResult) sprog" where
  "supervisor_reset_stats env cfg = reachable_call env cfg ''stats reset'' reset_stats"

definition supervisor_pause_datapath ::
  "'s process_env \<Rightarrow> SupervisorConfig \<Rightarrow> ('s, AckPayload CommandResult) sprog" where
  "supervisor_pause_datapath env cfg = reachable_call env cfg ''pause'' pause_datapath"

definition supervisor_resume_datapath ::
  "'s process_env \<Rightarrow> SupervisorConfig \<Rightarrow> ('s, AckPayload CommandResult) sprog" where
  "supervisor_resume_datapath env cfg = reachable_call env cfg ''resume'' resume_datapath"

section \<open>What the operations keep\<close>

text \<open>
  A client exists whenever a process does, so the check for it never fails; and a status says
  nothing contradictory: reachable only when running, running exactly when there is a pid, and
  versions and health known when reachable.
\<close>

definition supervisor_inv :: "SupervisorState \<Rightarrow> bool" where
  "supervisor_inv sv \<longleftrightarrow> (sv_process sv \<noteq> None \<longrightarrow> sv_client sv \<noteq> None)"

definition status_ok :: "DatapathProcessStatus \<Rightarrow> bool" where
  "status_ok st \<longleftrightarrow>
     ps_managed st \<and> (ps_running st \<longleftrightarrow> ps_pid st \<noteq> None) \<and>
     (ps_reachable st \<longrightarrow> ps_running st \<and> ps_health st \<noteq> None \<and> ps_version st \<noteq> None \<and>
        ps_last_error st = None) \<and>
     (ps_running st \<longrightarrow> ps_exit_code st = None)"

definition same_process :: "SupervisorState \<Rightarrow> SupervisorState \<Rightarrow> bool" where
  "same_process sv sv' \<longleftrightarrow> sv_process sv' = sv_process sv \<and> sv_client sv' = sv_client sv"

lemma same_process_refl [simp]: "same_process sv sv"
  by (simp add: same_process_def)

lemma outcome_update [exec_simps]: "outcome (update f) Q E (sv, s) \<longleftrightarrow> Q () (f sv, s)"
  by (simp add: update_def exec_simps)

lemma ipc_call_outcome:
  assumes "W s" and "\<And>s. W s \<Longrightarrow> W (snd (pe_exchange env s))"
  shows "outcome (ipc_call env command client) (\<lambda>r (sv', s'). sv' = sv \<and> W s')
    (\<lambda>e (sv', s'). sv' = sv \<and> W s') (sv, s)"
  using assms(2) [OF assms(1)]
  by (auto simp: ipc_call_def exec_simps split: prod.splits sum.splits)

lemma accept_or_raise_outcome:
  "outcome (accept_or_raise cfg what r) (\<lambda>_ (sv', s'). (sv', s') = (sv, s) \<and> cr_error r = None)
     (\<lambda>e (sv', s'). same_process sv sv' \<and> s' = s) (sv, s)"
  by (auto simp: accept_or_raise_def exec_simps Let_def same_process_def split: option.splits)

definition live_status :: "int \<Rightarrow> DatapathProcessStatus \<Rightarrow> bool" where
  "live_status pid st \<longleftrightarrow> status_ok st \<and> ps_pid st = Some pid \<and> ps_reachable st"

lemma refresh_tail_outcome:
  "W s \<Longrightarrow> same_process sv0 sv \<Longrightarrow> outcome
    (bind (lift_sum (cr_unwrap health_result)) (\<lambda>health.
     then_do (update (\<lambda>sv. sv\<lparr>sv_last_health := Some health\<rparr>))
    (bind (lift_sum (cr_unwrap version_result)) (\<lambda>version.
     then_do (update (\<lambda>sv. sv\<lparr>sv_last_version := Some version, sv_last_error := None,
                sv_last_exit_code := None\<rparr>))
      (ret ((default_status True path)
         \<lparr>ps_pid := Some pid, ps_running := True, ps_reachable := True, ps_version := Some version,
          ps_health := Some health\<rparr>))))))
    (\<lambda>st (sv', s'). live_status pid st \<and> same_process sv0 sv' \<and> W s')
    (\<lambda>e (sv', s'). same_process sv0 sv' \<and> W s') (sv, s)"
  by (auto simp: exec_simps same_process_def live_status_def status_ok_def default_status_def
      split: sum.splits)

lemma refresh_outcome:
  assumes W: "W s" and keep: "\<And>s. W s \<Longrightarrow> W (snd (pe_exchange env s))"
  shows "outcome (refresh_ipc_state env cfg pid)
    (\<lambda>st (sv', s'). live_status pid st \<and> same_process sv sv' \<and> W s')
    (\<lambda>e (sv', s'). same_process sv sv' \<and> W s') (sv, s)"
proof (cases "sv_client sv")
  case None
  with W show ?thesis by (simp add: refresh_ipc_state_def require_client_def exec_simps)
next
  case (Some client)
  let ?E = "\<lambda>e :: exn. \<lambda>(sv', s'). same_process sv sv' \<and> W s'"
  have call: "outcome (ipc_call env command client) Q ?E (sv, s1)"
    if "W s1" "\<And>r s2. W s2 \<Longrightarrow> Q r (sv, s2)" for command Q s1
    by (rule outcome_mono [OF ipc_call_outcome [where W = W, OF that(1) keep]])
      (use that(2) in auto)
  have accept: "outcome (accept_or_raise cfg what r) Q ?E (sv, s1)"
    if "W s1" "Q () (sv, s1)" for what r Q s1
    by (rule outcome_mono [OF accept_or_raise_outcome]) (use that in auto)
  show ?thesis
    unfolding refresh_ipc_state_def require_client_def outcome_bind outcome_then outcome_get_fst Some
      option.case outcome_ret
    by (intro call accept W refresh_tail_outcome [unfolded outcome_bind outcome_then outcome_ret]) simp_all
qed

lemma poll_outcome [exec_simps]:
  "outcome (poll env pid) Q E (sv, s) \<longleftrightarrow> Q (fst (pe_poll env pid s)) (sv, snd (pe_poll env pid s))"
  by (simp add: poll_def exec_simps split: prod.splits)

lemma signal_outcome [exec_simps]: "outcome (signal f) Q E (sv, s) \<longleftrightarrow> Q () (sv, f s)"
  by (simp add: signal_def exec_simps)

lemma consume_stderr_outcome:
  assumes "\<And>text s'. Q text (sv, s')" and "\<And>e s'. E e (sv, s')"
  shows "outcome (consume_stderr env pid) Q E (sv, s)"
  using assms by (auto simp: consume_stderr_def exec_simps split: prod.splits sum.splits)

lemma history_status_ok: "status_ok (history_status cfg sv) \<and> ps_pid (history_status cfg sv) = None \<and>
   \<not> ps_running (history_status cfg sv)"
  by (simp add: history_status_def status_ok_def default_status_def)

text \<open>Asking for the status never changes which process is supervised, except to notice its end.\<close>

lemma status_outcome:
  "outcome (status_locked env cfg)
     (\<lambda>st (sv', s'). status_ok st \<and> ps_pid st = sv_process sv' \<and>
        (same_process sv sv' \<or> sv_process sv' = None \<and> sv_client sv' = None))
     (\<lambda>e (sv', s'). same_process sv sv') (sv, s)"
proof (cases "sv_process sv")
  case None
  then show ?thesis by (simp add: status_locked_def exec_simps history_status_ok)
next
  case (Some pid)
  let ?s = "snd (pe_poll env pid s)"
  show ?thesis
  proof (cases "fst (pe_poll env pid s)")
    case code: (Some code)
    show ?thesis
      unfolding status_locked_def outcome_bind outcome_get_fst Some option.case poll_outcome code
      by (rule consume_stderr_outcome) (simp_all add: exited_status_def exec_simps history_status_ok)
  next
    case None
    note refresh = refresh_outcome [where W = "\<lambda>_. True" and s = ?s and env = env and cfg = cfg and pid = pid
        and sv = sv]
    show ?thesis
      unfolding status_locked_def outcome_bind outcome_get_fst Some option.case poll_outcome None
        outcome_attempt
    proof (rule outcome_mono [OF refresh], goal_cases)
      case (3 st cs')
      then show ?case by (auto simp: exec_simps live_status_def same_process_def Some)
    next
      case (4 e cs')
      then show ?case
        by (cases "transport_failure e")
          (auto simp: exec_simps same_process_def Some status_ok_def default_status_def)
    qed simp_all
  qed
qed

lemma wait_for_exit_outcome:
  assumes "\<And>s'. Q () (sv, s')" and "\<And>e s'. E e (sv, s')"
  shows "outcome (wait_for_exit env cfg pid) Q E (sv, s)"
  using assms by (auto simp: wait_for_exit_def exec_simps split: prod.splits sum.splits)

lemma terminate_outcome:
  assumes "\<And>s'. Q () (sv, s')" and "\<And>e s'. E e (sv, s')"
  shows "outcome (terminate_process env cfg pid) Q E (sv, s)"
  unfolding terminate_process_def outcome_then signal_outcome outcome_bind outcome_attempt
proof (rule wait_for_exit_outcome)
  fix e s'
  show "outcome (case Inl e of Inr _ \<Rightarrow> ret ()
      | Inl (PyTimeoutExpired _) \<Rightarrow> then_do (signal (pe_kill env pid)) (wait_for_exit env cfg pid)
      | Inl e \<Rightarrow> raise e) Q E (sv, s')"
    using assms by (cases e) (auto simp: exec_simps intro!: wait_for_exit_outcome)
qed (simp add: exec_simps assms)

lemma stop_locked_outcome:
  "outcome (stop_locked env cfg clear)
     (\<lambda>_ (sv', s'). sv' = (if clear then clear_history else id) (sv\<lparr>sv_process := None, sv_client := None\<rparr>))
     (\<lambda>e (sv', s'). sv' = sv\<lparr>sv_process := None, sv_client := None\<rparr>) (sv, s)"
proof (cases "sv_process sv")
  case None
  then show ?thesis by (simp add: stop_locked_def exec_simps Let_def)
next
  case (Some pid)
  let ?sv = "sv\<lparr>sv_process := None, sv_client := None\<rparr>"
  have tail: "outcome (then_do (consume_stderr env pid) (if clear then update clear_history else ret ()))
      (\<lambda>_ (sv', s'). sv' = (if clear then clear_history else id) ?sv) (\<lambda>e (sv', s'). sv' = ?sv) (?sv, s1)" for s1
    unfolding outcome_then by (rule consume_stderr_outcome) (simp_all add: exec_simps)
  show ?thesis
    unfolding stop_locked_def outcome_bind outcome_get_fst outcome_then [where m = "update _"] outcome_update
      Let_def Some option.case poll_outcome
  proof (cases "fst (pe_poll env pid s)")
    case None
    then show "outcome (then_do (if fst (pe_poll env pid s) = None then terminate_process env cfg pid else ret ())
        (then_do (consume_stderr env pid) (if clear then update clear_history else ret ())))
      (\<lambda>_ (sv', s'). sv' = (if clear then clear_history else id) ?sv) (\<lambda>e (sv', s'). sv' = ?sv)
      (?sv, snd (pe_poll env pid s))"
      using tail by (subst outcome_then) (cases clear; auto intro!: terminate_outcome)
  next
    case (Some code)
    then show "outcome (then_do (if fst (pe_poll env pid s) = None then terminate_process env cfg pid else ret ())
        (then_do (consume_stderr env pid) (if clear then update clear_history else ret ())))
      (\<lambda>_ (sv', s'). sv' = (if clear then clear_history else id) ?sv) (\<lambda>e (sv', s'). sv' = ?sv)
      (?sv, snd (pe_poll env pid s))"
      using tail by (subst outcome_then) (simp add: exec_simps)
  qed
qed

section \<open>Starting, on a clock that moves on\<close>

locale supervised = steady_clock "pe_clock env" time
  for env :: "'s process_env" and time :: "'s \<Rightarrow> rat" +
  assumes poll_takes_time: "time s \<le> time (snd (pe_poll env pid s))"
    and exchange_takes_time: "time s \<le> time (snd (pe_exchange env s))"
begin

sublocale paired: steady_clock "pair_clock (pe_clock env)" "\<lambda>cs :: SupervisorState \<times> 's. time (snd cs)"
  by unfold_locales (auto simp: pair_clock_def reads_time read_keeps sleep_advances split: prod.splits)

lemma ready_round_outcome:
  assumes "sv_process sv = Some pid"
  shows "outcome (ready_round env cfg)
    (\<lambda>r (sv', s'). same_process sv sv' \<and>
       (case r of None \<Rightarrow> time s \<le> time s' | Some st \<Rightarrow> live_status pid st))
    (\<lambda>e (sv', s'). same_process sv sv') (sv, s)"
proof (cases "fst (pe_poll env pid s)")
  case (Some code)
  show ?thesis
    unfolding ready_round_def outcome_bind outcome_get_fst assms option.case poll_outcome Some
    by (rule consume_stderr_outcome) (simp_all add: exec_simps same_process_def)
next
  case None
  let ?s = "snd (pe_poll env pid s)"
  have le: "time s \<le> time ?s" by (rule poll_takes_time)
  have keep: "time s \<le> time s1 \<Longrightarrow> time s \<le> time (snd (pe_exchange env s1))" for s1
    using exchange_takes_time [of s1] by simp
  note refresh = refresh_outcome [where W = "\<lambda>s'. time s \<le> time s'" and s = ?s and env = env
      and cfg = cfg and pid = pid and sv = sv, OF le keep]
  show ?thesis
    unfolding ready_round_def outcome_bind outcome_get_fst assms option.case poll_outcome None
      outcome_attempt
  proof (rule outcome_mono [OF refresh], goal_cases)
    case (2 st cs')
    then show ?case by (auto simp: exec_simps)
  next
    case (3 e cs')
    then show ?case
      by (cases "transport_failure e") (auto simp: exec_simps same_process_def)
  qed
qed

lemma wait_for_ready_outcome:
  assumes "sv_process sv = Some pid" and "0 < sc_poll_interval_seconds cfg"
  shows "outcome (wait_for_ready env cfg)
    (\<lambda>st (sv', s'). live_status pid st \<and> same_process sv sv')
    (\<lambda>e (sv', s'). same_process sv sv') (sv, s)"
proof -
  let ?clk = "pair_clock (pe_clock env) :: (SupervisorState \<times> 's) clock"
  have fst_clock: "fst (snd (clk_monotonic ?clk cs)) = fst cs" "fst (clk_sleep ?clk d cs) = fst cs" for cs d
    by (simp_all add: pair_clock_def split: prod.splits)
  have loop: "outcome (poll_loop ?clk (ready_round env cfg) deadline (sc_poll_interval_seconds cfg))
      (\<lambda>r cs'. case r of None \<Rightarrow> same_process sv (fst cs')
         | Some st \<Rightarrow> live_status pid st \<and> same_process sv (fst cs'))
      (\<lambda>e cs'. same_process sv (fst cs')) cs" if "same_process sv (fst cs)" for deadline cs
  proof (rule paired.poll_loop_outcome [where I = "\<lambda>cs'. same_process sv (fst cs')"], goal_cases)
    case (3 cs1)
    then have "sv_process (fst cs1) = Some pid" using assms(1) by (simp add: same_process_def)
    from ready_round_outcome [OF this, of cfg "snd cs1"]
    have "outcome (ready_round env cfg)
        (\<lambda>r (sv', s'). same_process (fst cs1) sv' \<and>
          (case r of None \<Rightarrow> time (snd cs1) \<le> time s' | Some st \<Rightarrow> live_status pid st))
        (\<lambda>e (sv', s'). same_process (fst cs1) sv') cs1" by simp
    then show ?case
      by (rule outcome_mono) (use 3 in \<open>auto simp: same_process_def split: option.splits\<close>)
  qed (use assms(2) that in \<open>simp_all add: fst_clock\<close>)
  show ?thesis
    unfolding wait_for_ready_def read_clock_def outcome_bind outcome_step
    by (auto split: prod.split intro!: outcome_mono [OF loop] simp: exec_simps split: option.splits)
      (metis fst_clock(1) fst_conv same_process_refl snd_conv)+
qed

lemma client_init_ok:
  assumes "SupervisorConfig_post_init cfg = Inr cfg"
  shows "DpdkClient_init (sc_socket_path cfg) 1 =
      Inr \<lparr>cl_socket_path = sc_socket_path cfg, cl_timeout_seconds = 1\<rparr>"
    and "0 < sc_poll_interval_seconds cfg"
  using assms by (auto simp: SupervisorConfig_post_init_def DpdkClient_init_def str_strip_def
      split: if_splits)

lemma launch_outcome:
  assumes cfg: "SupervisorConfig_post_init cfg = Inr cfg"
  shows "outcome (launch env cfg)
    (\<lambda>st (sv', s'). \<exists>pid. live_status pid st \<and> sv_process sv' = Some pid \<and> sv_client sv' \<noteq> None)
    (\<lambda>e (sv', s'). same_process sv sv' \<or> sv_process sv' = None \<and> sv_client sv' = None) (sv, s)"
proof -
  obtain r s1 where p: "pe_popen env (launch_command cfg) s = (r, s1)" by (rule prod.exhaust)
  show ?thesis
  proof (cases r)
    case (Inl e)
    with p show ?thesis
      by (simp add: launch_def exec_simps clear_history_def same_process_def)
  next
    case (Inr pid)
    let ?client = "\<lparr>cl_socket_path = sc_socket_path cfg, cl_timeout_seconds = 1\<rparr>"
    let ?sv = "(clear_history sv)\<lparr>sv_process := Some pid, sv_client := Some ?client\<rparr>"
    have "outcome (wait_for_ready env cfg)
        (\<lambda>st (sv', s'). \<exists>pid. live_status pid st \<and> sv_process sv' = Some pid \<and> sv_client sv' \<noteq> None)
        (\<lambda>e. outcome (then_do (stop_locked env cfg False) (raise e))
          (\<lambda>st (sv', s'). \<exists>pid. live_status pid st \<and> sv_process sv' = Some pid \<and> sv_client sv' \<noteq> None)
          (\<lambda>e (sv', s'). same_process sv sv' \<or> sv_process sv' = None \<and> sv_client sv' = None))
        (?sv, s1)"
    proof (rule outcome_mono [OF wait_for_ready_outcome], goal_cases)
      case (4 e cs')
      then show ?case
        by (cases cs') (auto simp: outcome_then outcome_raise intro!: outcome_mono [OF stop_locked_outcome])
    qed (auto simp: client_init_ok [OF cfg] same_process_def)
    with p Inr show ?thesis
      by (simp add: launch_def exec_simps client_init_ok [OF cfg])
        (erule outcome_mono, simp_all add: outcome_ret)
  qed
qed

lemma start_outcome:
  assumes cfg: "SupervisorConfig_post_init cfg = Inr cfg" and inv: "supervisor_inv sv"
  shows "outcome (supervisor_start env cfg)
    (\<lambda>st (sv', s'). status_ok st \<and> ps_reachable st \<and> ps_pid st = sv_process sv' \<and> supervisor_inv sv')
    (\<lambda>e (sv', s'). supervisor_inv sv' \<and> sv_process sv' \<in> {None, sv_process sv}) (sv, s)"
proof -
  have launch: "outcome (launch env cfg)
      (\<lambda>st (sv', s'). status_ok st \<and> ps_reachable st \<and> ps_pid st = sv_process sv' \<and> supervisor_inv sv')
      (\<lambda>e (sv', s'). supervisor_inv sv' \<and> sv_process sv' \<in> {None, sv_process sv}) (sv, s1)" for s1
    by (rule outcome_mono [OF launch_outcome [OF cfg]])
      (use inv in \<open>auto simp: live_status_def supervisor_inv_def same_process_def\<close>)
  show ?thesis
  proof (cases "sv_process sv")
    case None
    with launch show ?thesis by (simp add: supervisor_start_def exec_simps)
  next
    case (Some pid)
    have "outcome (wait_for_ready env cfg)
      (\<lambda>st (sv', s'). status_ok st \<and> ps_reachable st \<and> ps_pid st = sv_process sv' \<and> supervisor_inv sv')
      (\<lambda>e (sv', s'). supervisor_inv sv' \<and> sv_process sv' \<in> {None, sv_process sv}) (sv, s1)" for s1
      by (rule outcome_mono [OF wait_for_ready_outcome [OF Some client_init_ok(2) [OF cfg]]])
        (use inv Some in \<open>auto simp: live_status_def supervisor_inv_def same_process_def\<close>)
    with launch Some show ?thesis by (simp add: supervisor_start_def exec_simps)
  qed
qed

end

section \<open>A simulated datapath\<close>

text \<open>
  A datapath that gets its socket ready after some time, and answers every command. The world is
  the time and the pid of the process, if one runs. A request is one byte, its command; the answer
  repeats it.
\<close>

record sim_world =
  sw_time :: rat
  sw_pid :: "int option"

fun command_byte :: "DatapathCommand \<Rightarrow> byte" where
  "command_byte Cmd_ping = 1"
| "command_byte Cmd_get_version = 2"
| "command_byte Cmd_get_health = 3"
| "command_byte Cmd_get_ports = 4"
| "command_byte Cmd_get_stats = 5"
| "command_byte Cmd_reset_stats = 6"
| "command_byte Cmd_pause_datapath = 7"
| "command_byte Cmd_resume_datapath = 8"

definition sim_codec :: ipc_codec where
  "sim_codec =
     \<lparr>dump_json = (\<lambda>r. [command_byte (rq_cmd r)]),
      json_decode = (\<lambda>bs. JsonValue (PDict
        [(''id'', PStr ''req-1''), (''ok'', PBool True), (''payload'', PDict [])])),
      errors_of = (\<lambda>_. PNone),
      ack_validate = (\<lambda>_. Inr \<lparr>ack_message = ''ok''\<rparr>),
      version_validate = (\<lambda>_. Inr \<lparr>vp_service = ''pktlab-dpdkd'', vp_version = ''0.1.0'', vp_dpdk_version = ''23.11''\<rparr>),
      health_validate = (\<lambda>_. Inr \<lparr>hs_state = DS_running, hs_message = ''forwarding'',
        hs_applied_rule_version = 1, hs_ports_ready = True, hs_paused = False\<rparr>),
      ports_validate = (\<lambda>_. Inr []),
      stats_validate = (\<lambda>_. Inl PNone)\<rparr>"

definition sim_peer :: "sim_world \<Rightarrow> ipc_peer" where
  "sim_peer w =
     \<lparr>peer_connect = (if sw_time w < 1 then Some (FileNotFoundError, ''no such file'') else None),
      peer_sendall = (\<lambda>_. None), peer_reply = (\<lambda>sent. [Chunk [0, 0], Chunk [0, 1, 123]])\<rparr>"

definition sim_env :: "sim_world process_env" where
  "sim_env =
     \<lparr>pe_popen = (\<lambda>argv w. (Inr 42, w\<lparr>sw_pid := Some 42\<rparr>)),
      pe_poll = (\<lambda>pid w. (if sw_pid w = Some pid then None else Some 0, w)),
      pe_terminate = (\<lambda>pid w. w\<lparr>sw_pid := None\<rparr>), pe_kill = (\<lambda>pid w. w\<lparr>sw_pid := None\<rparr>),
      pe_wait = (\<lambda>pid t w. (Inr 0, w)), pe_stderr = (\<lambda>pid w. (Inr (Some []), w)),
      pe_exchange = (\<lambda>w. ((sim_peer w, ''req-1''), w)), pe_codec = sim_codec,
      pe_clock = \<lparr>clk_monotonic = (\<lambda>w. (sw_time w, w)), clk_sleep = (\<lambda>d w. w\<lparr>sw_time := sw_time w + d\<rparr>)\<rparr>\<rparr>"

interpretation sim: supervised sim_env sw_time
  by unfold_locales (simp_all add: sim_env_def)

definition sim_config :: SupervisorConfig where
  "sim_config =
     \<lparr>sc_dpdkd_binary = ''pktlab-dpdkd'', sc_socket_path = ''/run/pktlab/dpdkd.sock'',
      sc_launch_prefix = [], sc_extra_args = [], sc_startup_timeout_seconds = 5,
      sc_poll_interval_seconds = 1 / 20, sc_shutdown_timeout_seconds = 5\<rparr>"

lemma sim_config_ok: "SupervisorConfig_post_init sim_config = Inr sim_config"
  by (simp add: SupervisorConfig_post_init_def sim_config_def str_strip_def char_isspace_def)

section \<open>Properties\<close>

text \<open>C8. Starting returns, on a clock that moves on. When it succeeds the status is consistent, the
  datapath reachable, and its pid the supervised one; when it fails no new process stays supervised.
  Either way a supervised process has a client.\<close>

theorem start_ready_or_stopped:
  assumes "supervised env time" and "SupervisorConfig_post_init cfg = Inr cfg"
    and "supervisor_inv sv"
  shows "outcome (supervisor_start env cfg)
    (\<lambda>st (sv', _). status_ok st \<and> ps_reachable st \<and> ps_pid st = sv_process sv' \<and> supervisor_inv sv')
    (\<lambda>_ (sv', _). supervisor_inv sv' \<and> sv_process sv' \<in> {None, sv_process sv})
    (sv, s)"
  by (rule supervised.start_outcome [OF assms])

theorem start_ready_or_stopped_witness:
  "outcome (supervisor_start sim_env sim_config)
    (\<lambda>st (sv', _). status_ok st \<and> ps_reachable st \<and> ps_pid st = sv_process sv' \<and> supervisor_inv sv')
    (\<lambda>_ (sv', _). supervisor_inv sv' \<and> sv_process sv' = None)
    (initial_supervisor, \<lparr>sw_time = 0, sw_pid = None\<rparr>)"
  using start_ready_or_stopped [OF sim.supervised_axioms sim_config_ok, of initial_supervisor
      "\<lparr>sw_time = 0, sw_pid = None\<rparr>"]
  by (simp add: initial_supervisor_def supervisor_inv_def)



end
