(* ===== verification/Topology_Manager.thy ===== *)
theory Topology_Manager
  imports Frames Supervisor
begin

text \<open>
  The topology manager (\<open>ctrld/pktlab_ctrld/topology/manager.py\<close>): apply and destroy with their
  cleanup and error merging. The manager's own state is the currently applied topology; the rest of
  the world, which the command runner and the datapath callbacks change, is the second part of the
  state of its programs. The arguments of the constructor (runner, loader, validator, datapath
  callbacks, TAP timing) are the record \<open>manager\<close>. The lock serialises the operations, so each
  runs on its own.
\<close>

datatype TopologyOperation = Op_apply | Op_destroy

record TopologyOperationResult =
  tr_operation :: TopologyOperation
  tr_topology_name :: "string option"
  tr_config_path :: "string option"
  tr_applied :: bool
  tr_datapath_namespace :: "string option"
  tr_datapath_running :: bool
  tr_message :: string
  tr_requested_dpdk_config :: "DpdkProcessConfigModel option"
  tr_effective_dpdk_config :: "EffectiveDpdkRuntimeModel option"

record AppliedTopology =
  at_config_path :: string
  at_validated :: ValidatedTopologyConfig

record 's manager =
  tm_run :: "'s runner"
  tm_clock :: "'s clock"
  tm_load_topology :: "string \<Rightarrow> ('s, TopologyConfigModel) prog"
  tm_validate_topology :: "TopologyConfigModel \<Rightarrow> exn + ValidatedTopologyConfig"
  tm_start_datapath :: "(ValidatedTopologyConfig \<Rightarrow> ('s, DatapathProcessStatus) prog) option"
  tm_stop_datapath :: "('s, unit) prog option"
  tm_tap_timeout_seconds :: rat
  tm_tap_poll_interval_seconds :: rat

text \<open>The manager's attribute \<open>_current\<close>.\<close>

type_synonym current = "AppliedTopology option"

definition has_applied_topology :: "current \<Rightarrow> bool" where
  "has_applied_topology c \<longleftrightarrow> c \<noteq> None"

section \<open>Datapath callbacks\<close>

definition start_datapath_locked ::
  "'s manager \<Rightarrow> ValidatedTopologyConfig \<Rightarrow> ('s, DatapathProcessStatus) prog" where
  "start_datapath_locked mgr validated =
     (case tm_start_datapath mgr of
        None \<Rightarrow> raise (Pktlab (mk_PktlabError STATE_CONFLICT
          ''topology manager cannot start pktlab-dpdkd because no datapath start callback is configured''
          None))
      | Some start \<Rightarrow> start validated)"

definition stop_datapath_locked :: "'s manager \<Rightarrow> ('s, unit) prog" where
  "stop_datapath_locked mgr = (case tm_stop_datapath mgr of None \<Rightarrow> ret () | Some stop \<Rightarrow> stop)"

section \<open>Destroying\<close>

text \<open>\<open>try: ... except PktlabError as exc: errors.append(exc)\<close>: the errors to append.\<close>

definition collect_error :: "('s, unit) prog \<Rightarrow> ('s, PktlabError list) prog" where
  "collect_error m =
     bind (attempt m) (\<lambda>r.
       case r of
         Inr _ \<Rightarrow> ret []
       | Inl (Pktlab e) \<Rightarrow> ret [e]
       | Inl e \<Rightarrow> raise e)"

definition destroy_error :: "ValidatedTopologyConfig \<Rightarrow> PktlabError list \<Rightarrow> PktlabError" where
  "destroy_error validated errors =
     mk_PktlabError TOPOLOGY_DESTROY_ERROR ''failed to destroy topology cleanly''
       (Some [(''topology_name'', PStr (lab_name (tc_lab (vt_topology validated)))),
              (''errors'', PList (map (\<lambda>e. PDict (PktlabError_to_dict e)) errors))])"

definition destroy_locked :: "'s manager \<Rightarrow> ValidatedTopologyConfig \<Rightarrow> ('s, unit) prog" where
  "destroy_locked mgr validated =
     bind (collect_error (stop_datapath_locked mgr)) (\<lambda>stop_errors.
     bind (collect_error (destroy_links_and_bridges (tm_run mgr) validated)) (\<lambda>link_errors.
     bind (collect_error (destroy_namespaces (tm_run mgr) validated)) (\<lambda>namespace_errors.
       let errors = stop_errors @ link_errors @ namespace_errors in
       if errors \<noteq> [] then raise (Pktlab (destroy_error validated errors)) else ret ())))"

text \<open>\<open>_cleanup_failed_apply\<close>: a clean destroy, or the error it ended with.\<close>

definition cleanup_failed_apply ::
  "'s manager \<Rightarrow> ValidatedTopologyConfig \<Rightarrow> ('s, PktlabError option) prog" where
  "cleanup_failed_apply mgr validated =
     bind (attempt (destroy_locked mgr validated)) (\<lambda>r.
       case r of
         Inr _ \<Rightarrow> ret None
       | Inl (Pktlab e) \<Rightarrow> ret (Some e)
       | Inl e \<Rightarrow> raise e)"

definition merge_cleanup_error :: "PktlabError \<Rightarrow> PktlabError \<Rightarrow> PktlabError" where
  "merge_cleanup_error err cleanup_error =
     (let context = AList.update ''cleanup_error'' (PDict (PktlabError_to_dict cleanup_error))
                      (err_context err)
      in mk_PktlabError (err_code err) (err_message err) (if context \<noteq> [] then Some context else None))"

section \<open>Applying\<close>

text \<open>\<open>str(exc)\<close> of an exception that is not the project's own.\<close>

fun exn_text :: "exn \<Rightarrow> string" where
  "exn_text (Pktlab e) = err_message e"
| "exn_text (PyValueError m) = m"
| "exn_text (PyTypeError m) = m"
| "exn_text (PyRuntimeError m) = m"
| "exn_text (PyOverflowError m) = m"
| "exn_text (PydanticError m) = m"
| "exn_text (PyOSError k m) = m"
| "exn_text (PyTimeoutExpired m) = m"

definition apply_failure ::
  "string \<Rightarrow> ValidatedTopologyConfig \<Rightarrow> exn \<Rightarrow> PktlabError option \<Rightarrow> PktlabError" where
  "apply_failure config_path validated exc cleanup_error =
     (case exc of
        Pktlab e \<Rightarrow> (case cleanup_error of None \<Rightarrow> e | Some c \<Rightarrow> merge_cleanup_error e c)
      | _ \<Rightarrow>
          mk_PktlabError TOPOLOGY_APPLY_ERROR ''failed to apply topology''
            (Some ([(''config_path'', PStr config_path),
                    (''topology_name'', PStr (lab_name (tc_lab (vt_topology validated)))),
                    (''detail'', PStr (exn_text exc))]
              @ (case cleanup_error of None \<Rightarrow> []
                 | Some c \<Rightarrow> [(''cleanup_error'', PDict (PktlabError_to_dict c))]))))"

definition operation_result ::
  "TopologyOperation \<Rightarrow> ValidatedTopologyConfig \<Rightarrow> string \<Rightarrow> bool \<Rightarrow> bool \<Rightarrow> string \<Rightarrow>
   TopologyOperationResult" where
  "operation_result operation validated config_path applied running message =
     \<lparr>tr_operation = operation,
      tr_topology_name = Some (lab_name (tc_lab (vt_topology validated))),
      tr_config_path = Some config_path, tr_applied = applied,
      tr_datapath_namespace = Some (dc_namespace (vt_requested_dpdk_config validated)),
      tr_datapath_running = running, tr_message = message,
      tr_requested_dpdk_config = Some (vt_requested_dpdk_config validated),
      tr_effective_dpdk_config = Some (vt_effective_dpdk_config validated)\<rparr>"

text \<open>The body of the \<open>try\<close>: everything between the old lab and the new.\<close>

definition build_topology ::
  "'s manager \<Rightarrow> ValidatedTopologyConfig \<Rightarrow> ('s, DatapathProcessStatus) prog" where
  "build_topology mgr validated =
     then_do (ensure_namespaces (tm_run mgr) validated)
    (then_do (ensure_links (tm_run mgr) validated)
    (then_do (ensure_bridges (tm_run mgr) validated)
    (bind (start_datapath_locked mgr validated) (\<lambda>datapath_status.
     then_do (reconcile_taps (tm_run mgr) (tm_clock mgr) (tm_tap_timeout_seconds mgr)
                (tm_tap_poll_interval_seconds mgr) validated)
    (then_do (bring_link_endpoints_up (tm_run mgr) validated)
    (then_do (ensure_routes (tm_run mgr) validated)
       (ret datapath_status)))))))"

definition manager_apply ::
  "'s manager \<Rightarrow> string \<Rightarrow> (current \<times> 's, TopologyOperationResult) prog" where
  "manager_apply mgr config_path =
     bind (on_snd (tm_load_topology mgr config_path)) (\<lambda>loaded.
     bind (lift_sum (tm_validate_topology mgr loaded)) (\<lambda>validated.
     bind get_fst (\<lambda>current.
     then_do
       (case current of
          None \<Rightarrow> ret ()
        | Some applied \<Rightarrow>
            then_do (on_snd (destroy_locked mgr (at_validated applied))) (put_fst None))
      (bind (attempt (on_snd (build_topology mgr validated))) (\<lambda>r.
         case r of
           Inl exc \<Rightarrow>
             bind (on_snd (cleanup_failed_apply mgr validated)) (\<lambda>cleanup_error.
               raise (Pktlab (apply_failure config_path validated exc cleanup_error)))
         | Inr datapath_status \<Rightarrow>
             then_do
               (put_fst (Some \<lparr>at_config_path = config_path, at_validated = validated\<rparr>))
               (ret (operation_result Op_apply validated config_path True
                       (ps_running datapath_status) ''topology applied'')))))))"

definition nothing_applied :: TopologyOperationResult where
  "nothing_applied =
     \<lparr>tr_operation = Op_destroy, tr_topology_name = None, tr_config_path = None, tr_applied = False,
      tr_datapath_namespace = None, tr_datapath_running = False,
      tr_message = ''no topology is currently applied'', tr_requested_dpdk_config = None,
      tr_effective_dpdk_config = None\<rparr>"

definition manager_destroy :: "'s manager \<Rightarrow> (current \<times> 's, TopologyOperationResult) prog" where
  "manager_destroy mgr =
     bind get_fst (\<lambda>current.
       case current of
         None \<Rightarrow> ret nothing_applied
       | Some applied \<Rightarrow>
           then_do (on_snd (destroy_locked mgr (at_validated applied)))
          (then_do (put_fst None)
             (ret (operation_result Op_destroy (at_validated applied) (at_config_path applied) False
                     False ''topology destroyed''))))"

section \<open>What destroying does, whatever the environment\<close>

text \<open>The project errors a result stands for, when it stands for nothing else.\<close>

fun result_errors :: "exn + unit \<Rightarrow> PktlabError list option" where
  "result_errors (Inr u) = Some []"
| "result_errors (Inl (Pktlab e)) = Some [e]"
| "result_errors (Inl e) = None"

lemma collect_error_run:
  assumes "m s = Some (r, s')" and "result_errors r = Some es"
  shows "collect_error m s = Some (Inr es, s')"
  using assms by (cases r rule: result_errors.cases)
    (simp_all add: collect_error_def bind_def attempt_def ret_def)

lemma destroy_locked_run:
  assumes "stop_datapath_locked mgr s = Some (r1, s1)" and "result_errors r1 = Some e1"
    and "destroy_links_and_bridges (tm_run mgr) v s1 = Some (r2, s2)" and "result_errors r2 = Some e2"
    and "destroy_namespaces (tm_run mgr) v s2 = Some (r3, s3)" and "result_errors r3 = Some e3"
  shows "destroy_locked mgr v s =
    Some (if e1 @ e2 @ e3 = [] then Inr () else Inl (Pktlab (destroy_error v (e1 @ e2 @ e3))), s3)"
  using collect_error_run [of "stop_datapath_locked mgr" s, OF assms(1,2)]
    collect_error_run [of "destroy_links_and_bridges (tm_run mgr) v" s1, OF assms(3,4)]
    collect_error_run [of "destroy_namespaces (tm_run mgr) v" s2, OF assms(5,6)]
  by (simp add: destroy_locked_def bind_def ret_def raise_def)

lemma apply_failure_code:
  "err_code (apply_failure path v exc ce) =
     (case exc of Pktlab e \<Rightarrow> err_code e | _ \<Rightarrow> TOPOLOGY_APPLY_ERROR)"
  by (auto simp: apply_failure_def merge_cleanup_error_def Let_def split: exn.splits option.splits)

lemma apply_failure_context:
  assumes "cleanup = Some ce"
  shows "map_of (err_context (apply_failure path v exc cleanup)) ''cleanup_error'' =
     Some (PDict (PktlabError_to_dict ce))"
  using assms
  by (cases exc) (simp_all add: apply_failure_def merge_cleanup_error_def Let_def mk_PktlabError_def
      update_conv)

section \<open>The lab the manager builds\<close>

text \<open>
  The manager on a host that keeps the laws of \<open>lab_host\<close>, with callbacks that return and leave
  namespaces alone. Some interfaces belong to the datapath process that runs at the moment, if any: a
  command or the passing of time gives it no others, starting a datapath may take those of the old
  process away and adds new ones, and stopping it only takes interfaces away.
\<close>

locale managed_lab = lab_host run nss links clk time
  for run :: "'s runner" and nss links and clk :: "'s clock" and time +
  fixes own :: "'s \<Rightarrow> (string \<times> string) set" and mgr :: "'s manager"
  assumes run_wired: "tm_run mgr = run" and clock_wired: "tm_clock mgr = clk"
    and tap_timing: "0 < tm_tap_timeout_seconds mgr" "0 < tm_tap_poll_interval_seconds mgr"
    and run_own: "own (snd (run argv s)) \<subseteq> own s"
    and read_own: "own (snd (clk_monotonic clk s)) \<subseteq> own s"
    and sleep_own: "own (clk_sleep clk d s) \<subseteq> own s"
    and load_frame: "outcome (tm_load_topology mgr path) (\<lambda>_ s'. same s s' \<and> own s' \<subseteq> own s)
      (\<lambda>_ s'. same s s' \<and> own s' \<subseteq> own s) s"
    and start_frame: "tm_start_datapath mgr = Some start \<Longrightarrow>
      outcome (start v) (\<lambda>_ s'. nss s' = nss s \<and> links s - own s \<subseteq> links s')
        (\<lambda>_ s'. nss s' = nss s) s"
    and stop_frame: "tm_stop_datapath mgr = Some stop \<Longrightarrow>
      outcome stop (\<lambda>_ s'. nss s' = nss s \<and> links s' \<subseteq> links s \<and> own s' \<subseteq> own s)
        (\<lambda>_ s'. nss s' = nss s \<and> links s' \<subseteq> links s \<and> own s' \<subseteq> own s) s"
begin

sublocale owned: untouched "\<lambda>s. own s \<subseteq> A" run clk for A
  by unfold_locales (use run_own read_own sleep_own in blast)+

lemma start_outcome:
  "outcome (start_datapath_locked mgr v) (\<lambda>_ s'. nss s' = nss s \<and> links s - own s \<subseteq> links s')
     (\<lambda>_ s'. nss s' = nss s) s"
  by (cases "tm_start_datapath mgr") (simp_all add: start_datapath_locked_def exec_simps start_frame)

lemma stop_outcome:
  "outcome (stop_datapath_locked mgr) (\<lambda>_ s'. nss s' = nss s \<and> links s' \<subseteq> links s \<and> own s' \<subseteq> own s)
     (\<lambda>_ s'. nss s' = nss s \<and> links s' \<subseteq> links s \<and> own s' \<subseteq> own s) s"
  by (cases "tm_stop_datapath mgr") (simp_all add: stop_datapath_locked_def exec_simps stop_frame)

text \<open>A collected program ends normally with its errors in the list, or raises what is no project error.\<close>

lemma collect_error_outcome:
  assumes "outcome m Q E s"
  shows "outcome (collect_error m)
    (\<lambda>es s'. (es = [] \<and> Q () s') \<or> (es \<noteq> [] \<and> (\<exists>e. E e s'))) (\<lambda>e s'. E e s') s"
  unfolding collect_error_def exec_simps
  by (rule outcome_mono [OF assms]) (auto simp: exec_simps split: exn.split)

definition destroyed :: "ValidatedTopologyConfig \<Rightarrow> 's \<Rightarrow> 's \<Rightarrow> bool" where
  "destroyed v s s' \<longleftrightarrow>
     nss s' = nss s - lab_namespaces v \<and> own s' \<subseteq> own s \<and>
     links s' \<subseteq> links s - lab_bridges v - (\<lambda>l. split_ref (lk_a l)) ` set (tc_links (vt_topology v))"

definition partly_destroyed :: "ValidatedTopologyConfig \<Rightarrow> 's \<Rightarrow> 's \<Rightarrow> bool" where
  "partly_destroyed v s s' \<longleftrightarrow>
     nss s - lab_namespaces v \<subseteq> nss s' \<and> nss s' \<subseteq> nss s \<and> links s' \<subseteq> links s \<and> own s' \<subseteq> own s"

lemma destroy_locked_outcome:
  "outcome (destroy_locked mgr v) (\<lambda>_ s'. destroyed v s s') (\<lambda>_ s'. partly_destroyed v s s') s"
  unfolding destroy_locked_def outcome_bind run_wired
proof (rule outcome_mono [OF collect_error_outcome [OF stop_outcome]], goal_cases)
  case stop: (1 e1 s1)
  then have o1: "own s1 \<subseteq> own s" by auto
  show ?case
  proof (rule outcome_mono [OF collect_error_outcome [OF outcome_keeps [OF
          destroy_links_and_bridges_outcome owned.keeps_destroy_links o1]]], goal_cases)
    case links: (1 e2 s2)
    then have o2: "own s2 \<subseteq> own s" by auto
    show ?case
      using stop links
      by (intro outcome_mono [OF collect_error_outcome [OF outcome_keeps [OF
              destroy_namespaces_outcome owned.keeps_destroy_namespaces o2]]])
        (auto simp: exec_simps Let_def destroyed_def partly_destroyed_def)
  qed (use stop in \<open>auto simp: partly_destroyed_def\<close>)
qed (auto simp: partly_destroyed_def)

text \<open>No interface of the running datapath has the name of one the lab needs.\<close>

definition separate :: "ValidatedTopologyConfig \<Rightarrow> 's \<Rightarrow> bool" where
  "separate v s \<longleftrightarrow> own s \<inter> (lab_ends v \<union> lab_bridges v) = {}"

definition built :: "ValidatedTopologyConfig \<Rightarrow> 's \<Rightarrow> 's \<Rightarrow> bool" where
  "built v s s' \<longleftrightarrow>
     nss s' = nss s \<union> lab_namespaces v \<and> lab_ends v \<union> lab_bridges v \<subseteq> links s' \<and>
     (\<forall>role p. port_name_for_role v role = Inr p \<longrightarrow> (dpdk_namespace_of v, p) \<in> links s')"

definition partly_built :: "ValidatedTopologyConfig \<Rightarrow> 's \<Rightarrow> 's \<Rightarrow> bool" where
  "partly_built v s s' \<longleftrightarrow> nss s \<subseteq> nss s' \<and> nss s' \<subseteq> nss s \<union> lab_namespaces v"

lemma build_outcome:
  "outcome (build_topology mgr v) (\<lambda>_ s'. separate v s \<longrightarrow> built v s s') (\<lambda>_ s'. partly_built v s s') s"
  unfolding build_topology_def run_wired clock_wired outcome_then outcome_bind
proof (rule outcome_mono [OF outcome_keeps [OF ensure_namespaces_outcome
        owned.keeps_ensure_namespaces subset_refl]], goal_cases)
  case 1: (1 x1 s1)
  then have o1: "own s1 \<subseteq> own s" by auto
  show ?case
  proof (rule outcome_mono [OF outcome_keeps [OF ensure_links_outcome owned.keeps_ensure_links o1]], goal_cases)
    case 2: (1 x2 s2)
    then have o2: "own s2 \<subseteq> own s" by auto
    show ?case
    proof (rule outcome_mono [OF outcome_keeps [OF ensure_bridges_outcome owned.keeps_ensure_bridges o2]],
        goal_cases)
      case 3: (1 x3 s3)
      show ?case
      proof (rule outcome_mono [OF start_outcome], goal_cases)
        case 4: (1 x4 s4)
        have "lab_ends v \<union> lab_bridges v \<subseteq> links s3" using 2 3 by blast
        moreover have "own s3 \<subseteq> own s" using 3 by blast
        ultimately have "separate v s \<Longrightarrow> lab_ends v \<union> lab_bridges v \<subseteq> links s3 - own s3"
          unfolding separate_def by blast
        with 4 have ends: "separate v s \<Longrightarrow> lab_ends v \<union> lab_bridges v \<subseteq> links s4" by blast
        show ?case
        proof (rule outcome_mono [OF reconcile_taps_outcome [OF tap_timing]], goal_cases)
          case 5: (1 x5 s5)
          have "built v s s5" if "separate v s" using 1 2 3 4 5 ends [OF that] by (auto simp: built_def)
          moreover have "partly_built v s s5" using 1 2 3 4 5 by (auto simp: partly_built_def)
          ultimately show ?case
            by (intro outcome_mono [OF bring_link_endpoints_up_outcome]
                outcome_mono [OF ensure_routes_outcome])
              (auto simp: exec_simps same_def built_def partly_built_def)
        qed (use 1 2 3 4 in \<open>auto simp: partly_built_def\<close>)
      qed (use 1 2 3 in \<open>auto simp: partly_built_def\<close>)
    qed (use 1 2 in \<open>auto simp: partly_built_def\<close>)
  qed (use 1 in \<open>auto simp: partly_built_def\<close>)
qed (auto simp: partly_built_def)

lemma cleanup_outcome:
  "outcome (cleanup_failed_apply mgr v)
     (\<lambda>ce s'. (ce = None \<and> destroyed v s s') \<or> (ce \<noteq> None \<and> partly_destroyed v s s'))
     (\<lambda>e s'. (\<forall>err. e \<noteq> Pktlab err) \<and> partly_destroyed v s s') s"
  unfolding cleanup_failed_apply_def exec_simps
  by (rule outcome_mono [OF destroy_locked_outcome]) (auto simp: exec_simps split: exn.split)

definition old_namespaces :: "current \<Rightarrow> string set" where
  "old_namespaces c = (case c of None \<Rightarrow> {} | Some a \<Rightarrow> lab_namespaces (at_validated a))"

text \<open>An error that does not report a failed cleanup.\<close>

definition clean_failure :: "exn \<Rightarrow> bool" where
  "clean_failure e \<longleftrightarrow> (\<exists>err. e = Pktlab err \<and> map_of (err_context err) ''cleanup_error'' = None)"

definition apply_done :: "string \<Rightarrow> ValidatedTopologyConfig \<Rightarrow> current \<Rightarrow> 's \<Rightarrow> current \<times> 's \<Rightarrow> bool" where
  "apply_done path v c s cs' \<longleftrightarrow>
     fst cs' = Some \<lparr>at_config_path = path, at_validated = v\<rparr> \<and>
     nss (snd cs') = (nss s - old_namespaces c) \<union> lab_namespaces v \<and>
     lab_ends v \<union> lab_bridges v \<subseteq> links (snd cs') \<and>
     (\<forall>role p. port_name_for_role v role = Inr p \<longrightarrow> (dpdk_namespace_of v, p) \<in> links (snd cs'))"

definition apply_failed :: "ValidatedTopologyConfig \<Rightarrow> current \<Rightarrow> 's \<Rightarrow> exn \<Rightarrow> current \<times> 's \<Rightarrow> bool" where
  "apply_failed v c s e cs' \<longleftrightarrow>
     fst cs' \<in> {c, None} \<and>
     nss s - old_namespaces c - lab_namespaces v \<subseteq> nss (snd cs') \<and>
     nss (snd cs') \<subseteq> nss s \<union> lab_namespaces v \<and>
     (clean_failure e \<longrightarrow> nss (snd cs') \<subseteq> nss s)"

lemma rebuild_outcome:
  assumes "nss s0 = nss s - old_namespaces c"
  shows "outcome (bind (attempt (on_snd (build_topology mgr v))) (\<lambda>r.
         case r of
           Inl exc \<Rightarrow>
             bind (on_snd (cleanup_failed_apply mgr v)) (\<lambda>cleanup_error.
               raise (Pktlab (apply_failure path v exc cleanup_error)))
         | Inr st \<Rightarrow>
             then_do (put_fst (Some \<lparr>at_config_path = path, at_validated = v\<rparr>))
               (ret (operation_result Op_apply v path True (ps_running st) ''topology applied''))))
     (\<lambda>_ cs'. separate v s0 \<longrightarrow> apply_done path v c s cs') (apply_failed v c s) (None, s0)"
  unfolding outcome_bind outcome_attempt outcome_on_snd
proof (rule outcome_mono [OF build_outcome], goal_cases)
  case (1 st s1)
  then show ?case using assms(1) by (simp add: exec_simps apply_done_def built_def)
next
  case (2 exc s1)
  have "clean_failure (Pktlab (apply_failure path v exc ce)) \<Longrightarrow> ce = None" for ce
    using apply_failure_context by (cases ce) (auto simp: clean_failure_def)
  with 2 assms(1) show ?case
    by (simp add: exec_simps, intro outcome_mono [OF cleanup_outcome])
      (auto simp: exec_simps apply_failed_def partly_built_def destroyed_def partly_destroyed_def
        clean_failure_def)
qed

lemma separate_mono: "separate v s \<Longrightarrow> own s' \<subseteq> own s \<Longrightarrow> separate v s'"
  by (auto simp: separate_def)

text \<open>From the point where the new topology is known.\<close>

lemma replace_outcome:
  assumes "nss s1 = nss s" and "own s1 \<subseteq> own s"
  shows "outcome
      (then_do
        (case c of
           None \<Rightarrow> ret ()
         | Some applied \<Rightarrow> then_do (on_snd (destroy_locked mgr (at_validated applied))) (put_fst None))
       (bind (attempt (on_snd (build_topology mgr v))) (\<lambda>r.
         case r of
           Inl exc \<Rightarrow>
             bind (on_snd (cleanup_failed_apply mgr v)) (\<lambda>cleanup_error.
               raise (Pktlab (apply_failure path v exc cleanup_error)))
         | Inr st \<Rightarrow>
             then_do (put_fst (Some \<lparr>at_config_path = path, at_validated = v\<rparr>))
               (ret (operation_result Op_apply v path True (ps_running st) ''topology applied'')))))
    (\<lambda>_ cs'. separate v s \<longrightarrow> apply_done path v c s cs') (apply_failed v c s) (c, s1)"
proof (cases c)
  case None
  have "outcome
       (bind (attempt (on_snd (build_topology mgr v))) (\<lambda>r.
         case r of
           Inl exc \<Rightarrow>
             bind (on_snd (cleanup_failed_apply mgr v)) (\<lambda>cleanup_error.
               raise (Pktlab (apply_failure path v exc cleanup_error)))
         | Inr st \<Rightarrow>
             then_do (put_fst (Some \<lparr>at_config_path = path, at_validated = v\<rparr>))
               (ret (operation_result Op_apply v path True (ps_running st) ''topology applied''))))
    (\<lambda>_ cs'. separate v s \<longrightarrow> apply_done path v c s cs') (apply_failed v c s) (None, s1)"
    using assms None separate_mono [OF _ assms(2)]
    by (intro outcome_mono [OF rebuild_outcome]) (auto simp: old_namespaces_def)
  with None show ?thesis by (simp add: outcome_then outcome_ret)
next
  case (Some a)
  have destroy: "outcome (destroy_locked mgr (at_validated a))
      (\<lambda>_ s'. nss s' = nss s - old_namespaces c \<and> own s' \<subseteq> own s)
      (\<lambda>e s'. apply_failed v c s e (c, s')) s1"
    by (rule outcome_mono [OF destroy_locked_outcome])
      (use assms in \<open>auto simp: destroyed_def partly_destroyed_def Some old_namespaces_def apply_failed_def\<close>)
  show ?thesis
    unfolding Some option.case outcome_then [where k = "bind _ _"] outcome_then [where k = "put_fst _"]
      outcome_on_snd
    by (rule outcome_mono [OF destroy [unfolded Some]], simp add: outcome_put_fst,
        rule outcome_mono [OF rebuild_outcome]) (auto simp: Some intro: separate_mono)
qed

lemma apply_outcome:
  "outcome (manager_apply mgr path)
    (\<lambda>_ cs'. \<exists>config v s0. tm_load_topology mgr path s = Some (Inr config, s0) \<and>
       tm_validate_topology mgr config = Inr v \<and> (separate v s \<longrightarrow> apply_done path v c s cs'))
    (\<lambda>e cs'. (\<exists>config v s0. tm_load_topology mgr path s = Some (Inr config, s0) \<and>
       tm_validate_topology mgr config = Inr v \<and> apply_failed v c s e cs') \<or>
       fst cs' = c \<and> same s (snd cs')) (c, s)"
proof -
  obtain r s1 where load: "tm_load_topology mgr path s = Some (r, s1)"
    using outcome_returns [OF load_frame] by blast
  from load_frame [of path s] load have s1: "same s s1" "own s1 \<subseteq> own s"
    by (auto simp: outcome_def split: sum.splits)
  show ?thesis
  proof (cases r)
    case (Inl e)
    with load s1 show ?thesis
      by (simp add: manager_apply_def outcome_bind outcome_on_snd) (simp add: outcome_def)
  next
    case (Inr config)
    show ?thesis
    proof (cases "tm_validate_topology mgr config")
      case (Inl e)
      with load Inr s1 show ?thesis
        by (simp add: manager_apply_def outcome_bind outcome_on_snd)
          (simp add: outcome_def [where m = "tm_load_topology mgr path"] outcome_lift_sum)
    next
      case v: (Inr v)
      have "outcome (tm_load_topology mgr path) (\<lambda>l s'. l = config \<and> s' = s1) (\<lambda>_ _. False) s"
        using load Inr by (simp add: outcome_def)
      then show ?thesis
        unfolding manager_apply_def outcome_bind [where m = "on_snd (tm_load_topology _ _)"] outcome_on_snd
        by (rule outcome_mono)
          (use s1 load Inr v in \<open>auto simp: outcome_bind [where m = "lift_sum _"] outcome_lift_sum
            outcome_bind [where m = get_fst] outcome_get_fst same_def
            intro!: outcome_mono [OF replace_outcome [where s = s]]\<close>)
    qed
  qed
qed

lemma manager_destroy_outcome:
  "outcome (manager_destroy mgr)
     (\<lambda>_ (c', s'). c' = None \<and> nss s' = nss s - old_namespaces c)
     (\<lambda>_ (c', s'). c' = c \<and> nss s - old_namespaces c \<subseteq> nss s' \<and> nss s' \<subseteq> nss s) (c, s)"
proof (cases c)
  case None
  then show ?thesis by (simp add: manager_destroy_def exec_simps old_namespaces_def)
next
  case (Some a)
  show ?thesis
    unfolding manager_destroy_def Some
    by (simp add: exec_simps, rule outcome_mono [OF destroy_locked_outcome])
      (auto simp: destroyed_def partly_destroyed_def old_namespaces_def)
qed

end

section \<open>Properties\<close>

text \<open>C35. Destroying goes through all its phases: as long as stopping the datapath, deleting the
  links and deleting the namespaces end normally or with errors of the project, each runs in the
  state the one before left, and the operation ends with exactly the errors they raised, in order.\<close>

theorem destroy_runs_every_phase:
  assumes "stop_datapath_locked mgr s = Some (r1, s1)" and "result_errors r1 = Some e1"
    and "destroy_links_and_bridges (tm_run mgr) validated s1 = Some (r2, s2)" and "result_errors r2 = Some e2"
    and "destroy_namespaces (tm_run mgr) validated s2 = Some (r3, s3)" and "result_errors r3 = Some e3"
  shows "destroy_locked mgr validated s =
    Some (if e1 @ e2 @ e3 = [] then Inr ()
          else Inl (Pktlab (destroy_error validated (e1 @ e2 @ e3))), s3)"
  by (rule destroy_locked_run [OF assms])



end
