(* ===== verification/Controller.thy ===== *)
theory Controller
  imports Topology_Manager Ctrl_State
begin

text \<open>
  The controller runtime (\<open>ctrld/pktlab_ctrld/app.py\<close>): its lifecycle, the topology operations,
  the health view and the datapath commands. Its attributes are the record \<open>ControllerRuntime\<close>;
  the supervisor it owns is part of it, and the topology manager is the one its constructor builds,
  whose callbacks start and stop that supervisor. The state of a controller program is the manager's
  current topology, the runtime and the rest of the world; the parts the operating system provides
  (commands, processes, clock, files) are the parameter \<open>env\<close>.
\<close>

section \<open>Configuration and snapshots\<close>

record ControllerConfig =
  cc_datapath_binary :: string
  cc_datapath_socket_path :: string
  cc_datapath_startup_timeout_seconds :: rat
  cc_supervise_datapath :: bool

definition ControllerConfig_post_init :: "ControllerConfig \<Rightarrow> exn + ControllerConfig" where
  "ControllerConfig_post_init c =
     (if str_strip (cc_datapath_binary c) = [] then
        Inl (PyValueError ''datapath_binary must be a non-empty string'')
      else if str_strip (cc_datapath_socket_path c) = [] then
        Inl (PyValueError ''datapath_socket_path must be a non-empty string'')
      else if cc_datapath_startup_timeout_seconds c \<le> 0 then
        Inl (PyValueError ''datapath_startup_timeout_seconds must be greater than zero'')
      else Inr c)"

record ControllerHealthSnapshot =
  hn_controller_service :: string
  hn_controller_version :: string
  hn_controller_state :: ControllerState
  hn_controller_message :: string
  hn_desired_state :: DesiredState
  hn_observed_state :: ObservedState
  hn_datapath_status :: DatapathProcessStatus

record DatapathRuntimeStatusSnapshot =
  ds_controller_snapshot :: ControllerHealthSnapshot
  ds_ports :: "PortInfoModel list"

record DatapathRuntimeStatsSnapshot =
  dt_datapath_status :: DatapathProcessStatus
  dt_stats :: DatapathStatsModel

record DatapathStatsResetResult =
  dr_datapath_status :: DatapathProcessStatus
  dr_stats :: DatapathStatsModel
  dr_message :: string

record DatapathControlResult =
  dl_datapath_status :: DatapathProcessStatus
  dl_message :: string

text \<open>\<open>pktlab_ctrld.__version__\<close>.\<close>

definition controller_version :: string where
  "controller_version = ''0.1.0''"

section \<open>State\<close>

record supervisor =
  su_config :: SupervisorConfig
  su_state :: SupervisorState

record ControllerRuntime =
  rt_desired_state :: DesiredState
  rt_observed_state :: ObservedState
  rt_controller_state :: ControllerState
  rt_controller_message :: string
  rt_override_message :: "string option"
  rt_started :: bool
  rt_supervisor :: "supervisor option"

record 'w controller_env =
  ce_process :: "'w process_env"
  ce_run :: "'w runner"
  ce_load_topology :: "string \<Rightarrow> ('w, TopologyConfigModel) prog"

type_synonym ('w, 'a) cprog = "(ControllerRuntime \<times> 'w, 'a) prog"

definition modify :: "(ControllerRuntime \<Rightarrow> ControllerRuntime) \<Rightarrow> ('w, unit) cprog" where
  "modify f = bind get_fst (\<lambda>rt. put_fst (f rt))"

text \<open>A method of the supervisor \<open>su\<close>, the value of the attribute \<open>_supervisor\<close>.\<close>

definition on_supervisor :: "(SupervisorConfig \<Rightarrow> ('w, 'a) sprog) \<Rightarrow> supervisor \<Rightarrow> ('w, 'a) cprog" where
  "on_supervisor method su rw =
     map_option (\<lambda>(r, (sv, w)).
         (r, ((fst rw)\<lparr>rt_supervisor := Some (su\<lparr>su_state := sv\<rparr>)\<rparr>, w)))
       (method (su_config su) (su_state su, snd rw))"

definition stop_supervisor :: "'w controller_env \<Rightarrow> ('w, unit) cprog" where
  "stop_supervisor env =
     bind get_fst (\<lambda>rt.
       case rt_supervisor rt of
         None \<Rightarrow> ret ()
       | Some su \<Rightarrow> on_supervisor (supervisor_stop (ce_process env)) su)"

section \<open>Health\<close>

definition unmanaged_datapath_status :: "ControllerConfig \<Rightarrow> DatapathProcessStatus" where
  "unmanaged_datapath_status cfg =
     default_status (cc_supervise_datapath cfg) (cc_datapath_socket_path cfg)"

definition current_datapath_status ::
  "'w controller_env \<Rightarrow> ControllerConfig \<Rightarrow> ('w, DatapathProcessStatus) cprog" where
  "current_datapath_status env cfg =
     bind get_fst (\<lambda>rt.
       case rt_supervisor rt of
         None \<Rightarrow> ret (unmanaged_datapath_status cfg)
       | Some su \<Rightarrow>
           if rt_started rt then on_supervisor (status_locked (ce_process env)) su
           else ret (unmanaged_datapath_status cfg))"

definition observed_from_datapath ::
  "ControllerRuntime \<Rightarrow> DatapathProcessStatus \<Rightarrow> bool \<Rightarrow> EffectiveDpdkRuntimeModel option \<Rightarrow>
   exn + ObservedState" where
  "observed_from_datapath rt status applied effective =
     ObservedState_post_init
       \<lparr>datapath_health = map_option hs_state (ps_health status),
        applied_rules_version = map_option hs_applied_rule_version (ps_health status),
        dpdkd_pid = ps_pid status, effective_dpdk_config = effective,
        active_captures = active_captures (rt_observed_state rt), topology_applied = applied\<rparr>"

text \<open>The assignment to \<open>_observed_state\<close>, and its form that keeps the topology fields.\<close>

definition observe ::
  "DatapathProcessStatus \<Rightarrow> bool \<Rightarrow> EffectiveDpdkRuntimeModel option \<Rightarrow> ('w, unit) cprog" where
  "observe status applied effective =
     bind get_fst (\<lambda>rt.
     bind (lift_sum (observed_from_datapath rt status applied effective)) (\<lambda>observed.
       modify (\<lambda>rt. rt\<lparr>rt_observed_state := observed\<rparr>)))"

definition observe_same_topology :: "DatapathProcessStatus \<Rightarrow> ('w, unit) cprog" where
  "observe_same_topology status =
     bind get_fst (\<lambda>rt.
       observe status (topology_applied (rt_observed_state rt))
         (effective_dpdk_config (rt_observed_state rt)))"

fun DatapathState_value :: "DatapathState \<Rightarrow> string" where
  "DatapathState_value DS_starting = ''starting''"
| "DatapathState_value DS_running = ''running''"
| "DatapathState_value DS_paused = ''paused''"
| "DatapathState_value DS_degraded = ''degraded''"
| "DatapathState_value DS_stopping = ''stopping''"
| "DatapathState_value DS_failed = ''failed''"

definition set_health :: "ControllerState \<Rightarrow> string \<Rightarrow> ControllerRuntime \<Rightarrow> ControllerRuntime" where
  "set_health state message rt = rt\<lparr>rt_controller_state := state, rt_controller_message := message\<rparr>"

definition recompute_controller_health ::
  "ControllerConfig \<Rightarrow> DatapathProcessStatus \<Rightarrow> ControllerRuntime \<Rightarrow> ControllerRuntime" where
  "recompute_controller_health cfg status rt =
     (case rt_override_message rt of
        Some message \<Rightarrow> set_health CS_degraded message rt
      | None \<Rightarrow>
          if \<not> rt_started rt \<and> rt_controller_state rt = CS_stopped then
            rt\<lparr>rt_controller_message := ''controller is not started''\<rparr>
          else if \<not> cc_supervise_datapath cfg then
            set_health CS_running ''controller ready without datapath supervision'' rt
          else if \<not> desired_datapath_running (rt_desired_state rt) then
            (if ps_running status then
               set_health CS_degraded ''datapath process is running without an active topology'' rt
             else set_health CS_running ''controller ready without active topology'' rt)
          else if \<not> ps_running status then
            set_health CS_degraded (str_or (ps_last_error status) ''datapath process is not running'') rt
          else if \<not> ps_reachable status \<or> ps_health status = None then
            set_health CS_degraded (str_or (ps_last_error status) ''datapath IPC is not reachable'') rt
          else
            (case ps_health status of
               Some health \<Rightarrow>
                 if hs_state health = DS_running then set_health CS_running ''controller ready'' rt
                 else set_health CS_degraded
                   (''datapath reported state '' @ DatapathState_value (hs_state health) @ '': ''
                      @ hs_message health) rt
             | None \<Rightarrow> rt))"

definition recompute :: "ControllerConfig \<Rightarrow> DatapathProcessStatus \<Rightarrow> ('w, unit) cprog" where
  "recompute cfg status = modify (recompute_controller_health cfg status)"

text \<open>\<open>_clear_controller_override\<close> and the two assignments that follow it everywhere.\<close>

definition begin_operation :: "ControllerState \<Rightarrow> string \<Rightarrow> ControllerRuntime \<Rightarrow> ControllerRuntime" where
  "begin_operation state message rt = set_health state message (rt\<lparr>rt_override_message := None\<rparr>)"

definition desired_state_without_topology :: "ControllerRuntime \<Rightarrow> DesiredState" where
  "desired_state_without_topology rt =
     default_DesiredState
       \<lparr>desired_controller_state := (if rt_started rt then CS_running else CS_stopped),
        desired_datapath_running := False\<rparr>"

section \<open>The datapath of a topology\<close>

definition build_supervisor_config ::
  "ControllerConfig \<Rightarrow> string option \<Rightarrow> string list \<Rightarrow> exn + SupervisorConfig" where
  "build_supervisor_config cfg namespace extra_args =
     SupervisorConfig_post_init
       \<lparr>sc_dpdkd_binary = cc_datapath_binary cfg, sc_socket_path = cc_datapath_socket_path cfg,
        sc_launch_prefix = (case namespace of None \<Rightarrow> [] | Some ns \<Rightarrow> [''ip'', ''netns'', ''exec'', ns]),
        sc_extra_args = extra_args,
        sc_startup_timeout_seconds = cc_datapath_startup_timeout_seconds cfg,
        sc_poll_interval_seconds = 1 / 20, sc_shutdown_timeout_seconds = 5\<rparr>"

definition runtime_port_name_for_role :: "ValidatedTopologyConfig \<Rightarrow> PortRole \<Rightarrow> exn + string" where
  "runtime_port_name_for_role validated role =
     (case filter (\<lambda>port. dp_role port = role) (tc_dpdk_ports (vt_topology validated)) of
        port # _ \<Rightarrow> Inr (dp_name port)
      | [] \<Rightarrow> Inl (PyValueError (''expected a dpdk port with role '' @ PortRole_value role)))"

definition build_dpdk_runtime_args :: "ValidatedTopologyConfig \<Rightarrow> exn + string list" where
  "build_dpdk_runtime_args validated =
     (let effective = vt_effective_dpdk_config validated in
      case runtime_port_name_for_role validated Role_ingress of
        Inl e \<Rightarrow> Inl e
      | Inr ingress_port_name \<Rightarrow>
          (case runtime_port_name_for_role validated Role_egress of
             Inl e \<Rightarrow> Inl e
           | Inr egress_port_name \<Rightarrow>
               Inr [''--lcores'', ef_lcores effective,
                    ''--hugepages-mb'', str_of_int (ef_hugepages_mb effective),
                    ''--burst-size'', str_of_int (ef_burst_size effective),
                    ''--rx-queue-size'', str_of_int (ef_rx_queue_size effective),
                    ''--tx-queue-size'', str_of_int (ef_tx_queue_size effective),
                    ''--mempool-size'', str_of_int (ef_mempool_size effective),
                    ''--ingress-port-name'', ingress_port_name,
                    ''--egress-port-name'', egress_port_name]))"

definition start_topology_datapath ::
  "'w controller_env \<Rightarrow> ControllerConfig \<Rightarrow> ValidatedTopologyConfig \<Rightarrow>
   ('w, DatapathProcessStatus) cprog" where
  "start_topology_datapath env cfg validated =
     (if \<not> cc_supervise_datapath cfg then
        raise (Pktlab (mk_PktlabError STATE_CONFLICT
          ''controller was started without datapath supervision, so topology apply cannot launch pktlab-dpdkd''
          None))
      else
        then_do (stop_supervisor env)
       (bind (lift_sum (build_dpdk_runtime_args validated)) (\<lambda>extra_args.
        bind (lift_sum (build_supervisor_config cfg
                (Some (dc_namespace (vt_requested_dpdk_config validated))) extra_args)) (\<lambda>config.
        let su = \<lparr>su_config = config, su_state = initial_supervisor\<rparr> in
        then_do (modify (\<lambda>rt. rt\<lparr>rt_supervisor := Some su\<rparr>))
          (on_supervisor (supervisor_start (ce_process env)) su)))))"

definition stop_topology_datapath :: "'w controller_env \<Rightarrow> ('w, unit) cprog" where
  "stop_topology_datapath env = stop_supervisor env"

text \<open>The manager the constructor builds: the same host, seen beside the runtime.\<close>

definition pair_run :: "'w runner \<Rightarrow> ('c \<times> 'w) runner" where
  "pair_run run argv cw = (case run argv (snd cw) of (r, w) \<Rightarrow> (r, (fst cw, w)))"

definition controller_manager ::
  "'w controller_env \<Rightarrow> ControllerConfig \<Rightarrow> (ControllerRuntime \<times> 'w) manager" where
  "controller_manager env cfg =
     \<lparr>tm_run = pair_run (ce_run env), tm_clock = pair_clock (pe_clock (ce_process env)),
      tm_load_topology = (\<lambda>path. on_snd (ce_load_topology env path)),
      tm_validate_topology = validate_topology_config,
      tm_start_datapath = Some (start_topology_datapath env cfg),
      tm_stop_datapath = Some (stop_topology_datapath env),
      tm_tap_timeout_seconds = 5, tm_tap_poll_interval_seconds = 1 / 20\<rparr>"

section \<open>Lifecycle\<close>

type_synonym ('w, 'a) rprog = "(current \<times> ControllerRuntime \<times> 'w, 'a) prog"

text \<open>The constructor; the argument is the supervisor that is passed in, if any.\<close>

definition controller_init :: "ControllerConfig \<Rightarrow> supervisor option \<Rightarrow> exn + ControllerRuntime" where
  "controller_init cfg injected =
     (let runtime = \<lambda>su.
        \<lparr>rt_desired_state = default_DesiredState
           \<lparr>desired_controller_state := CS_stopped, desired_datapath_running := cc_supervise_datapath cfg\<rparr>,
         rt_observed_state = default_ObservedState, rt_controller_state = CS_stopped,
         rt_controller_message = ''controller is not started'', rt_override_message = None,
         rt_started = False, rt_supervisor = su\<rparr>
      in if injected = None \<and> cc_supervise_datapath cfg then
           (case build_supervisor_config cfg None [] of
              Inl e \<Rightarrow> Inl e
            | Inr config \<Rightarrow>
                Inr (runtime (Some \<lparr>su_config = config, su_state = initial_supervisor\<rparr>)))
         else Inr (runtime injected))"

definition runtime_start :: "'w controller_env \<Rightarrow> ControllerConfig \<Rightarrow> ('w, unit) cprog" where
  "runtime_start env cfg =
     bind get_fst (\<lambda>rt.
       if rt_started rt then ret ()
       else
         then_do (modify (\<lambda>rt. (begin_operation CS_starting ''starting controller runtime'' rt)
           \<lparr>rt_desired_state := default_DesiredState
              \<lparr>desired_controller_state := CS_running,
               desired_datapath_running := cc_supervise_datapath cfg\<rparr>\<rparr>))
        (bind (case rt_supervisor rt of
                 None \<Rightarrow> ret (unmanaged_datapath_status cfg)
               | Some su \<Rightarrow> on_supervisor (supervisor_start (ce_process env)) su) (\<lambda>status.
         then_do (observe_same_topology status)
        (then_do (modify (\<lambda>rt. rt\<lparr>rt_started := True\<rparr>)) (recompute cfg status)))))"

definition controller_start :: "'w controller_env \<Rightarrow> ControllerConfig \<Rightarrow> ('w, unit) rprog" where
  "controller_start env cfg = on_snd (runtime_start env cfg)"

definition runtime_stopped :: "ControllerConfig \<Rightarrow> ('w, unit) cprog" where
  "runtime_stopped cfg =
     then_do (observe (unmanaged_datapath_status cfg) False None)
       (modify (\<lambda>rt. (set_health CS_stopped ''controller stopped'' rt)
          \<lparr>rt_desired_state := default_DesiredState
             \<lparr>desired_controller_state := CS_stopped, desired_datapath_running := False\<rparr>,
           rt_started := False\<rparr>))"

definition controller_stop :: "'w controller_env \<Rightarrow> ControllerConfig \<Rightarrow> ('w, unit) rprog" where
  "controller_stop env cfg =
     bind (on_snd get_fst) (\<lambda>rt.
       if \<not> rt_started rt then ret ()
       else
         then_do (on_snd (modify (begin_operation CS_stopping ''stopping controller runtime'')))
        (bind get_fst (\<lambda>current.
         then_do
           (if has_applied_topology current then
              then_do (manager_destroy (controller_manager env cfg)) (ret ())
            else on_snd (stop_supervisor env))
           (on_snd (runtime_stopped cfg)))))"

section \<open>Topology operations\<close>

definition set_override :: "string option \<Rightarrow> ('w, unit) cprog" where
  "set_override message = modify (\<lambda>rt. rt\<lparr>rt_override_message := message\<rparr>)"

text \<open>The handler of a failed apply, before the exception is raised again.\<close>

definition apply_rejected ::
  "'w controller_env \<Rightarrow> ControllerConfig \<Rightarrow> string \<Rightarrow> ('w, unit) rprog" where
  "apply_rejected env cfg config_path =
     bind (on_snd (current_datapath_status env cfg)) (\<lambda>status.
     bind get_fst (\<lambda>current.
       on_snd
         (then_do
            (if \<not> has_applied_topology current then
               then_do (modify (\<lambda>rt. rt\<lparr>rt_desired_state := desired_state_without_topology rt\<rparr>))
                 (observe status False None)
             else observe_same_topology status)
           (then_do (set_override (Some (''failed to apply topology from '' @ config_path)))
             (recompute cfg status)))))"

definition apply_recorded ::
  "'w controller_env \<Rightarrow> ControllerConfig \<Rightarrow> TopologyOperationResult \<Rightarrow> ('w, unit) cprog" where
  "apply_recorded env cfg result =
     then_do (set_override None)
    (bind (lift_sum (DesiredState_post_init
             \<lparr>topology_config_path = tr_config_path result, topology_name = tr_topology_name result,
              desired_rules_version = None, requested_dpdk_config = tr_requested_dpdk_config result,
              desired_controller_state = CS_running, desired_datapath_running = tr_applied result\<rparr>))
      (\<lambda>desired.
     then_do (modify (\<lambda>rt. rt\<lparr>rt_desired_state := desired\<rparr>))
    (bind (current_datapath_status env cfg) (\<lambda>status.
     then_do (observe status (tr_applied result) (tr_effective_dpdk_config result))
       (recompute cfg status)))))"

definition apply_topology ::
  "'w controller_env \<Rightarrow> ControllerConfig \<Rightarrow> string \<Rightarrow> ('w, TopologyOperationResult) rprog" where
  "apply_topology env cfg config_path =
     (if str_strip config_path = [] then raise (PyValueError ''config_path must be a non-empty string'')
      else
        then_do (on_snd (modify (begin_operation CS_reconciling (''applying topology from '' @ config_path))))
       (bind (attempt (manager_apply (controller_manager env cfg) config_path)) (\<lambda>r.
          case r of
            Inl e \<Rightarrow> then_do (apply_rejected env cfg config_path) (raise e)
          | Inr result \<Rightarrow> then_do (on_snd (apply_recorded env cfg result)) (ret result))))"

definition destroy_rejected :: "'w controller_env \<Rightarrow> ControllerConfig \<Rightarrow> ('w, unit) cprog" where
  "destroy_rejected env cfg =
     bind (current_datapath_status env cfg) (\<lambda>status.
     then_do (observe_same_topology status)
    (then_do (set_override (Some ''failed to destroy topology'')) (recompute cfg status)))"

definition destroy_recorded :: "'w controller_env \<Rightarrow> ControllerConfig \<Rightarrow> ('w, unit) cprog" where
  "destroy_recorded env cfg =
     then_do (set_override None)
    (then_do (modify (\<lambda>rt. rt\<lparr>rt_desired_state := desired_state_without_topology rt\<rparr>))
    (bind (current_datapath_status env cfg) (\<lambda>status.
     then_do (observe status False None) (recompute cfg status))))"

definition destroy_topology ::
  "'w controller_env \<Rightarrow> ControllerConfig \<Rightarrow> ('w, TopologyOperationResult) rprog" where
  "destroy_topology env cfg =
     then_do (on_snd (modify (begin_operation CS_reconciling ''destroying topology'')))
    (bind (attempt (manager_destroy (controller_manager env cfg))) (\<lambda>r.
       case r of
         Inl e \<Rightarrow> then_do (on_snd (destroy_rejected env cfg)) (raise e)
       | Inr result \<Rightarrow>
           then_do (on_snd (stop_topology_datapath env))
          (then_do (on_snd (destroy_recorded env cfg)) (ret result))))"

section \<open>Snapshots and datapath commands\<close>

definition health_snapshot ::
  "'w controller_env \<Rightarrow> ControllerConfig \<Rightarrow> ('w, ControllerHealthSnapshot) cprog" where
  "health_snapshot env cfg =
     bind (current_datapath_status env cfg) (\<lambda>status.
     bind get_fst (\<lambda>rt.
     then_do
       (if rt_started rt \<and> rt_supervisor rt \<noteq> None then
          then_do (observe_same_topology status) (recompute cfg status)
        else ret ())
    (bind get_fst (\<lambda>rt.
       ret \<lparr>hn_controller_service = ''pktlab-ctrld'', hn_controller_version = controller_version,
            hn_controller_state = rt_controller_state rt,
            hn_controller_message = rt_controller_message rt,
            hn_desired_state = rt_desired_state rt, hn_observed_state = rt_observed_state rt,
            hn_datapath_status = status\<rparr>))))"

fun map_datapath_error_code :: "DatapathErrorCode \<Rightarrow> ErrorCode" where
  "map_datapath_error_code DEC_INVALID_REQUEST = INVALID_REQUEST"
| "map_datapath_error_code DEC_INVALID_PAYLOAD = INVALID_PAYLOAD"
| "map_datapath_error_code DEC_UNKNOWN_COMMAND = UNKNOWN_COMMAND"
| "map_datapath_error_code DEC_RULE_VALIDATION_ERROR = RULE_VALIDATION_ERROR"
| "map_datapath_error_code DEC_PORT_INIT_ERROR = PORT_INIT_ERROR"
| "map_datapath_error_code DEC_STATE_CONFLICT = STATE_CONFLICT"
| "map_datapath_error_code _ = INTERNAL_ERROR"

definition pktlab_error_from_datapath_error :: "DatapathErrorCode \<Rightarrow> string \<Rightarrow> PktlabError" where
  "pktlab_error_from_datapath_error code message =
     mk_PktlabError (map_datapath_error_code code) message None"

text \<open>\<open>if not result.ok: raise ...\<close>.\<close>

definition check_result :: "'p CommandResult \<Rightarrow> ('s, unit) prog" where
  "check_result result =
     (case cr_error result of
        Some err \<Rightarrow> raise (Pktlab (pktlab_error_from_datapath_error (de_code err) (de_message err)))
      | None \<Rightarrow> ret ())"

definition not_supervising :: exn where
  "not_supervising =
     Pktlab (mk_PktlabError STATE_CONFLICT ''controller is not supervising a datapath process'' None)"

definition with_supervisor :: "(SupervisorConfig \<Rightarrow> ('w, 'a) sprog) \<Rightarrow> ('w, 'a) cprog" where
  "with_supervisor method =
     bind get_fst (\<lambda>rt.
       case rt_supervisor rt of
         None \<Rightarrow> raise not_supervising
       | Some su \<Rightarrow> on_supervisor method su)"

definition datapath_status_snapshot ::
  "'w controller_env \<Rightarrow> ControllerConfig \<Rightarrow> ('w, DatapathRuntimeStatusSnapshot) cprog" where
  "datapath_status_snapshot env cfg =
     bind (health_snapshot env cfg) (\<lambda>snapshot.
     bind get_fst (\<lambda>rt.
     bind (if rt_supervisor rt \<noteq> None \<and> ps_reachable (hn_datapath_status snapshot) then
             bind (with_supervisor (supervisor_get_ports (ce_process env))) (\<lambda>ports_result.
             then_do (check_result ports_result) (lift_sum (cr_unwrap ports_result)))
           else ret []) (\<lambda>ports.
       ret \<lparr>ds_controller_snapshot = snapshot, ds_ports = ports\<rparr>)))"

definition datapath_stats_snapshot ::
  "'w controller_env \<Rightarrow> ControllerConfig \<Rightarrow> ('w, DatapathRuntimeStatsSnapshot) cprog" where
  "datapath_stats_snapshot env cfg =
     bind (current_datapath_status env cfg) (\<lambda>status.
     bind (with_supervisor (supervisor_get_stats (ce_process env))) (\<lambda>stats_result.
     then_do (check_result stats_result)
    (bind (lift_sum (cr_unwrap stats_result)) (\<lambda>stats.
       ret \<lparr>dt_datapath_status = status, dt_stats = stats\<rparr>))))"

definition reset_datapath_stats ::
  "'w controller_env \<Rightarrow> ControllerConfig \<Rightarrow> ('w, DatapathStatsResetResult) cprog" where
  "reset_datapath_stats env cfg =
     bind (with_supervisor (supervisor_reset_stats (ce_process env))) (\<lambda>reset_result.
     then_do (check_result reset_result)
    (bind (current_datapath_status env cfg) (\<lambda>status.
     bind (with_supervisor (supervisor_get_stats (ce_process env))) (\<lambda>stats_result.
     then_do (check_result stats_result)
    (bind (lift_sum (cr_unwrap stats_result)) (\<lambda>stats.
     bind (lift_sum (cr_unwrap reset_result)) (\<lambda>ack.
       ret \<lparr>dr_datapath_status = status, dr_stats = stats, dr_message = ack_message ack\<rparr>)))))))"

definition run_datapath_control_command ::
  "'w controller_env \<Rightarrow> ControllerConfig \<Rightarrow> (SupervisorConfig \<Rightarrow> ('w, AckPayload CommandResult) sprog) \<Rightarrow>
   ('w, DatapathControlResult) cprog" where
  "run_datapath_control_command env cfg command =
     bind (with_supervisor command) (\<lambda>control_result.
     then_do (check_result control_result)
    (bind (current_datapath_status env cfg) (\<lambda>status.
     then_do (observe_same_topology status)
    (then_do (recompute cfg status)
    (bind (lift_sum (cr_unwrap control_result)) (\<lambda>ack.
       ret \<lparr>dl_datapath_status = status, dl_message = ack_message ack\<rparr>))))))"

definition pause_datapath_runtime ::
  "'w controller_env \<Rightarrow> ControllerConfig \<Rightarrow> ('w, DatapathControlResult) cprog" where
  "pause_datapath_runtime env cfg =
     run_datapath_control_command env cfg (supervisor_pause_datapath (ce_process env))"

definition resume_datapath_runtime ::
  "'w controller_env \<Rightarrow> ControllerConfig \<Rightarrow> ('w, DatapathControlResult) cprog" where
  "resume_datapath_runtime env cfg =
     run_datapath_control_command env cfg (supervisor_resume_datapath (ce_process env))"

end
