(* ===== verification/Manager_Frame.thy ===== *)
theory Manager_Frame
  imports Topology_Manager
begin

text \<open>
  The manager in any environment: what it leaves alone, and what is current after it. A manager whose callbacks keep \<open>I\<close> and whose stop callback also ends with \<open>J\<close>, whether it
  raises or not; neither is touched by the host operations. Then an operation that fails has either left
  the current topology alone, or there is none and \<open>J\<close> holds.
\<close>

lemma collect_error_ends:
  assumes "safely m (\<lambda>_. K) (\<lambda>_. K) s"
  shows "safely (collect_error m) (\<lambda>_. K) (\<lambda>_. K) s"
  unfolding collect_error_def safely_bind safely_attempt
  by (rule safely_mono [OF assms]) (auto simp: exec_simps split: exn.split)

lemma keeps_collect_error: "keeps I m \<Longrightarrow> keeps I (collect_error m)"
  by (simp add: keeps_def collect_error_ends)

locale kept_manager = host: untouched I "tm_run mgr" "tm_clock mgr"
    + idle: untouched J "tm_run mgr" "tm_clock mgr"
  for mgr :: "'s manager" and I J :: "'s \<Rightarrow> bool" +
  assumes load_keeps: "keeps I (tm_load_topology mgr path)"
    and start_keeps: "keeps I (start_datapath_locked mgr v)"
    and stop_ends: "I s \<Longrightarrow> safely (stop_datapath_locked mgr) (\<lambda>_ s. I s \<and> J s) (\<lambda>_ s. I s \<and> J s) s"
begin

lemma keeps_build: "keeps I (build_topology mgr v)"
  unfolding build_topology_def by (intro keeps_intros start_keeps host.keeps_host)

lemma destroy_ends: "I s \<Longrightarrow> safely (destroy_locked mgr v) (\<lambda>_ s. I s \<and> J s) (\<lambda>_ s. I s \<and> J s) s"
proof -
  assume "I s"
  let ?rest = "\<lambda>stop_errors. bind (collect_error (destroy_links_and_bridges (tm_run mgr) v)) (\<lambda>link_errors.
     bind (collect_error (destroy_namespaces (tm_run mgr) v)) (\<lambda>namespace_errors.
       let errors = stop_errors @ link_errors @ namespace_errors in
       if errors \<noteq> [] then raise (Pktlab (destroy_error v errors)) else ret ()))"
  have "keeps (\<lambda>s. I s \<and> J s) (?rest stop_errors)" for stop_errors
    unfolding Let_def
    by (intro keeps_intros keeps_collect_error keeps_both host.keeps_host idle.keeps_host)
  then show ?thesis
    unfolding destroy_locked_def safely_bind [where m = "collect_error (stop_datapath_locked mgr)"]
    by (intro safely_mono [OF collect_error_ends [OF stop_ends [OF \<open>I s\<close>]]] keepsD) simp_all
qed

lemma cleanup_ends:
  "I s \<Longrightarrow> safely (cleanup_failed_apply mgr v) (\<lambda>_ s. I s \<and> J s) (\<lambda>_ s. I s \<and> J s) s"
  unfolding cleanup_failed_apply_def safely_bind safely_attempt
  by (rule safely_mono [OF destroy_ends]) (auto simp: exec_simps split: exn.split)

text \<open>What is current after an apply that raises, and after one that returns.\<close>

definition left_alone :: "current \<Rightarrow> current \<times> 's \<Rightarrow> bool" where
  "left_alone c cs' \<longleftrightarrow> I (snd cs') \<and> (fst cs' = c \<or> fst cs' = None \<and> J (snd cs'))"

definition now_current :: "string \<Rightarrow> TopologyOperationResult \<Rightarrow> current \<times> 's \<Rightarrow> bool" where
  "now_current path result cs' \<longleftrightarrow> I (snd cs') \<and>
     (\<exists>v running. fst cs' = Some \<lparr>at_config_path = path, at_validated = v\<rparr> \<and>
        result = operation_result Op_apply v path True running ''topology applied'')"

lemma rebuild_ends:
  assumes "I s"
  shows "safely (bind (attempt (on_snd (build_topology mgr v))) (\<lambda>r.
         case r of
           Inl exc \<Rightarrow>
             bind (on_snd (cleanup_failed_apply mgr v)) (\<lambda>cleanup_error.
               raise (Pktlab (apply_failure path v exc cleanup_error)))
         | Inr st \<Rightarrow>
             then_do (put_fst (Some \<lparr>at_config_path = path, at_validated = v\<rparr>))
               (ret (operation_result Op_apply v path True (ps_running st) ''topology applied''))))
     (now_current path) (\<lambda>_. left_alone c) (None, s)"
  unfolding safely_bind safely_attempt safely_on_snd
proof (rule safely_mono [OF keepsD [OF keeps_build assms]], goal_cases)
  case (1 st s1)
  then show ?case by (auto simp: exec_simps now_current_def)
next
  case (2 exc s1)
  then show ?case
    by (simp add: exec_simps, intro safely_mono [OF cleanup_ends])
      (auto simp: exec_simps left_alone_def)
qed

lemma apply_ends:
  assumes "I s"
  shows "safely (manager_apply mgr path) (now_current path) (\<lambda>_. left_alone c) (c, s)"
  unfolding manager_apply_def safely_bind [where m = "on_snd (tm_load_topology mgr path)"] safely_on_snd
proof (rule safely_mono [OF keepsD [OF load_keeps assms]], goal_cases)
  case (1 config s1)
  show ?case
  proof (cases "tm_validate_topology mgr config")
    case (Inl e)
    with 1 show ?thesis by (simp add: exec_simps left_alone_def)
  next
    case (Inr v)
    show ?thesis
    proof (cases c)
      case None
      with 1 Inr show ?thesis
        using rebuild_ends [OF 1, of v path c]
        by (simp add: safely_lift_sum safely_get_fst safely_then safely_ret safely_bind [where m = "lift_sum _"]
            safely_bind [where m = get_fst])
    next
      case (Some a)
      have "safely (destroy_locked mgr (at_validated a)) (\<lambda>_. I)
          (\<lambda>e s'. left_alone c (c, s')) s1"
        by (rule safely_mono [OF destroy_ends [OF 1]]) (simp_all add: left_alone_def)
      with 1 Inr Some show ?thesis
        using rebuild_ends [of _ v path c]
        by (simp add: safely_lift_sum safely_get_fst safely_then safely_on_snd safely_put_fst
            safely_bind [where m = "lift_sum _"] safely_bind [where m = get_fst])
          (erule safely_mono, auto)
    qed
  qed
qed (simp add: left_alone_def)

lemma manager_destroy_ends:
  assumes "I s"
  shows "safely (manager_destroy mgr)
    (\<lambda>_ (c', s'). c' = None \<and> I s' \<and> (c = None \<longrightarrow> s' = s) \<and> (c \<noteq> None \<longrightarrow> J s'))
    (\<lambda>_ (c', s'). c' = c \<and> I s') (c, s)"
proof (cases c)
  case None
  with assms show ?thesis by (simp add: manager_destroy_def exec_simps)
next
  case (Some a)
  show ?thesis
    unfolding manager_destroy_def Some
    by (simp add: exec_simps, rule safely_mono [OF destroy_ends [OF assms]]) (auto simp: exec_simps)
qed

end

end
