(* ===== verification/Controller_Inv.thy ===== *)
theory Controller_Inv
  imports Controller Manager_Frame
begin

text \<open>
  What holds in every state the controller can reach, whatever the operating system and the
  datapath do: the supervisor is there exactly when it should be, the controller's state and message
  fit together, and the observed state claims a topology only when the manager has one. The one thing
  relied on is that pydantic enforces the constraints the payload models declare.
\<close>

section \<open>The supervisor's memory\<close>

definition codec_sound :: "ipc_codec \<Rightarrow> bool" where
  "codec_sound codec \<longleftrightarrow>
     (\<forall>p h. health_validate codec p = Inr h \<longrightarrow> HealthStateModel_ok h) \<and>
     (\<forall>p a. ack_validate codec p = Inr a \<longrightarrow> ack_message a \<noteq> []) \<and>
     (\<forall>p v. version_validate codec p = Inr v \<longrightarrow> VersionPayload_ok v) \<and>
     (\<forall>p ps. ports_validate codec p = Inr ps \<longrightarrow> list_all PortInfoModel_ok ps) \<and>
     (\<forall>p st. stats_validate codec p = Inr st \<longrightarrow> DatapathStatsModel_ok st)"

definition supervisor_good :: "SupervisorState \<Rightarrow> bool" where
  "supervisor_good sv \<longleftrightarrow> supervisor_inv sv \<and>
     (\<forall>h. sv_last_health sv = Some h \<longrightarrow> HealthStateModel_ok h) \<and>
     (\<forall>v. sv_last_version sv = Some v \<longrightarrow> VersionPayload_ok v)"

definition status_good :: "DatapathProcessStatus \<Rightarrow> bool" where
  "status_good st \<longleftrightarrow> (\<forall>h. ps_health st = Some h \<longrightarrow> HealthStateModel_ok h) \<and>
     (\<forall>v. ps_version st = Some v \<longrightarrow> VersionPayload_ok v)"

abbreviation good_memory :: "SupervisorState \<times> 's \<Rightarrow> bool" where
  "good_memory \<equiv> \<lambda>ss. supervisor_good (fst ss)"

lemma codec_call_payload:
  assumes "codec_call codec validate cmd client peer i = Inr r" and "cr_unwrap r = Inr x"
  shows "\<exists>raw. validate raw = Inr x"
  using assms
  by (auto simp: codec_call_def client_call_def typed_call_def cr_success_def cr_failure_def cr_unwrap_def
      split: sum.splits if_splits ResponseEnvelope.splits)

lemma get_health_payload:
  "codec_sound codec \<Longrightarrow> get_health codec client peer i = Inr r \<Longrightarrow> cr_unwrap r = Inr h \<Longrightarrow> HealthStateModel_ok h"
  unfolding get_health_def codec_sound_def by (drule (1) codec_call_payload) blast

lemma get_version_payload:
  "codec_sound codec \<Longrightarrow> get_version codec client peer i = Inr r \<Longrightarrow> cr_unwrap r = Inr v \<Longrightarrow> VersionPayload_ok v"
  unfolding get_version_def codec_sound_def by (drule (1) codec_call_payload) blast

lemma keeps_get_fst [keeps_intros]: "keeps I get_fst"
  by (auto simp: keeps_def exec_simps)

lemma safely_update [exec_simps]: "safely (update f) Q E (sv, s) \<longleftrightarrow> Q () (f sv, s)"
  by (simp add: update_def exec_simps)

lemma keeps_update [keeps_intros]:
  "(\<And>sv. supervisor_good sv \<Longrightarrow> supervisor_good (f sv)) \<Longrightarrow> keeps good_memory (update f)"
  by (auto simp: keeps_def update_def exec_simps)

lemma keeps_on_world [keeps_intros]: "keeps good_memory (on_snd m :: ('s, 'a) sprog)"
  by (auto simp: keeps_def exec_simps intro!: safelyI split: sum.splits)

lemma keeps_ipc_call [keeps_intros]: "keeps good_memory (ipc_call env command client)"
  and keeps_poll [keeps_intros]: "keeps good_memory (poll env pid)"
  and keeps_signal [keeps_intros]: "keeps good_memory (signal f)"
  and keeps_consume_stderr [keeps_intros]: "keeps good_memory (consume_stderr env pid)"
  and keeps_wait_for_exit [keeps_intros]: "keeps good_memory (wait_for_exit env cfg pid)"
  unfolding ipc_call_def poll_def signal_def consume_stderr_def wait_for_exit_def
  by (intro keeps_intros)+

lemma supervisor_good_fields [simp]:
  "supervisor_good (sv\<lparr>sv_last_error := e\<rparr>) \<longleftrightarrow> supervisor_good sv"
  "supervisor_good (sv\<lparr>sv_last_exit_code := c\<rparr>) \<longleftrightarrow> supervisor_good sv"
  "supervisor_good sv \<Longrightarrow> supervisor_good (sv\<lparr>sv_process := None, sv_client := x\<rparr>)"
  "supervisor_good sv \<Longrightarrow> supervisor_good (clear_history sv)"
  "supervisor_good initial_supervisor"
  by (auto simp: supervisor_good_def supervisor_inv_def clear_history_def initial_supervisor_def)

lemma keeps_require_client [keeps_intros]: "keeps good_memory (require_client cfg)"
  unfolding require_client_def by (intro keeps_intros)

lemma keeps_accept_or_raise [keeps_intros]: "keeps good_memory (accept_or_raise cfg what r)"
  unfolding accept_or_raise_def Let_def by (intro keeps_intros) simp

lemma ipc_call_result:
  "safely (ipc_call env command client)
     (\<lambda>r (sv', s'). sv' = sv \<and> (\<exists>peer i. command (pe_codec env) client peer i = Inr r))
     (\<lambda>e (sv', s'). sv' = sv) (sv, s)"
  by (auto simp: ipc_call_def exec_simps split: prod.splits sum.splits)

lemma refresh_good:
  assumes sound: "codec_sound (pe_codec env)" and good: "supervisor_good sv"
  shows "safely (refresh_ipc_state env cfg pid)
    (\<lambda>st (sv', s'). supervisor_good sv' \<and> status_good st \<and> sv_process sv' = sv_process sv)
    (\<lambda>e (sv', s'). supervisor_good sv' \<and> sv_process sv' = sv_process sv) (sv, s)"
proof (cases "sv_client sv")
  case None
  with good show ?thesis by (simp add: refresh_ipc_state_def require_client_def exec_simps)
next
  case (Some client)
  let ?E = "\<lambda>e :: exn. \<lambda>(sv', s'). supervisor_good sv' \<and> sv_process sv' = sv_process sv"
  have call: "safely (ipc_call env command client) Q ?E (sv, s1)"
    if "\<And>r s2 peer i. command (pe_codec env) client peer i = Inr r \<Longrightarrow> Q r (sv, s2)" for command Q s1
    by (rule safely_mono [OF ipc_call_result]) (use that good in auto)
  have accept: "safely (accept_or_raise cfg what r) Q ?E (sv, s1)"
    if "Q () (sv, s1)" for what r Q s1
    using that good by (auto simp: accept_or_raise_def exec_simps Let_def split: option.splits)
  show ?thesis
    unfolding refresh_ipc_state_def require_client_def safely_bind safely_then safely_get_fst Some
      option.case safely_ret
  proof (intro call accept)
    fix r_health r_version s1 and peer peer' :: ipc_peer and i i'
    assume r: "get_health (pe_codec env) client peer i = Inr r_health"
      "get_version (pe_codec env) client peer' i' = Inr r_version"
    show "safely (lift_sum (cr_unwrap r_health)) (\<lambda>health.
        safely (update (\<lambda>sv. sv\<lparr>sv_last_health := Some health\<rparr>)) (\<lambda>_.
        safely (lift_sum (cr_unwrap r_version)) (\<lambda>version.
        safely (update (\<lambda>sv. sv\<lparr>sv_last_version := Some version, sv_last_error := None,
                sv_last_exit_code := None\<rparr>))
          (\<lambda>_ (sv', s'). supervisor_good sv' \<and> status_good ((default_status True (sc_socket_path cfg))
             \<lparr>ps_pid := Some pid, ps_running := True, ps_reachable := True, ps_version := Some version,
              ps_health := Some health\<rparr>) \<and> sv_process sv' = sv_process sv) ?E) ?E) ?E) ?E (sv, s1)"
      using good get_health_payload [OF sound r(1)] get_version_payload [OF sound r(2)]
      by (auto simp: exec_simps supervisor_good_def supervisor_inv_def status_good_def
          default_status_def split: sum.splits)
  qed
qed

lemma keeps_refresh [keeps_intros]:
  "codec_sound (pe_codec env) \<Longrightarrow> keeps good_memory (refresh_ipc_state env cfg pid)"
  unfolding keeps_def by (auto intro!: safely_mono [OF refresh_good])

lemma keeps_status: "codec_sound (pe_codec env) \<Longrightarrow> keeps good_memory (status_locked env cfg)"
  unfolding status_locked_def exited_status_def by (intro keeps_intros) auto

lemma keeps_stop: "keeps good_memory (stop_locked env cfg clear)"
  by (auto simp: keeps_def intro!: outcome_safely outcome_mono [OF stop_locked_outcome])

lemma keeps_ready_round: "codec_sound (pe_codec env) \<Longrightarrow> keeps good_memory (ready_round env cfg)"
  unfolding ready_round_def by (intro keeps_intros) auto

lemma keeps_wait_for_ready: "codec_sound (pe_codec env) \<Longrightarrow> keeps good_memory (wait_for_ready env cfg)"
  unfolding wait_for_ready_def read_clock_def
  by (intro keeps_intros keeps_poll_loop keeps_ready_round) (auto simp: pair_clock_def split: prod.splits)

lemma keeps_reachable_call:
  "codec_sound (pe_codec env) \<Longrightarrow> keeps good_memory (reachable_call env cfg what command)"
  unfolding reachable_call_def by (intro keeps_intros keeps_status)

lemma keeps_start:
  assumes sound: "codec_sound (pe_codec env)" and cfg: "SupervisorConfig_post_init cfg = Inr cfg"
  shows "keeps good_memory (supervisor_start env cfg)"
proof -
  have init: "DpdkClient_init (sc_socket_path cfg) 1 =
      Inr \<lparr>cl_socket_path = sc_socket_path cfg, cl_timeout_seconds = 1\<rparr>"
    using cfg by (auto simp: SupervisorConfig_post_init_def DpdkClient_init_def str_strip_def split: if_splits)
  have ready: "safely (bind (attempt (wait_for_ready env cfg)) (\<lambda>r.
       case r of
         Inr status \<Rightarrow> ret status
       | Inl e \<Rightarrow> then_do (stop_locked env cfg False) (raise e))) (\<lambda>_. good_memory) (\<lambda>_. good_memory) (sv, s)"
    if "supervisor_good sv" for sv s
    by (rule keepsD) (intro keeps_intros keeps_wait_for_ready keeps_stop sound, use that in simp)
  have "keeps good_memory (launch env cfg)"
    unfolding keeps_def launch_def
  proof (clarify, goal_cases)
    case (1 sv s)
    then show ?case
      by (auto simp: safely_then safely_bind [where m = "on_snd _"] safely_bind [where m = "lift_sum _"]
          safely_lift_sum safely_on_snd safely_step init safely_update split: prod.splits sum.splits intro!: ready)
        (auto simp: supervisor_good_def supervisor_inv_def clear_history_def)
  qed
  then show ?thesis
    unfolding supervisor_start_def by (intro keeps_intros keeps_wait_for_ready sound)
qed

section \<open>The supervisor of a controller\<close>

definition supervisor_ok :: "ControllerConfig \<Rightarrow> supervisor \<Rightarrow> bool" where
  "supervisor_ok cfg su \<longleftrightarrow>
     SupervisorConfig_post_init (su_config su) = Inr (su_config su) \<and>
     sc_socket_path (su_config su) = cc_datapath_socket_path cfg \<and> supervisor_good (su_state su)"

text \<open>The controller has a supervisor exactly when it is told to supervise.\<close>

definition wired :: "ControllerConfig \<Rightarrow> ControllerRuntime \<Rightarrow> bool" where
  "wired cfg rt \<longleftrightarrow>
     (case rt_supervisor rt of
        None \<Rightarrow> \<not> cc_supervise_datapath cfg
      | Some su \<Rightarrow> cc_supervise_datapath cfg \<and> supervisor_ok cfg su)"

definition idle :: "ControllerRuntime \<Rightarrow> bool" where
  "idle rt \<longleftrightarrow> (\<forall>su. rt_supervisor rt = Some su \<longrightarrow> sv_process (su_state su) = None)"

definition detach :: "ControllerRuntime \<Rightarrow> ControllerRuntime" where
  "detach rt = rt\<lparr>rt_supervisor := None\<rparr>"

lemma detach_supervisor [simp]: "detach (rt\<lparr>rt_supervisor := su\<rparr>) = detach rt"
  by (simp add: detach_def)

lemma detach_iff: "detach rt' = detach rt \<longleftrightarrow> (\<exists>su. rt' = rt\<lparr>rt_supervisor := su\<rparr>)"
  by (cases rt; cases rt'; auto simp: detach_def)

lemma build_supervisor_config_ok:
  "build_supervisor_config cfg namespace args = Inr c \<Longrightarrow>
     SupervisorConfig_post_init c = Inr c \<and> sc_socket_path c = cc_datapath_socket_path cfg"
  by (auto simp: build_supervisor_config_def SupervisorConfig_post_init_def split: if_splits)

text \<open>The configuration of the controller gives a valid one for its first supervisor.\<close>

lemma plain_supervisor_config:
  "ControllerConfig_post_init cfg = Inr cfg \<Longrightarrow> \<exists>c. build_supervisor_config cfg None [] = Inr c"
  by (auto simp: ControllerConfig_post_init_def build_supervisor_config_def SupervisorConfig_post_init_def
      split: if_splits)

lemma safely_modify [exec_simps]: "safely (modify f) Q E (rt, w) \<longleftrightarrow> Q () (f rt, w)"
  by (simp add: modify_def exec_simps)

lemma safely_on_supervisor:
  "safely (on_supervisor method su) Q E (rt, w) \<longleftrightarrow>
     safely (method (su_config su))
       (\<lambda>x (sv, w'). Q x (rt\<lparr>rt_supervisor := Some (su\<lparr>su_state := sv\<rparr>)\<rparr>, w'))
       (\<lambda>e (sv, w'). E e (rt\<lparr>rt_supervisor := Some (su\<lparr>su_state := sv\<rparr>)\<rparr>, w')) (su_state su, w)"
  by (auto simp: safely_def outcome_def on_supervisor_def split: option.splits sum.splits)

lemma supervisor_kept:
  assumes "wired cfg rt" and "rt_supervisor rt = Some su"
    and "SupervisorConfig_post_init (su_config su) = Inr (su_config su) \<Longrightarrow>
      keeps good_memory (method (su_config su))"
  shows "safely (on_supervisor method su)
    (\<lambda>_ (rt', w'). wired cfg rt' \<and> detach rt' = detach rt)
    (\<lambda>_ (rt', w'). wired cfg rt' \<and> detach rt' = detach rt) (rt, w)"
proof -
  from assms(1,2) have su: "supervisor_ok cfg su" "cc_supervise_datapath cfg" by (simp_all add: wired_def)
  then have "keeps good_memory (method (su_config su))" by (intro assms(3)) (simp add: supervisor_ok_def)
  from keepsD [OF this, of "(su_state su, w)"] su
  have "safely (method (su_config su)) (\<lambda>_. good_memory) (\<lambda>_. good_memory) (su_state su, w)"
    by (simp add: supervisor_ok_def)
  then show ?thesis
    unfolding safely_on_supervisor
    by (rule safely_mono) (use su in \<open>auto simp: wired_def supervisor_ok_def\<close>)
qed

lemma stop_supervisor_ends:
  assumes "wired cfg rt"
  shows "safely (stop_supervisor env)
    (\<lambda>_ (rt', w'). wired cfg rt' \<and> detach rt' = detach rt \<and> idle rt')
    (\<lambda>_ (rt', w'). wired cfg rt' \<and> detach rt' = detach rt \<and> idle rt') (rt, w)"
proof (cases "rt_supervisor rt")
  case None
  with assms show ?thesis by (simp add: stop_supervisor_def exec_simps idle_def)
next
  case (Some su)
  with assms have su: "supervisor_good (su_state su)" "supervisor_ok cfg su" "cc_supervise_datapath cfg"
    by (auto simp: wired_def supervisor_ok_def)
  show ?thesis
    unfolding stop_supervisor_def safely_bind safely_get_fst Some option.case safely_on_supervisor
      supervisor_stop_def
    by (rule safely_mono [OF outcome_safely [OF stop_locked_outcome]])
      (use su in \<open>auto simp: wired_def supervisor_ok_def idle_def clear_history_def supervisor_good_def
        supervisor_inv_def\<close>)
qed

lemma status_safely:
  assumes "codec_sound (pe_codec (ce_process env))" and "wired cfg rt"
  shows "safely (current_datapath_status env cfg)
    (\<lambda>_ (rt', w'). wired cfg rt' \<and> detach rt' = detach rt)
    (\<lambda>_ (rt', w'). wired cfg rt' \<and> detach rt' = detach rt) (rt, w)"
  using assms supervisor_kept [OF assms(2) _ keeps_status [OF assms(1)]]
  by (cases "rt_supervisor rt") (auto simp: current_datapath_status_def exec_simps)

lemma start_topology_datapath_safely:
  assumes sound: "codec_sound (pe_codec (ce_process env))" and wired: "wired cfg rt"
  shows "safely (start_topology_datapath env cfg v)
    (\<lambda>_ (rt', w'). wired cfg rt' \<and> detach rt' = detach rt)
    (\<lambda>_ (rt', w'). wired cfg rt' \<and> detach rt' = detach rt) (rt, w)"
proof (cases "cc_supervise_datapath cfg")
  case False
  with wired show ?thesis by (simp add: start_topology_datapath_def exec_simps)
next
  case True
  have start: "safely (on_supervisor (supervisor_start (ce_process env)) su)
      (\<lambda>_ (rt', w'). wired cfg rt' \<and> detach rt' = detach rt)
      (\<lambda>_ (rt', w'). wired cfg rt' \<and> detach rt' = detach rt) (rt1, w1)"
    if "build_supervisor_config cfg ns args = Inr config"
      and "su = \<lparr>su_config = config, su_state = initial_supervisor\<rparr>" and "detach rt1 = detach rt"
      and "rt_supervisor rt1 = Some su" for config ns args rt1 w1 su
    using supervisor_kept [of cfg rt1 su "supervisor_start (ce_process env)" w1]
      keeps_start [OF sound] that True build_supervisor_config_ok [OF that(1)]
    by (simp add: wired_def supervisor_ok_def)
  show ?thesis
    by (simp add: start_topology_datapath_def True Let_def safely_then [where m = "stop_supervisor env"],
        intro safely_mono [OF stop_supervisor_ends [OF wired]])
      (auto simp: safely_bind safely_then safely_lift_sum safely_modify split: sum.splits intro!: start)
qed

section \<open>Reachable states\<close>

datatype operation =
    Start | Stop | Apply string | Destroy | Health | Status | Stats | Reset | Pause | Resume

fun perform :: "'w controller_env \<Rightarrow> ControllerConfig \<Rightarrow> operation \<Rightarrow> ('w, unit) rprog" where
  "perform env cfg Start = controller_start env cfg"
| "perform env cfg Stop = controller_stop env cfg"
| "perform env cfg (Apply path) = then_do (apply_topology env cfg path) (ret ())"
| "perform env cfg Destroy = then_do (destroy_topology env cfg) (ret ())"
| "perform env cfg Health = on_snd (then_do (health_snapshot env cfg) (ret ()))"
| "perform env cfg Status = on_snd (then_do (datapath_status_snapshot env cfg) (ret ()))"
| "perform env cfg Stats = on_snd (then_do (datapath_stats_snapshot env cfg) (ret ()))"
| "perform env cfg Reset = on_snd (then_do (reset_datapath_stats env cfg) (ret ()))"
| "perform env cfg Pause = on_snd (then_do (pause_datapath_runtime env cfg) (ret ()))"
| "perform env cfg Resume = on_snd (then_do (resume_datapath_runtime env cfg) (ret ()))"

text \<open>
  From a new controller, by operations that end normally or with an exception, while the world
  changes as it likes in between: the datapath may die, files and namespaces may come and go.
\<close>

inductive reachable ::
  "'w controller_env \<Rightarrow> ControllerConfig \<Rightarrow> current \<times> ControllerRuntime \<times> 'w \<Rightarrow> bool"
  for env cfg where
  created: "controller_init cfg None = Inr rt \<Longrightarrow> reachable env cfg (None, rt, w)"
| performed: "reachable env cfg s \<Longrightarrow> perform env cfg op s = Some (r, s') \<Longrightarrow> reachable env cfg s'"
| world: "reachable env cfg (current, rt, w) \<Longrightarrow> reachable env cfg (current, rt, w')"

text \<open>What the fields of the runtime say about each other.\<close>

definition records_ok :: "ControllerRuntime \<Rightarrow> bool" where
  "records_ok rt \<longleftrightarrow>
     rt_override_message rt \<noteq> Some [] \<and> rt_controller_message rt \<noteq> [] \<and>
     rt_controller_state rt \<noteq> CS_failed \<and>
     (rt_started rt \<longrightarrow> rt_controller_state rt \<noteq> CS_stopped \<and>
        desired_controller_state (rt_desired_state rt) = CS_running) \<and>
     DesiredState_post_init (rt_desired_state rt) = Inr (rt_desired_state rt) \<and>
     ObservedState_post_init (rt_observed_state rt) = Inr (rt_observed_state rt)"

definition override_shown :: "ControllerRuntime \<Rightarrow> bool" where
  "override_shown rt \<longleftrightarrow>
     (\<forall>m. rt_override_message rt = Some m \<longrightarrow>
        rt_controller_state rt = CS_degraded \<and> rt_controller_message rt = m)"

lemma records_ok_supervisor [simp]:
  "records_ok (rt\<lparr>rt_supervisor := su\<rparr>) = records_ok rt"
  "override_shown (rt\<lparr>rt_supervisor := su\<rparr>) = override_shown rt"
  by (simp_all add: records_ok_def override_shown_def)

lemma str_or_not_Nil [simp]: "d \<noteq> [] \<Longrightarrow> str_or v d \<noteq> []"
  by (simp add: str_or_def split: option.split)

lemma recompute_ok:
  "records_ok rt \<Longrightarrow> records_ok (recompute_controller_health cfg st rt) \<and>
     override_shown (recompute_controller_health cfg st rt)"
  by (auto simp: recompute_controller_health_def records_ok_def override_shown_def set_health_def
      split: option.split)

lemma recompute_keeps [simp]:
  "rt_supervisor (recompute_controller_health cfg st rt) = rt_supervisor rt"
  "rt_observed_state (recompute_controller_health cfg st rt) = rt_observed_state rt"
  "rt_desired_state (recompute_controller_health cfg st rt) = rt_desired_state rt"
  "rt_started (recompute_controller_health cfg st rt) = rt_started rt"
  by (simp_all add: recompute_controller_health_def set_health_def split: option.split)

lemma wired_fields [simp]:
  "wired cfg (recompute_controller_health cfg' st rt) = wired cfg rt"
  "wired cfg (rt\<lparr>rt_observed_state := obs\<rparr>) = wired cfg rt"
  "wired cfg (rt\<lparr>rt_desired_state := d\<rparr>) = wired cfg rt"
  "wired cfg (rt\<lparr>rt_override_message := m\<rparr>) = wired cfg rt"
  "wired cfg (rt\<lparr>rt_started := b\<rparr>) = wired cfg rt"
  "wired cfg (set_health state message rt) = wired cfg rt"
  "wired cfg (begin_operation state message rt) = wired cfg rt"
  by (simp_all add: wired_def set_health_def begin_operation_def)

lemma observed_post_init: "ObservedState_post_init x = Inr y \<Longrightarrow> y = x \<and> ObservedState_post_init y = Inr y"
  by (auto simp: ObservedState_post_init_def split: option.splits)

lemma desired_post_init: "DesiredState_post_init x = Inr y \<Longrightarrow> y = x \<and> DesiredState_post_init y = Inr y"
  by (auto simp: DesiredState_post_init_def split: option.splits if_splits)

text \<open>Assigning the observed state: it may raise, and then nothing has changed.\<close>

lemma observe_safely:
  "safely (observe status applied effective)
     (\<lambda>_ (rt', w'). (\<exists>o'. rt' = rt\<lparr>rt_observed_state := o'\<rparr> \<and> ObservedState_post_init o' = Inr o' \<and>
        topology_applied o' = applied \<and> effective_dpdk_config o' = effective \<and>
        dpdkd_pid o' = ps_pid status))
     (\<lambda>_ (rt', w'). rt' = rt) (rt, w)"
  by (auto simp: observe_def exec_simps observed_from_datapath_def split: sum.splits
      dest: observed_post_init intro!: exI [where x = "_ :: ObservedState"])

definition runtime_inv :: "ControllerConfig \<Rightarrow> bool \<Rightarrow> ControllerRuntime \<times> 'w \<Rightarrow> bool" where
  "runtime_inv cfg has_topology rw \<longleftrightarrow>
     wired cfg (fst rw) \<and> records_ok (fst rw) \<and> override_shown (fst rw) \<and>
     (topology_applied (rt_observed_state (fst rw)) \<longrightarrow> has_topology)"

lemma runtime_inv_cong:
  "detach rt' = detach rt \<Longrightarrow> wired cfg rt' \<Longrightarrow> runtime_inv cfg t (rt, w) \<Longrightarrow> runtime_inv cfg t (rt', w')"
  by (auto simp: runtime_inv_def detach_iff records_ok_def override_shown_def)

lemma runtime_inv_True: "runtime_inv cfg t rw \<Longrightarrow> runtime_inv cfg True rw"
  by (simp add: runtime_inv_def)

lemma keeps_observe_same [keeps_intros]: "keeps (runtime_inv cfg t) (observe_same_topology st)"
  unfolding keeps_def observe_same_topology_def
proof (clarify, goal_cases)
  case (1 rt w)
  then show ?case
    unfolding safely_bind safely_get_fst
    by (intro safely_mono [OF observe_safely])
      (auto simp: runtime_inv_def records_ok_def override_shown_def wired_def)
qed

lemma keeps_recompute [keeps_intros]: "keeps (runtime_inv cfg t) (recompute cfg' st)"
  by (auto simp: keeps_def recompute_def exec_simps runtime_inv_def recompute_ok)

lemma keeps_check_result [keeps_intros]: "keeps I (check_result r)"
  unfolding check_result_def by (intro keeps_intros)

lemma keeps_stop_supervisor: "keeps (runtime_inv cfg t) (stop_supervisor env)"
  unfolding keeps_def
proof (clarify, goal_cases)
  case (1 rt w)
  then have "wired cfg rt" by (simp add: runtime_inv_def)
  from stop_supervisor_ends [OF this] show ?case
    by (rule safely_mono) (use 1 in \<open>auto intro: runtime_inv_cong\<close>)
qed

locale controller_world =
  fixes env :: "'w controller_env" and cfg :: ControllerConfig
  assumes sound: "codec_sound (pe_codec (ce_process env))"
    and configured: "ControllerConfig_post_init cfg = Inr cfg"
begin

lemma keeps_current_status: "keeps (runtime_inv cfg t) (current_datapath_status env cfg)"
  unfolding keeps_def
proof (clarify, goal_cases)
  case (1 rt w)
  then have "wired cfg rt" by (simp add: runtime_inv_def)
  from status_safely [OF sound this] show ?case
    by (rule safely_mono) (use 1 in \<open>auto intro: runtime_inv_cong\<close>)
qed

lemma keeps_with_supervisor:
  "(\<And>c. keeps good_memory (method c)) \<Longrightarrow> keeps (runtime_inv cfg t) (with_supervisor method)"
  unfolding keeps_def [of "runtime_inv cfg t"]
proof (clarify, goal_cases)
  case (1 rt w)
  then have "wired cfg rt" by (simp add: runtime_inv_def)
  with 1(2) show ?case
    by (cases "rt_supervisor rt") (auto simp: with_supervisor_def exec_simps
        intro: runtime_inv_cong 1(1) intro!: safely_mono [OF supervisor_kept [where cfg = cfg]])
qed

lemma keeps_commands:
  "keeps (runtime_inv cfg t) (health_snapshot env cfg)"
  "keeps (runtime_inv cfg t) (datapath_stats_snapshot env cfg)"
  "keeps (runtime_inv cfg t) (reset_datapath_stats env cfg)"
  "keeps (runtime_inv cfg t) (pause_datapath_runtime env cfg)"
  "keeps (runtime_inv cfg t) (resume_datapath_runtime env cfg)"
  unfolding health_snapshot_def datapath_stats_snapshot_def reset_datapath_stats_def
    pause_datapath_runtime_def resume_datapath_runtime_def run_datapath_control_command_def
    supervisor_get_stats_def supervisor_reset_stats_def supervisor_pause_datapath_def
    supervisor_resume_datapath_def
  by (intro keeps_intros keeps_current_status keeps_with_supervisor keeps_reachable_call sound)+

lemma keeps_status_snapshot: "keeps (runtime_inv cfg t) (datapath_status_snapshot env cfg)"
  unfolding datapath_status_snapshot_def supervisor_get_ports_def
  by (intro keeps_intros keeps_commands keeps_with_supervisor keeps_reachable_call sound)

text \<open>The states of a start: begun, and before the controller counts as started.\<close>

definition starting :: "bool \<Rightarrow> ControllerRuntime \<times> 'w \<Rightarrow> bool" where
  "starting t rw \<longleftrightarrow> runtime_inv cfg t rw \<and> rt_controller_state (fst rw) = CS_starting \<and>
     desired_controller_state (rt_desired_state (fst rw)) = CS_running \<and>
     rt_override_message (fst rw) = None"

lemma starting_cong:
  "detach rt' = detach rt \<Longrightarrow> wired cfg rt' \<Longrightarrow> starting t (rt, w) \<Longrightarrow> starting t (rt', w')"
  using runtime_inv_cong [of rt' rt cfg t w w'] by (auto simp: starting_def detach_iff)

lemma starting_begun:
  assumes "runtime_inv cfg t (rt, w)" and "\<not> rt_started rt"
  shows "starting t ((begin_operation CS_starting ''starting controller runtime'' rt)
      \<lparr>rt_desired_state := default_DesiredState
         \<lparr>desired_controller_state := CS_running, desired_datapath_running := b\<rparr>\<rparr>, w)"
  using assms by (simp add: starting_def runtime_inv_def records_ok_def override_shown_def
      begin_operation_def set_health_def DesiredState_post_init_def default_DesiredState_def
      validate_optional_text_def wired_def)

lemma starting_launched:
  assumes "starting t (rt, w)" and "rt_supervisor rt = Some su"
  shows "safely (on_supervisor (supervisor_start (ce_process env)) su) (\<lambda>_. starting t) (\<lambda>_. starting t) (rt, w)"
proof -
  from assms(1) have "wired cfg rt" by (simp add: starting_def runtime_inv_def)
  from supervisor_kept [OF this assms(2) keeps_start [OF sound]] show ?thesis
    by (rule safely_mono) (use assms(1) in \<open>auto intro: starting_cong\<close>)
qed

lemma starting_done:
  assumes "starting t (rt, w)"
  shows "safely (then_do (observe_same_topology status)
      (then_do (modify (\<lambda>rt. rt\<lparr>rt_started := True\<rparr>)) (recompute cfg status)))
    (\<lambda>_. runtime_inv cfg t) (\<lambda>_. runtime_inv cfg t) (rt, w)"
  unfolding observe_same_topology_def safely_then safely_bind safely_get_fst
proof (rule safely_mono [OF observe_safely], goal_cases)
  case (1 u rw)
  then obtain obs where "fst rw = rt\<lparr>rt_observed_state := obs\<rparr>" "ObservedState_post_init obs = Inr obs"
      "topology_applied obs = topology_applied (rt_observed_state rt)" by (cases rw) auto
  moreover from this assms have "records_ok ((fst rw)\<lparr>rt_started := True\<rparr>)" "wired cfg (fst rw)"
    by (simp_all add: starting_def runtime_inv_def records_ok_def)
  ultimately show ?case
    using assms recompute_ok [of "(fst rw)\<lparr>rt_started := True\<rparr>" cfg status]
    by (cases rw) (simp add: recompute_def safely_modify runtime_inv_def starting_def)
next
  case (2 e rw)
  with assms show ?case by (cases rw) (simp add: starting_def runtime_inv_def)
qed

lemma runtime_start_keeps: "keeps (runtime_inv cfg t) (runtime_start env cfg)"
  unfolding keeps_def
proof (clarify, goal_cases)
  case (1 rt w)
  show ?case
  proof (cases "rt_started rt")
    case True
    with 1 show ?thesis by (simp add: runtime_start_def exec_simps)
  next
    case False
    define rt0 where "rt0 = (begin_operation CS_starting ''starting controller runtime'' rt)
      \<lparr>rt_desired_state := default_DesiredState
         \<lparr>desired_controller_state := CS_running, desired_datapath_running := cc_supervise_datapath cfg\<rparr>\<rparr>"
    then have rt0: "starting t (rt0, w)" "rt_supervisor rt0 = rt_supervisor rt"
      using starting_begun [OF 1 False] by (simp_all add: begin_operation_def set_health_def)
    have "safely (case rt_supervisor rt of
          None \<Rightarrow> ret (unmanaged_datapath_status cfg)
        | Some su \<Rightarrow> on_supervisor (supervisor_start (ce_process env)) su)
        (\<lambda>_. starting t) (\<lambda>_. starting t) (rt0, w)"
      using rt0 starting_launched [OF rt0(1)] by (cases "rt_supervisor rt") (simp_all add: exec_simps)
    with False show ?thesis
      by (simp add: runtime_start_def safely_bind [where m = get_fst] safely_get_fst
          safely_then [where m = "modify _"] safely_modify rt0_def [symmetric])
        (subst safely_bind, erule safely_mono, auto intro: starting_done simp: starting_def)
  qed
qed

section \<open>The topology operations\<close>

text \<open>The manager leaves everything of the runtime alone but the supervisor.\<close>

definition apart :: "ControllerRuntime \<Rightarrow> ControllerRuntime \<times> 'w \<Rightarrow> bool" where
  "apart rt0 rw \<longleftrightarrow> wired cfg (fst rw) \<and> detach (fst rw) = detach rt0"

sublocale kept: kept_manager "controller_manager env cfg" "apart rt0" "\<lambda>rw. idle (fst rw)"
  for rt0
proof (unfold_locales, goal_cases)
  case (7 path)
  show ?case by (auto simp: keeps_def controller_manager_def apart_def exec_simps intro!: safelyI split: sum.splits)
next
  case (8 v)
  show ?case
    unfolding keeps_def apart_def start_datapath_locked_def controller_manager_def
    by (auto intro!: safely_mono [OF start_topology_datapath_safely [OF sound]])
next
  case (9 rw)
  then show ?case
    unfolding apart_def stop_datapath_locked_def controller_manager_def stop_topology_datapath_def
    by (cases rw) (auto intro!: safely_mono [OF stop_supervisor_ends [where cfg = cfg]])
qed (auto simp: controller_manager_def pair_run_def pair_clock_def apart_def split: prod.splits)

text \<open>
  The topology is gone, and the observed state still has to say so. With no process to ask, the
  status is what is remembered and can be recorded, so nothing raises before it does.
\<close>

definition clearing :: "ControllerRuntime \<times> 'w \<Rightarrow> bool" where
  "clearing rw \<longleftrightarrow> runtime_inv cfg True rw \<and> (topology_applied (rt_observed_state (fst rw)) \<longrightarrow> idle (fst rw))"

lemma clearing_raises: "clearing rw \<Longrightarrow> \<not> topology_applied (rt_observed_state (fst rw)) \<Longrightarrow> runtime_inv cfg False rw"
  by (simp add: clearing_def runtime_inv_def)

lemma clearing_fields [simp]:
  "clearing (rt\<lparr>rt_supervisor := su\<rparr>, w) \<longleftrightarrow> wired cfg (rt\<lparr>rt_supervisor := su\<rparr>) \<and> records_ok rt \<and>
     override_shown rt \<and> (topology_applied (rt_observed_state rt) \<longrightarrow> idle (rt\<lparr>rt_supervisor := su\<rparr>))"
  by (simp add: clearing_def runtime_inv_def)

lemma idle_status:
  assumes "wired cfg rt" and "idle rt"
  shows "safely (current_datapath_status env cfg)
    (\<lambda>st (rt', w'). rt' = rt \<and> \<not> ps_running st \<and> ps_pid st = None \<and> status_good st) (\<lambda>_ _. False) (rt, w)"
proof (cases "rt_supervisor rt")
  case None
  then show ?thesis
    by (simp add: current_datapath_status_def exec_simps unmanaged_datapath_status_def default_status_def
        status_good_def)
next
  case (Some su)
  then have p: "sv_process (su_state su) = None" and g: "supervisor_good (su_state su)"
    using assms by (simp_all add: idle_def wired_def supervisor_ok_def)
  have "rt = rt\<lparr>rt_supervisor := Some (su\<lparr>su_state := su_state su\<rparr>)\<rparr>" using Some by simp
  with Some p g show ?thesis
    by (simp add: current_datapath_status_def safely_bind safely_get_fst safely_ret safely_on_supervisor
        status_locked_def history_status_def unmanaged_datapath_status_def default_status_def
        status_good_def supervisor_good_def)
qed

lemma clearing_status:
  assumes "clearing (rt, w)"
  shows "safely (current_datapath_status env cfg)
    (\<lambda>st rw'. clearing rw' \<and>
       (topology_applied (rt_observed_state (fst rw')) \<longrightarrow> status_good st \<and> ps_pid st = None))
    (\<lambda>_. runtime_inv cfg False) (rt, w)"
proof (cases "topology_applied (rt_observed_state rt)")
  case True
  then have "wired cfg rt" "idle rt" using assms by (simp_all add: clearing_def runtime_inv_def)
  then show ?thesis by (rule safely_mono [OF idle_status]) (use assms in \<open>auto simp: clearing_def runtime_inv_def\<close>)
next
  case False
  then have "wired cfg rt" using assms by (simp add: clearing_def runtime_inv_def)
  then show ?thesis
    by (rule safely_mono [OF status_safely [OF sound]])
      (use assms False in \<open>auto simp: detach_iff clearing_def runtime_inv_def\<close>)
qed

lemma idle_stop:
  assumes i: "wired cfg rt" "idle rt"
  shows "safely (stop_supervisor env)
    (\<lambda>_ rw'. wired cfg (fst rw') \<and> detach (fst rw') = detach rt \<and> idle (fst rw')) (\<lambda>_ _. False) (rt, w)"
proof (cases "rt_supervisor rt")
  case None
  with i show ?thesis by (simp add: stop_supervisor_def exec_simps)
next
  case (Some su)
  with i show ?thesis
    by (auto simp: stop_supervisor_def exec_simps safely_on_supervisor supervisor_stop_def stop_locked_def
        idle_def wired_def supervisor_ok_def Let_def clear_history_def supervisor_good_def supervisor_inv_def)
qed

lemma clearing_stop:
  assumes "clearing (rt, w)"
  shows "safely (stop_supervisor env) (\<lambda>_. clearing) (\<lambda>_. runtime_inv cfg False) (rt, w)"
proof (cases "topology_applied (rt_observed_state rt)")
  case True
  then have i: "wired cfg rt" "idle rt" using assms by (simp_all add: clearing_def runtime_inv_def)
  from idle_stop [OF i, of w] show ?thesis
    by (rule safely_mono) (use assms in \<open>auto simp: detach_iff clearing_def runtime_inv_def\<close>)
next
  case False
  then have "wired cfg rt" using assms by (simp add: clearing_def runtime_inv_def)
  then show ?thesis
    by (rule safely_mono [OF stop_supervisor_ends])
      (use assms False in \<open>auto simp: detach_iff clearing_def runtime_inv_def\<close>)
qed

lemma clearing_observe:
  assumes "clearing (rt, w)" and "topology_applied (rt_observed_state rt) \<Longrightarrow> status_good st \<and> ps_pid st = None"
  shows "safely (observe st False effective) (\<lambda>_. runtime_inv cfg False) (\<lambda>_. runtime_inv cfg False) (rt, w)"
proof (cases "topology_applied (rt_observed_state rt)")
  case True
  then have "status_good st" "ps_pid st = None" using assms(2) by simp_all
  then obtain obs where "observed_from_datapath rt st False effective = Inr obs"
    by (cases "ps_health st") (auto simp: observed_from_datapath_def ObservedState_post_init_def status_good_def
        validate_optional_non_negative_def validate_optional_positive_def HealthStateModel_ok_def)
  with assms(1) show ?thesis
    by (auto simp: observe_def exec_simps clearing_def runtime_inv_def records_ok_def override_shown_def
        observed_from_datapath_def dest: observed_post_init)
next
  case False
  then show ?thesis
    by (intro safely_mono [OF observe_safely])
      (use assms(1) in \<open>auto simp: clearing_def runtime_inv_def records_ok_def override_shown_def\<close>)
qed

lemma without_topology_ok:
  "records_ok rt \<Longrightarrow> records_ok (rt\<lparr>rt_desired_state := desired_state_without_topology rt\<rparr>)"
  by (simp add: records_ok_def desired_state_without_topology_def DesiredState_post_init_def
      default_DesiredState_def validate_optional_text_def)

lemma clearing_desired:
  "clearing (rt, w) \<Longrightarrow> clearing (rt\<lparr>rt_desired_state := desired_state_without_topology rt\<rparr>, w)"
  by (simp add: clearing_def runtime_inv_def without_topology_ok idle_def) (simp add: override_shown_def)

text \<open>The end of a failed operation: the override is set and shown.\<close>

lemma override_recompute:
  assumes "runtime_inv cfg t (rt, w)" and "m \<noteq> []"
  shows "safely (then_do (set_override (Some m)) (recompute cfg st)) (\<lambda>_. runtime_inv cfg t) E (rt, w)"
proof -
  have "records_ok (rt\<lparr>rt_override_message := Some m\<rparr>)" using assms by (simp add: runtime_inv_def records_ok_def)
  from recompute_ok [OF this] assms(1) show ?thesis
    by (simp add: set_override_def recompute_def exec_simps runtime_inv_def)
qed

lemma begun_operation:
  assumes "runtime_inv cfg t (rt, w)" and "state \<notin> {CS_failed, CS_stopped}" and "message \<noteq> []"
  shows "runtime_inv cfg t (begin_operation state message rt, w)"
  using assms by (simp add: runtime_inv_def records_ok_def override_shown_def begin_operation_def set_health_def
      wired_def)

lemma keeps_recorded: "keeps (runtime_inv cfg True) (apply_recorded env cfg result)"
  unfolding keeps_def
proof (clarify, goal_cases)
  case (1 rt w)
  have observed: "keeps (runtime_inv cfg True) (bind (current_datapath_status env cfg) (\<lambda>status.
      then_do (observe status applied effective) (recompute cfg status)))" for applied effective
  proof (intro keeps_intros keeps_current_status)
    fix status
    show "keeps (runtime_inv cfg True) (observe status applied effective)"
      unfolding keeps_def
      by (clarify, rule safely_mono [OF observe_safely])
        (auto simp: runtime_inv_def records_ok_def override_shown_def)
  qed
  from 1 have "runtime_inv cfg True (rt\<lparr>rt_override_message := None\<rparr>, w)"
    by (simp add: runtime_inv_def records_ok_def override_shown_def)
  moreover have "runtime_inv cfg True (rt'\<lparr>rt_desired_state := d\<rparr>, w)"
    if "runtime_inv cfg True (rt', w)" "DesiredState_post_init x = Inr d" "desired_controller_state x = CS_running"
    for rt' x d
    using that desired_post_init [OF that(2)] by (simp add: runtime_inv_def records_ok_def override_shown_def)
  ultimately show ?case
    unfolding apply_recorded_def set_override_def safely_then [where m = "modify _"] safely_modify
      safely_bind [where m = "lift_sum _"] safely_lift_sum
    by (auto split: sum.splits intro!: keepsD [OF observed])
qed

lemma rejected_without:
  assumes "clearing (rt, w)"
  shows "safely (apply_rejected env cfg path) (\<lambda>_ cs. fst cs = None \<and> runtime_inv cfg False (snd cs))
    (\<lambda>_ cs. fst cs = None \<and> runtime_inv cfg False (snd cs)) (None, rt, w)"
  unfolding apply_rejected_def safely_bind [where m = "on_snd _"] safely_on_snd
proof (rule safely_mono [OF clearing_status [OF assms]], goal_cases)
  case (1 st rw)
  obtain rt' w' where rw: "rw = (rt', w')" by (rule prod.exhaust)
  with 1 have c: "clearing (rt', w')"
    and g: "topology_applied (rt_observed_state rt') \<Longrightarrow> status_good st \<and> ps_pid st = None" by simp_all
  have "safely (observe st False None) (\<lambda>_. runtime_inv cfg False) (\<lambda>_. runtime_inv cfg False)
      (rt'\<lparr>rt_desired_state := desired_state_without_topology rt'\<rparr>, w')"
    using g by (intro clearing_observe clearing_desired c) simp
  then show ?case
    unfolding rw
    by (simp add: safely_bind safely_get_fst safely_on_snd has_applied_topology_def safely_then safely_modify)
      (erule safely_mono, auto intro!: override_recompute)
qed simp

lemma rejected_with:
  assumes "runtime_inv cfg True (rt, w)"
  shows "safely (apply_rejected env cfg path) (\<lambda>_ cs. fst cs = Some a \<and> runtime_inv cfg True (snd cs))
    (\<lambda>_ cs. fst cs = Some a \<and> runtime_inv cfg True (snd cs)) (Some a, rt, w)"
  unfolding apply_rejected_def safely_bind [where m = "on_snd _"] safely_on_snd
proof (rule safely_mono [OF keepsD [OF keeps_current_status assms]], goal_cases)
  case (1 st rw)
  obtain rt' w' where rw: "rw = (rt', w')" by (rule prod.exhaust)
  from keepsD [OF keeps_observe_same 1, of st] show ?case
    unfolding rw
    by (simp add: safely_bind [where m = get_fst] safely_get_fst safely_on_snd has_applied_topology_def
        safely_then [where m = "observe_same_topology _"])
      (erule safely_mono, auto intro!: override_recompute)
qed simp

text \<open>The invariant of a controller together with its manager.\<close>

definition controller_inv :: "current \<times> ControllerRuntime \<times> 'w \<Rightarrow> bool" where
  "controller_inv s \<longleftrightarrow> runtime_inv cfg (fst s \<noteq> None) (snd s)"

lemma apply_keeps: "keeps controller_inv (apply_topology env cfg path)"
  unfolding keeps_def
proof (clarify, goal_cases)
  case (1 c rt w)
  show ?case
  proof (cases "str_strip path = []")
    case True
    with 1 show ?thesis by (simp add: apply_topology_def exec_simps)
  next
    case False
    define rt0 where "rt0 = begin_operation CS_reconciling (''applying topology from '' @ path) rt"
    have begun: "runtime_inv cfg (c \<noteq> None) (rt0, w)"
      using 1 unfolding rt0_def by (intro begun_operation) (simp_all add: controller_inv_def)
    then have I: "apart rt0 (rt0, w)" by (simp add: apart_def runtime_inv_def)
    have "safely (manager_apply (controller_manager env cfg) path)
        (\<lambda>result. safely (then_do (on_snd (apply_recorded env cfg result)) (ret result))
           (\<lambda>_. controller_inv) (\<lambda>_. controller_inv))
        (\<lambda>e. safely (then_do (apply_rejected env cfg path) (raise e))
           (\<lambda>_. controller_inv) (\<lambda>_. controller_inv)) (c, rt0, w)"
    proof (rule safely_mono [OF kept.apply_ends [OF I]], goal_cases)
      case (1 result cs)
      then obtain v rt' w' where "cs = (Some \<lparr>at_config_path = path, at_validated = v\<rparr>, rt', w')"
          "apart rt0 (rt', w')" by (cases cs) (auto simp: kept.now_current_def)
      moreover from this begun have "runtime_inv cfg True (rt', w')"
        using runtime_inv_cong [of rt' rt0 cfg True w w'] runtime_inv_True [of cfg "c \<noteq> None" "(rt0, w)"]
        by (simp add: apart_def)
      ultimately show ?case
        using keepsD [OF keeps_recorded, of "(rt', w')" result]
        by (simp add: safely_then safely_on_snd safely_ret controller_inv_def)
    next
      case (2 e cs)
      obtain c' rt' w' where cs: "cs = (c', rt', w')" by (metis prod_cases3)
      with 2 have a: "apart rt0 (rt', w')" and c: "c' = c \<or> c' = None \<and> idle rt'"
        by (auto simp: kept.left_alone_def)
      then have kept: "runtime_inv cfg (c \<noteq> None) (rt', w')"
        using begun by (auto simp: apart_def intro: runtime_inv_cong)
      show ?case
      proof (cases c')
        case None
        with c kept have "clearing (rt', w')" by (auto simp: clearing_def runtime_inv_def)
        from rejected_without [OF this] show ?thesis
          unfolding cs None safely_then by (rule safely_mono) (auto simp: safely_raise controller_inv_def)
      next
        case (Some a)
        with c kept have "runtime_inv cfg True (rt', w')" by auto
        from rejected_with [OF this] show ?thesis
          unfolding cs Some safely_then by (rule safely_mono) (auto simp: safely_raise controller_inv_def)
      qed
    qed
    with False show ?thesis
      by (simp add: apply_topology_def safely_then [where m = "on_snd (modify _)"] safely_on_snd safely_modify
          safely_bind safely_attempt rt0_def)
  qed
qed

lemma destroy_recorded_clears:
  assumes "clearing (rt, w)"
  shows "safely (destroy_recorded env cfg) (\<lambda>_. runtime_inv cfg False) (\<lambda>_. runtime_inv cfg False) (rt, w)"
proof -
  have "clearing (rt\<lparr>rt_override_message := None\<rparr>, w)"
    using assms by (simp add: clearing_def runtime_inv_def records_ok_def override_shown_def idle_def)
  from clearing_desired [OF this]
  have "safely (current_datapath_status env cfg) (\<lambda>status.
      safely (then_do (observe status False None) (recompute cfg status)) (\<lambda>_. runtime_inv cfg False)
        (\<lambda>_. runtime_inv cfg False)) (\<lambda>_. runtime_inv cfg False)
      (rt\<lparr>rt_override_message := None,
          rt_desired_state := desired_state_without_topology (rt\<lparr>rt_override_message := None\<rparr>)\<rparr>, w)"
    by (intro safely_mono [OF clearing_status])
      (auto simp: safely_then intro!: safely_mono [OF clearing_observe] keepsD [OF keeps_recompute])
  then show ?thesis
    by (simp add: destroy_recorded_def set_override_def safely_then [where m = "modify _"] safely_bind
        safely_modify)
qed

lemma destroy_keeps: "keeps controller_inv (destroy_topology env cfg)"
  unfolding keeps_def
proof (clarify, goal_cases)
  case (1 c rt w)
  define rt0 where "rt0 = begin_operation CS_reconciling ''destroying topology'' rt"
  have begun: "runtime_inv cfg (c \<noteq> None) (rt0, w)"
    using 1 unfolding rt0_def by (intro begun_operation) (simp_all add: controller_inv_def)
  then have I: "apart rt0 (rt0, w)" by (simp add: apart_def runtime_inv_def)
  have "safely (manager_destroy (controller_manager env cfg))
      (\<lambda>result. safely (then_do (on_snd (stop_topology_datapath env))
          (then_do (on_snd (destroy_recorded env cfg)) (ret result))) (\<lambda>_. controller_inv) (\<lambda>_. controller_inv))
      (\<lambda>e. safely (then_do (on_snd (destroy_rejected env cfg)) (raise e))
          (\<lambda>_. controller_inv) (\<lambda>_. controller_inv)) (c, rt0, w)"
  proof (rule safely_mono [OF kept.manager_destroy_ends [OF I]], goal_cases)
    case (1 result cs)
    obtain rt' w' where cs: "cs = (None, rt', w')" and a: "apart rt0 (rt', w')"
      and c: "c = None \<longrightarrow> (rt', w') = (rt0, w)" "c \<noteq> None \<longrightarrow> idle rt'"
      using 1 by (cases cs) auto
    then have "runtime_inv cfg (c \<noteq> None) (rt', w')"
      using begun by (auto simp: apart_def intro: runtime_inv_cong)
    with c have "clearing (rt', w')" by (auto simp: clearing_def runtime_inv_def)
    from clearing_stop [OF this] show ?case
      unfolding cs
      by (simp add: stop_topology_datapath_def safely_then [where m = "on_snd (stop_supervisor _)"] safely_on_snd)
        (erule safely_mono, auto simp: safely_then safely_on_snd safely_ret controller_inv_def
          intro!: safely_mono [OF destroy_recorded_clears])
  next
    case (2 e cs)
    obtain rt' w' where cs: "cs = (c, rt', w')" and a: "apart rt0 (rt', w')"
      using 2 by (cases cs) auto
    then have "runtime_inv cfg (c \<noteq> None) (rt', w')"
      using begun by (auto simp: apart_def intro: runtime_inv_cong)
    then have "safely (destroy_rejected env cfg) (\<lambda>_. runtime_inv cfg (c \<noteq> None))
        (\<lambda>_. runtime_inv cfg (c \<noteq> None)) (rt', w')"
      unfolding destroy_rejected_def safely_bind
      by (intro safely_mono [OF keepsD [OF keeps_current_status]])
        (auto simp: safely_then [where m = "observe_same_topology _"] intro!: override_recompute
          safely_mono [OF keepsD [OF keeps_observe_same]])
    then show ?case
      unfolding cs
      by (simp add: safely_then safely_on_snd safely_raise)
        (erule safely_mono, simp_all add: controller_inv_def)
  qed
  then show ?case
    by (simp add: destroy_topology_def safely_then [where m = "on_snd (modify _)"] safely_on_snd safely_modify
        safely_bind safely_attempt rt0_def)
qed

lemma stopped_ends:
  assumes "runtime_inv cfg t (rt, w)" and "rt_override_message rt = None"
  shows "safely (runtime_stopped cfg) (\<lambda>_. runtime_inv cfg False) (\<lambda>_ _. False) (rt, w)"
  using assms
  by (auto simp: runtime_stopped_def observe_def exec_simps observed_from_datapath_def
      unmanaged_datapath_status_def default_status_def ObservedState_post_init_def
      validate_optional_non_negative_def validate_optional_positive_def runtime_inv_def records_ok_def
      override_shown_def set_health_def DesiredState_post_init_def default_DesiredState_def
      validate_optional_text_def wired_def)

lemma stop_keeps: "keeps controller_inv (controller_stop env cfg)"
  unfolding keeps_def
proof (clarify, goal_cases)
  case (1 c rt w)
  show ?case
  proof (cases "rt_started rt")
    case False
    with 1 show ?thesis by (simp add: controller_stop_def exec_simps)
  next
    case True
    define rt0 where "rt0 = begin_operation CS_stopping ''stopping controller runtime'' rt"
    have begun: "runtime_inv cfg (c \<noteq> None) (rt0, w)"
      using 1 unfolding rt0_def by (intro begun_operation) (simp_all add: controller_inv_def)
    have same: "runtime_inv cfg (c \<noteq> None) rw'" "rt_override_message (fst rw') = None"
      if "apart rt0 rw'" for rw'
      using that begun runtime_inv_cong [of "fst rw'" rt0 cfg "c \<noteq> None" w "snd rw'"]
      by (auto simp: apart_def detach_iff rt0_def begin_operation_def set_health_def)
    have "safely (if has_applied_topology c then
            then_do (manager_destroy (controller_manager env cfg)) (ret ())
          else on_snd (stop_supervisor env))
        (\<lambda>_ cs. fst cs = None \<and> apart rt0 (snd cs)) (\<lambda>_ cs. fst cs = c \<and> apart rt0 (snd cs)) (c, rt0, w)"
    proof (cases c)
      case None
      have "wired cfg rt0" using begun by (simp add: runtime_inv_def)
      from stop_supervisor_ends [OF this, of env w] show ?thesis
        unfolding None has_applied_topology_def
        by (simp add: safely_on_snd) (erule safely_mono, auto simp: apart_def)
    next
      case (Some a)
      have "apart rt0 (rt0, w)" using begun by (simp add: apart_def runtime_inv_def)
      from kept.manager_destroy_ends [OF this, of c] show ?thesis
        unfolding Some has_applied_topology_def
        by (simp add: safely_then) (erule safely_mono, auto simp: safely_ret)
    qed
    then have "safely (then_do (if has_applied_topology c then
            then_do (manager_destroy (controller_manager env cfg)) (ret ())
          else on_snd (stop_supervisor env)) (on_snd (runtime_stopped cfg)))
        (\<lambda>_. controller_inv) (\<lambda>_. controller_inv) (c, rt0, w)"
      unfolding safely_then [where k = "on_snd (runtime_stopped cfg)"]
    proof (rule safely_mono, goal_cases)
      case (1 u cs)
      then obtain rt' w' where cs: "cs = (None, rt', w')" and a: "apart rt0 (rt', w')" by (cases cs) auto
      have "safely (runtime_stopped cfg) (\<lambda>_. runtime_inv cfg False) (\<lambda>_ _. False) (rt', w')"
        using same [OF a] by (intro stopped_ends) simp_all
      then show ?case
        unfolding cs safely_on_snd by (rule safely_mono) (simp_all add: controller_inv_def)
    next
      case (2 e cs)
      with same show ?case by (cases cs) (auto simp: controller_inv_def)
    qed
    with True show ?thesis
      by (simp add: controller_stop_def safely_bind [where m = "on_snd get_fst"]  safely_bind [where m = get_fst] safely_on_snd safely_get_fst
          safely_then [where m = "on_snd (modify _)"] safely_modify rt0_def)
  qed
qed

lemma keeps_unit: "keeps I m \<Longrightarrow> keeps I (then_do m (ret ()))"
  by (intro keeps_intros)

lemma keeps_runtime: "(\<And>t. keeps (runtime_inv cfg t) m) \<Longrightarrow> keeps controller_inv (on_snd m)"
  by (auto simp: keeps_def controller_inv_def safely_on_snd)

lemma perform_keeps: "keeps controller_inv (perform env cfg op)"
  by (cases op) (simp_all add: controller_start_def keeps_runtime keeps_unit runtime_start_keeps stop_keeps
      apply_keeps destroy_keeps keeps_commands keeps_status_snapshot)

lemma created_inv:
  assumes "controller_init cfg None = Inr rt"
  shows "controller_inv (None, rt, w)"
proof -
  obtain c where c: "build_supervisor_config cfg None [] = Inr c"
    using plain_supervisor_config [OF configured] by blast
  with assms build_supervisor_config_ok [OF c] show ?thesis
    by (auto simp: controller_init_def controller_inv_def runtime_inv_def wired_def supervisor_ok_def
        records_ok_def override_shown_def DesiredState_post_init_def default_DesiredState_def
        validate_optional_text_def ObservedState_post_init_def default_ObservedState_def
        validate_optional_non_negative_def validate_optional_positive_def Let_def split: if_splits)
qed

lemma reachable_inv: "reachable env cfg s \<Longrightarrow> controller_inv s"
proof (induction rule: reachable.induct)
  case (performed s op r s')
  then show ?case using keeps_run [OF perform_keeps] by blast
qed (auto simp: controller_inv_def runtime_inv_def dest: created_inv)

end

section \<open>A controller without a host\<close>

text \<open>The simulated datapath on a host that cannot read files or run commands.\<close>

definition bare_env :: "sim_world controller_env" where
  "bare_env =
     \<lparr>ce_process = sim_env, ce_run = (\<lambda>argv w. (Inl (PyOSError FileNotFoundError ''ip''), w)),
      ce_load_topology = (\<lambda>path. raise (Pktlab (mk_ConfigParseError ''unable to read topology config'' None)))\<rparr>"

definition lab_config :: ControllerConfig where
  "lab_config =
     \<lparr>cc_datapath_binary = ''pktlab-dpdkd'', cc_datapath_socket_path = ''/run/pktlab/dpdkd.sock'',
      cc_datapath_startup_timeout_seconds = 5, cc_supervise_datapath = True\<rparr>"

lemma lab_config_ok: "ControllerConfig_post_init lab_config = Inr lab_config"
  by (simp add: ControllerConfig_post_init_def lab_config_def str_strip_def char_isspace_def)

lemma sim_codec_sound: "codec_sound sim_codec"
  by (simp add: codec_sound_def sim_codec_def HealthStateModel_ok_def VersionPayload_ok_def)

interpretation bare: controller_world bare_env lab_config
  by unfold_locales (simp_all add: bare_env_def sim_env_def sim_codec_sound lab_config_ok)

section \<open>Properties\<close>

text \<open>C3. In every state a controller reaches, whatever its operations raise and whatever happens to the
  datapath in between: it has a supervisor exactly when it is configured to supervise, and that one
  has a valid configuration and a client for its process; an override message is shown as a degraded
  state; the message is never empty and the state never \<open>failed\<close>; a started controller wants to run
  and is not in state \<open>stopped\<close>; and the observed state claims a topology only while the manager has
  one.\<close>

theorem controller_invariant:
  assumes "codec_sound (pe_codec (ce_process env))" and "ControllerConfig_post_init cfg = Inr cfg"
    and "reachable env cfg (current, rt, w)"
  shows "(rt_supervisor rt \<noteq> None) = cc_supervise_datapath cfg \<and>
    (\<forall>su. rt_supervisor rt = Some su \<longrightarrow> supervisor_ok cfg su) \<and>
    (\<forall>m. rt_override_message rt = Some m \<longrightarrow>
      rt_controller_state rt = CS_degraded \<and> rt_controller_message rt = m) \<and>
    rt_controller_message rt \<noteq> [] \<and> rt_controller_state rt \<noteq> CS_failed \<and>
    (rt_started rt \<longrightarrow> rt_controller_state rt \<noteq> CS_stopped \<and>
      desired_controller_state (rt_desired_state rt) = CS_running) \<and>
    (topology_applied (rt_observed_state rt) \<longrightarrow> has_applied_topology current)"
proof -
  have "controller_world env cfg" using assms(1,2) by (simp add: controller_world_def)
  from controller_world.reachable_inv [OF this assms(3)] have "runtime_inv cfg (current \<noteq> None) (rt, w)"
    by (simp add: controller_world.controller_inv_def [OF \<open>controller_world env cfg\<close>])
  then show ?thesis
    by (auto simp: runtime_inv_def wired_def records_ok_def override_shown_def has_applied_topology_def
        split: option.splits)
qed

lemma bare_apply_fails:
  "\<exists>rt r. controller_init lab_config None = Inr rt \<and>
     (\<exists>rt'. perform bare_env lab_config (Apply ''lab.yaml'') (None, rt, w) = Some (r, None, rt', w) \<and>
       rt_override_message rt' = Some ''failed to apply topology from lab.yaml'')"
  by (simp add: controller_init_def lab_config_def build_supervisor_config_def SupervisorConfig_post_init_def
      str_strip_def char_isspace_def apply_topology_def then_do_def bind_def on_snd_def modify_def get_fst_def
      put_fst_def begin_operation_def set_health_def attempt_def manager_apply_def controller_manager_def
      bare_env_def raise_def apply_rejected_def current_datapath_status_def ret_def has_applied_topology_def
      observe_def lift_sum_def observed_from_datapath_def unmanaged_datapath_status_def default_status_def
      ObservedState_post_init_def validate_optional_non_negative_def validate_optional_positive_def
      set_override_def recompute_def recompute_controller_health_def Let_def)

theorem controller_invariant_witness:
  "\<exists>rt. reachable bare_env lab_config (None, rt, \<lparr>sw_time = 0, sw_pid = None\<rparr>) \<and>
     rt_override_message rt = Some ''failed to apply topology from lab.yaml'' \<and>
     rt_controller_state rt = CS_degraded \<and>
     rt_controller_message rt = ''failed to apply topology from lab.yaml'' \<and>
     rt_supervisor rt \<noteq> None \<and> \<not> topology_applied (rt_observed_state rt)"
proof -
  let ?w = "\<lparr>sw_time = 0, sw_pid = None\<rparr>"
  obtain rt r rt' where rt: "controller_init lab_config None = Inr rt"
      "perform bare_env lab_config (Apply ''lab.yaml'') (None, rt, ?w) = Some (r, None, rt', ?w)"
    and m: "rt_override_message rt' = Some ''failed to apply topology from lab.yaml''"
    using bare_apply_fails [of ?w] by blast
  have "reachable bare_env lab_config (None, rt', ?w)"
    by (rule reachable.performed [OF reachable.created [OF rt(1)] rt(2)])
  with m controller_invariant [OF bare.sound bare.configured this] show ?thesis
    by (intro exI [of _ rt']) (simp add: lab_config_def has_applied_topology_def)
qed

end
