(* ===== verification/Controller_Run.thy ===== *)
theory Controller_Run
  imports Controller_Inv
begin

text \<open>
  That the operations of the controller return, and what those that only tear down do: nothing in
  them waits in a loop, so they return in any environment, and a controller that lost its topology
  is running again after the next destroy.
\<close>

named_theorems always_intros \<open>programs that return from every state\<close>

definition always :: "('s, 'a) prog \<Rightarrow> bool" where
  "always m \<longleftrightarrow> (\<forall>s. m s \<noteq> None)"

lemma always_outcome: "always m \<longleftrightarrow> (\<forall>s. outcome m (\<lambda>_ _. True) (\<lambda>_ _. True) s)"
  by (auto simp: always_def outcome_def split: option.splits sum.splits)

lemma always_basic [always_intros]:
  "always (ret x)" "always (raise e)" "always (lift_sum r)" "always (step f)" "always get_fst" "always (put_fst c)"
  by (auto simp: always_def ret_def raise_def lift_sum_def step_def get_fst_def put_fst_def)

lemma always_bind [always_intros]: "always m \<Longrightarrow> (\<And>x. always (k x)) \<Longrightarrow> always (bind m k)"
  by (auto simp: always_def bind_def split: option.splits sum.splits)

lemma always_then [always_intros]: "always m \<Longrightarrow> always k \<Longrightarrow> always (then_do m k)"
  unfolding then_do_def by (rule always_bind)

lemma always_attempt [always_intros]: "always m \<Longrightarrow> always (attempt m)"
  by (auto simp: always_def attempt_def split: option.splits)

lemma always_on_snd [always_intros]: "always m \<Longrightarrow> always (on_snd m)"
  by (auto simp: always_def on_snd_def)

lemma always_if [always_intros]: "always m \<Longrightarrow> always m' \<Longrightarrow> always (if b then m else m')"
  by simp

lemma always_case_option [always_intros]:
  "always m \<Longrightarrow> (\<And>x. always (k x)) \<Longrightarrow> always (case v of None \<Rightarrow> m | Some x \<Rightarrow> k x)"
  by (cases v) simp_all

lemma always_case_sum [always_intros]:
  "(\<And>x. always (f x)) \<Longrightarrow> (\<And>x. always (g x)) \<Longrightarrow> always (case v of Inl x \<Rightarrow> f x | Inr x \<Rightarrow> g x)"
  by (cases v) simp_all

lemma always_case_exn [always_intros]:
  "(\<And>x. always (f x)) \<Longrightarrow> (\<And>e. always (g e)) \<Longrightarrow> always (case e of Pktlab x \<Rightarrow> f x | _ \<Rightarrow> g e)"
  by (cases e) simp_all

lemma always_for_each [always_intros]: "(\<And>x. always (f x)) \<Longrightarrow> always (for_each f xs)"
  by (induction xs) (simp_all add: always_basic always_then)

section \<open>Tearing down\<close>

lemma always_run_ip [always_intros]: "always (run_ip run arguments namespace allowed)"
  unfolding run_ip_def executor_run_def Let_def by (intro always_intros)

lemma always_destroy [always_intros]:
  "always (destroy_links_and_bridges run v)" "always (destroy_namespaces run v)"
  unfolding destroy_links_and_bridges_def destroy_namespaces_def delete_link_def delete_namespace_def
    link_exists_def namespace_exists_def list_namespaces_def run_ip_checked_def Let_def
  by (intro always_intros)+

lemma always_collect_error [always_intros]: "always m \<Longrightarrow> always (collect_error m)"
  unfolding collect_error_def by (intro always_intros) (auto intro!: always_intros split: exn.split)

lemma always_status [always_intros]: "always (status_locked env cfg)"
  unfolding always_outcome by (auto intro!: outcome_mono [OF status_outcome])

lemma always_stop [always_intros]: "always (supervisor_stop env cfg)"
  unfolding always_outcome supervisor_stop_def by (auto intro!: outcome_mono [OF stop_locked_outcome])

lemma always_reachable_call [always_intros]: "always (reachable_call env cfg what command)"
  unfolding reachable_call_def require_client_def ipc_call_def by (intro always_intros)

lemma always_modify [always_intros]: "always (modify f)"
  unfolding modify_def by (intro always_intros)

lemma always_on_supervisor [always_intros]:
  "(\<And>c. always (method c)) \<Longrightarrow> always (on_supervisor method su)"
  by (auto simp: always_def on_supervisor_def)

lemma always_stop_supervisor [always_intros]: "always (stop_supervisor env)"
  unfolding stop_supervisor_def by (intro always_intros)

lemma always_manager_destroy [always_intros]: "always (manager_destroy (controller_manager env cfg))"
proof -
  have "always (stop_datapath_locked (controller_manager env cfg))"
    by (simp add: stop_datapath_locked_def controller_manager_def stop_topology_datapath_def
        always_stop_supervisor)
  then show ?thesis
    unfolding manager_destroy_def destroy_locked_def Let_def by (intro always_intros)
qed

lemma always_controller [always_intros]:
  "always (current_datapath_status env cfg)" "always (observe st applied effective)"
  "always (observe_same_topology st)" "always (recompute cfg st)" "always (set_override m)"
  "always (check_result r)" "always (runtime_stopped cfg)" "always (stop_topology_datapath env)"
  unfolding current_datapath_status_def observe_same_topology_def observe_def recompute_def set_override_def
    check_result_def runtime_stopped_def stop_topology_datapath_def
  by (intro always_intros)+

lemma always_with_supervisor [always_intros]:
  "(\<And>c. always (method c)) \<Longrightarrow> always (with_supervisor method)"
  unfolding with_supervisor_def by (intro always_intros)

lemma always_operations:
  "always (destroy_topology env cfg)" "always (controller_stop env cfg)"
  "always (apply_rejected env cfg path)" "always (apply_recorded env cfg result)"
  "always (health_snapshot env cfg)" "always (datapath_status_snapshot env cfg)"
  "always (datapath_stats_snapshot env cfg)" "always (reset_datapath_stats env cfg)"
  "always (pause_datapath_runtime env cfg)" "always (resume_datapath_runtime env cfg)"
  unfolding destroy_topology_def destroy_rejected_def destroy_recorded_def controller_stop_def
    apply_rejected_def apply_recorded_def health_snapshot_def datapath_status_snapshot_def
    datapath_stats_snapshot_def reset_datapath_stats_def pause_datapath_runtime_def
    resume_datapath_runtime_def run_datapath_control_command_def supervisor_get_ports_def
    supervisor_get_stats_def supervisor_reset_stats_def supervisor_pause_datapath_def
    supervisor_resume_datapath_def
  by (intro always_intros)+

lemma safely_always: "always m \<Longrightarrow> safely m Q E s \<Longrightarrow> outcome m Q E s"
  unfolding always_def safely_def by blast

section \<open>Recovery\<close>

context controller_world
begin

lemma destroy_recorded_runs:
  assumes "wired cfg rt" and "idle rt" and "rt_controller_state rt = CS_reconciling"
  shows "safely (destroy_recorded env cfg)
    (\<lambda>_ (rt', w'). idle rt' \<and> \<not> topology_applied (rt_observed_state rt') \<and> rt_override_message rt' = None \<and>
       rt_controller_state rt' = CS_running \<and> rt_desired_state rt' = desired_state_without_topology rt)
    (\<lambda>_ _. False) (rt, w)"
proof -
  let ?rt = "rt\<lparr>rt_override_message := None, rt_desired_state := desired_state_without_topology rt\<rparr>"
  have without: "desired_state_without_topology (rt\<lparr>rt_override_message := None\<rparr>) = desired_state_without_topology rt"
    by (simp add: desired_state_without_topology_def)
  have "safely (then_do (observe st False None) (recompute cfg st))
      (\<lambda>_ (rt', w'). idle rt' \<and> \<not> topology_applied (rt_observed_state rt') \<and> rt_override_message rt' = None \<and>
         rt_controller_state rt' = CS_running \<and> rt_desired_state rt' = desired_state_without_topology rt)
      (\<lambda>_ _. False) (?rt, w')" if st: "\<not> ps_running st" "ps_pid st = None" "status_good st" for st w'
  proof -
    obtain obs where o: "observed_from_datapath ?rt st False None = Inr obs"
      using st(2,3) by (cases "ps_health st") (auto simp: observed_from_datapath_def
          ObservedState_post_init_def status_good_def validate_optional_non_negative_def
          validate_optional_positive_def HealthStateModel_ok_def)
    then have "\<not> topology_applied obs" by (auto simp: observed_from_datapath_def dest: observed_post_init)
    with o assms st(1) show ?thesis
      by (auto simp: observe_def exec_simps recompute_def recompute_controller_health_def set_health_def
          idle_def desired_state_without_topology_def)
  qed
  moreover have "wired cfg ?rt" "idle ?rt" using assms by (simp_all add: idle_def)
  ultimately have "safely (bind (current_datapath_status env cfg) (\<lambda>st. then_do (observe st False None) (recompute cfg st)))
      (\<lambda>_ (rt', w'). idle rt' \<and> \<not> topology_applied (rt_observed_state rt') \<and> rt_override_message rt' = None \<and>
         rt_controller_state rt' = CS_running \<and> rt_desired_state rt' = desired_state_without_topology rt)
      (\<lambda>_ _. False) (?rt, w)"
    unfolding safely_bind by (intro safely_mono [OF idle_status]) auto
  then show ?thesis
    by (simp add: destroy_recorded_def set_override_def safely_then [where m = "modify _"] safely_modify without)
qed

lemma destroy_ends:
  assumes "wired cfg rt"
  shows "safely (destroy_topology env cfg)
    (\<lambda>_ (c', rt', w'). c' = None \<and> idle rt' \<and> \<not> topology_applied (rt_observed_state rt') \<and>
       rt_override_message rt' = None \<and> rt_controller_state rt' = CS_running \<and>
       rt_desired_state rt' = desired_state_without_topology rt)
    (\<lambda>_ (c', rt', w'). c' = c) (c, rt, w)"
proof -
  define rt0 where "rt0 = begin_operation CS_reconciling ''destroying topology'' rt"
  then have w0: "wired cfg rt0" "rt_controller_state rt0 = CS_reconciling" "rt_started rt0 = rt_started rt"
    using assms by (simp, simp_all add: begin_operation_def set_health_def)
  then have I: "apart rt0 (rt0, w)" by (simp add: apart_def)
  let ?Q = "\<lambda>_ (c', rt', w'). c' = None \<and> idle rt' \<and> \<not> topology_applied (rt_observed_state rt') \<and>
       rt_override_message rt' = None \<and> rt_controller_state rt' = CS_running \<and>
       rt_desired_state rt' = desired_state_without_topology rt"
  let ?E = "\<lambda>_ (c', rt', w'). c' = c"
  have recorded: "safely (on_snd (destroy_recorded env cfg)) ?Q ?E (None, rt', w')"
    if "wired cfg rt'" "detach rt' = detach rt0" "idle rt'" for rt' w'
    unfolding safely_on_snd
    by (rule safely_mono [OF destroy_recorded_runs [OF that(1,3)]])
      (use that(2) w0 in \<open>auto simp: detach_iff desired_state_without_topology_def\<close>)
  have "safely (manager_destroy (controller_manager env cfg))
      (\<lambda>result. safely (then_do (on_snd (stop_topology_datapath env))
          (then_do (on_snd (destroy_recorded env cfg)) (ret result))) ?Q ?E)
      (\<lambda>e. safely (then_do (on_snd (destroy_rejected env cfg)) (raise e)) ?Q ?E) (c, rt0, w)"
  proof (rule safely_mono [OF kept.manager_destroy_ends [OF I]], goal_cases)
    case (1 result cs)
    obtain rt' w' where cs: "cs = (None, rt', w')" and a: "wired cfg rt'" "detach rt' = detach rt0"
      and c: "c \<noteq> None \<longrightarrow> idle rt'"
      using 1 by (cases cs) (auto simp: apart_def)
    have "safely (stop_supervisor env)
        (\<lambda>_ rw'. wired cfg (fst rw') \<and> detach (fst rw') = detach rt0 \<and> idle (fst rw')) (\<lambda>_ _. c = None) (rt', w')"
    proof (cases "c = None")
      case True
      with a show ?thesis by (intro safely_mono [OF stop_supervisor_ends [OF a(1)]]) auto
    next
      case False
      with a c show ?thesis by (intro safely_mono [OF idle_stop [OF a(1)]]) auto
    qed
    then show ?case
      unfolding cs stop_topology_datapath_def safely_then [where m = "on_snd (stop_supervisor _)"] safely_on_snd
      by (rule safely_mono) (auto simp: safely_then safely_ret intro!: safely_mono [OF recorded])
  next
    case (2 e cs)
    then show ?case
      by (cases cs) (auto simp: safely_then safely_on_snd safely_raise intro!: safelyI split: sum.splits)
  qed
  then show ?thesis
    by (simp add: destroy_topology_def safely_then [where m = "on_snd (modify _)"] safely_on_snd safely_modify
        safely_bind safely_attempt rt0_def)
qed

end

section \<open>Properties\<close>

text \<open>C13. A controller recovers: in every state it reaches, destroying the topology returns, in any
  environment, and when it raises nothing the controller is running, without an override message, with
  no datapath process and no topology left, and its desired state asks for none.\<close>

theorem destroy_recovers:
  assumes "codec_sound (pe_codec (ce_process env))" and "ControllerConfig_post_init cfg = Inr cfg"
    and "reachable env cfg (current, rt, w)"
  shows "outcome (destroy_topology env cfg)
    (\<lambda>_ (current', rt', _). current' = None \<and> idle rt' \<and> \<not> topology_applied (rt_observed_state rt') \<and>
       rt_override_message rt' = None \<and> rt_controller_state rt' = CS_running \<and>
       rt_desired_state rt' = desired_state_without_topology rt)
    (\<lambda>_ (current', _). current' = current) (current, rt, w)"
proof -
  have world: "controller_world env cfg" using assms(1,2) by (simp add: controller_world_def)
  from controller_world.reachable_inv [OF world assms(3)] have "wired cfg rt"
    by (simp add: controller_world.controller_inv_def [OF world] runtime_inv_def)
  from controller_world.destroy_ends [OF world this, of current w] show ?thesis
    by (intro safely_always always_operations) (erule safely_mono, auto)
qed

theorem destroy_recovers_witness:
  "\<exists>rt. rt_controller_state rt = CS_degraded \<and>
     outcome (destroy_topology bare_env lab_config)
       (\<lambda>_ (current', rt', _). current' = None \<and> rt_controller_state rt' = CS_running)
       (\<lambda>_ (current', _). current' = None) (None, rt, \<lparr>sw_time = 0, sw_pid = None\<rparr>)"
proof -
  let ?w = "\<lparr>sw_time = 0, sw_pid = None\<rparr>"
  obtain rt r rt' where rt: "controller_init lab_config None = Inr rt"
      "perform bare_env lab_config (Apply ''lab.yaml'') (None, rt, ?w) = Some (r, None, rt', ?w)"
    and m: "rt_override_message rt' = Some ''failed to apply topology from lab.yaml''"
    using bare_apply_fails [of ?w] by blast
  have reach: "reachable bare_env lab_config (None, rt', ?w)"
    by (rule reachable.performed [OF reachable.created [OF rt(1)] rt(2)])
  with m have "rt_controller_state rt' = CS_degraded"
    using bare.reachable_inv [OF reach] by (simp add: bare.controller_inv_def runtime_inv_def override_shown_def)
  moreover from destroy_recovers [OF bare.sound bare.configured reach]
  have "outcome (destroy_topology bare_env lab_config)
       (\<lambda>_ (current', rt', _). current' = None \<and> rt_controller_state rt' = CS_running)
       (\<lambda>_ (current', _). current' = None) (None, rt', ?w)"
    by (rule outcome_mono) auto
  ultimately show ?thesis by blast
qed

end
