(* ===== verification/Lab_Lifecycle.thy ===== *)
theory Lab_Lifecycle
  imports Topology_Manager
begin

text \<open>
  Validation and lifecycle together: what a validated topology is once the manager has applied it,
  and a simulated host on which the assumptions on \<open>ip\<close>, on the clock and on the datapath
  callbacks hold and the programs run.
\<close>

section \<open>From a validated topology to the interfaces of the host\<close>

lemma split_ref_interface_ref: "is_interface_ref r s \<Longrightarrow> split_ref s = r"
  by (cases r) (simp add: is_interface_ref_def split_ref_def str_partition_sep)

lemma validated_ends:
  assumes "topology_ok config"
  shows "(\<Union>l \<in> set (tc_links config). {split_ref (lk_a l), split_ref (lk_b l)}) = config_ends config"
proof -
  have "set (link_ends l) = {split_ref (lk_a l), split_ref (lk_b l)}" if "l \<in> set (tc_links config)" for l
  proof -
    from assms that obtain a b where "interface_ref (lk_a l) = Some a" "interface_ref (lk_b l) = Some b"
      by (auto simp: topology_ok_def links_ok_def list_all_iff)
    then show ?thesis
      by (simp add: link_ends_Some interface_ref_Some_iff split_ref_interface_ref)
  qed
  then show ?thesis by (simp add: config_ends_def)
qed

lemma find_unique_role:
  assumes "count_list (map dp_role ports) (dp_role p) = 1" and "p \<in> set ports"
  shows "List.find (\<lambda>q. dp_role q = dp_role p) ports = Some p"
  using assms
proof (induction ports)
  case Nil
  then show ?case by simp
next
  case (Cons q ports)
  show ?case
  proof (cases "dp_role q = dp_role p")
    case True
    with Cons.prems(1) have "dp_role p \<notin> dp_role ` set ports" by (auto simp: count_list_0_iff)
    with Cons.prems(2) True show ?thesis by auto
  next
    case False
    with Cons show ?thesis by auto
  qed
qed

lemma validated_port_name:
  assumes "topology_ok config" and "p \<in> set (tc_dpdk_ports config)" and "vt_topology v = config"
  shows "port_name_for_role v (dp_role p) = Inr (dp_name p)"
proof -
  from assms(1) have "count_list (map dp_role (tc_dpdk_ports config)) (dp_role p) = 1"
    by (cases "dp_role p") (simp_all add: topology_ok_def ports_ok_def)
  with find_unique_role [OF _ assms(2)] assms(3) show ?thesis by (simp add: port_name_for_role_def)
qed

lemma validated_interfaces:
  assumes "topology_ok config" and "vt_topology v = config"
    and "dc_namespace (vt_requested_dpdk_config v) = config_dpdk_namespace config"
    and "lab_ends v \<subseteq> L"
    and "\<forall>role p. port_name_for_role v role = Inr p \<longrightarrow> (dpdk_namespace_of v, p) \<in> L"
  shows "config_interfaces config \<subseteq> L"
proof -
  have "(config_dpdk_namespace config, dp_name p) \<in> L" if "p \<in> set (tc_dpdk_ports config)" for p
    using assms(3,5) validated_port_name [OF assms(1) that assms(2)] by (auto simp: dpdk_namespace_of_def)
  with assms(2,4) validated_ends [OF assms(1)] show ?thesis by (auto simp: config_interfaces_def)
qed

section \<open>A simulated host\<close>

record host =
  h_time :: rat
  h_namespaces :: "string list"
  h_links :: "(string \<times> string) list"

definition succeed :: "string \<Rightarrow> completed_process" where
  "succeed out = \<lparr>cpr_returncode = 0, cpr_stdout = out, cpr_stderr = []\<rparr>"

definition fail :: completed_process where
  "fail = \<lparr>cpr_returncode = 1, cpr_stdout = [], cpr_stderr = ''error''\<rparr>"

definition host_names :: "host \<Rightarrow> string list" where
  "host_names h = filter netns_name (h_namespaces h)"

text \<open>The commands the controller issues; every one takes a hundredth of a second.\<close>

definition host_netns :: "string \<Rightarrow> string \<Rightarrow> host \<Rightarrow> completed_process \<times> host" where
  "host_netns verb n h =
     (if verb = ''add'' then
        if netns_name n \<and> n \<notin> set (host_names h)
        then (succeed [], h\<lparr>h_namespaces := h_namespaces h @ [n]\<rparr>) else (fail, h)
      else if verb = ''del'' then
        if n \<in> set (host_names h)
        then (succeed [], h\<lparr>h_namespaces := filter (\<lambda>m. m \<noteq> n) (h_namespaces h),
                            h_links := filter (\<lambda>l. fst l \<noteq> n) (h_links h)\<rparr>)
        else (fail, h)
      else (fail, h))"

definition host_dev :: "string \<Rightarrow> string \<Rightarrow> string \<Rightarrow> host \<Rightarrow> completed_process \<times> host" where
  "host_dev verb ns i h =
     (if (ns, i) \<notin> set (h_links h) then (fail, h)
      else if verb = ''del'' then (succeed [], h\<lparr>h_links := filter (\<lambda>l. l \<noteq> (ns, i)) (h_links h)\<rparr>)
      else (succeed [], h))"

definition host_add :: "(string \<times> string) list \<Rightarrow> host \<Rightarrow> completed_process \<times> host" where
  "host_add new h =
     (if list_ex (\<lambda>l. l \<in> set (h_links h) \<or> fst l \<notin> set (host_names h)) new then (fail, h)
      else (succeed [], h\<lparr>h_links := new @ h_links h\<rparr>))"

fun host_command :: "string list \<Rightarrow> host \<Rightarrow> completed_process \<times> host" where
  "host_command [ip, netns, verb] h = (succeed (netns_listing (map (\<lambda>n. (n, [])) (host_names h))), h)"
| "host_command [ip, netns, verb, n] h = host_netns verb n h"
| "host_command [ip, n, ns, link, verb, dev, i] h = host_dev verb ns i h"
| "host_command [ip, n, ns, link, add, name, i, type, bridge] h =
     (if link = ''link'' \<and> add = ''add'' then host_add [(ns, i)] h else (succeed [], h))"
| "host_command [ip, link, add, name, ia, netns, na, type, veth, peer, name', ib, netns', nb] h =
     host_add [(na, ia), (nb, ib)] h"
| "host_command argv h = (succeed [], h)"

definition host_run :: "host runner" where
  "host_run argv h =
     (case host_command argv h of (c, h') \<Rightarrow> (Inr c, h'\<lparr>h_time := h_time h + 1 / 100\<rparr>))"

definition host_clock :: "host clock" where
  "host_clock = \<lparr>clk_monotonic = (\<lambda>h. (h_time h, h)), clk_sleep = (\<lambda>d h. h\<lparr>h_time := h_time h + d\<rparr>)\<rparr>"

definition host_status :: DatapathProcessStatus where
  "host_status = (default_status True ''/run/pktlab/dpdkd.sock'')\<lparr>ps_pid := Some 1, ps_running := True\<rparr>"

text \<open>The simulated datapath creates the TAP interfaces of its ports when it starts.\<close>

definition host_start :: "ValidatedTopologyConfig \<Rightarrow> (host, DatapathProcessStatus) prog" where
  "host_start v =
     step (\<lambda>h. (Inr host_status, h\<lparr>h_links := map (\<lambda>p. (dpdk_namespace_of v, dp_name p))
        (tc_dpdk_ports (vt_topology v)) @ h_links h\<rparr>))"

definition host_manager :: "host manager" where
  "host_manager =
     \<lparr>tm_run = host_run, tm_clock = host_clock,
      tm_load_topology = (\<lambda>path. if path = ''linear.yaml'' then ret linear_lab
        else raise (Pktlab (mk_ConfigParseError ''unable to read topology config'' None))),
      tm_validate_topology = validate_topology_config,
      tm_start_datapath = Some host_start, tm_stop_datapath = Some (ret ()),
      tm_tap_timeout_seconds = 5, tm_tap_poll_interval_seconds = 1 / 20\<rparr>"

lemmas host_defs = host_run_def host_netns_def host_dev_def host_add_def succeed_def fail_def
  ip_argv_def veth_argv_def

lemma host_names_set: "set (host_names h) = {n \<in> set (h_namespaces h). netns_name n}"
  by (auto simp: host_names_def)

lemma host_command_failed:
  assumes "host_command argv h = (c, h')" and "cpr_returncode c \<noteq> 0"
  shows "h' = h"
  using assms
  by (cases "(argv, h)" rule: host_command.cases) (auto simp: host_defs split: if_splits)

lemma host_names_time [simp]: "host_names (h\<lparr>h_time := t\<rparr>) = host_names h"
  by (simp add: host_names_def)

lemma host_names_links [simp]: "host_names (h\<lparr>h_links := ls\<rparr>) = host_names h"
  by (simp add: host_names_def)

interpretation sim: ip_host host_run "\<lambda>h. set (host_names h)" "\<lambda>h. set (h_links h)"
proof (unfold_locales, goal_cases)
  case (1 argv s e s')
  then show ?case by (simp add: host_run_def split: prod.splits)
next
  case (2 argv s c s')
  then show ?case by (auto simp: host_run_def split: prod.splits dest: host_command_failed)
next
  case (3 s c s')
  let ?out = "netns_listing (map (\<lambda>n. (n, [])) (host_names s))"
  have "set (namespaces_of_output ?out) = set (host_names s)"
    by (subst namespaces_of_listing) (auto simp: host_names_def list_all_iff netns_line_ok_def)
  moreover from 3 have "c = succeed ?out" "s' = s\<lparr>h_time := h_time s + 1 / 100\<rparr>"
    by (simp_all add: host_run_def ip_argv_def)
  ultimately show ?case by (simp add: succeed_def)
next
  case (4 n s c s')
  then show ?case by (auto simp: host_defs host_names_def split: if_splits)
next
  case (5 n s c s')
  then show ?case by (auto simp: host_defs host_names_def split: if_splits)
next
  case (6 ns i s c s')
  then show ?case by (auto simp: host_defs host_names_def split: if_splits)
next
  case (7 a b s c s')
  then show ?case by (auto simp: host_defs host_names_def split: if_splits)
next
  case (8 ns i s c s')
  then show ?case by (auto simp: host_defs host_names_def split: if_splits)
next
  case (9 ns i s c s')
  then show ?case by (auto simp: host_defs host_names_def split: if_splits)
next
  case (10 arguments cidr i dst via bridge ns s c s')
  then show ?case by (auto simp: host_defs host_names_def split: if_splits)
qed

interpretation sim_clock: lab_host host_run "\<lambda>h. set (host_names h)" "\<lambda>h. set (h_links h)"
  host_clock h_time
  by unfold_locales (auto simp: host_clock_def host_run_def split: prod.splits)

interpretation host: managed_lab host_run "\<lambda>h. set (host_names h)" "\<lambda>h. set (h_links h)"
  host_clock h_time "\<lambda>_. {}" host_manager
  by unfold_locales (auto simp: host_manager_def host_start_def exec_simps sim.same_def)

section \<open>Properties\<close>

definition current_namespaces :: "current \<Rightarrow> string set" where
  "current_namespaces current =
     (case current of None \<Rightarrow> {} | Some a \<Rightarrow> config_namespaces (vt_topology (at_validated a)))"

lemma managed_lab_ip_host: "managed_lab run nss links clk time own mgr \<Longrightarrow> ip_host run nss links"
  by (simp add: managed_lab_def lab_host_def)

lemma validated_view_of:
  assumes "validate_topology_config config = Inr v"
  shows "topology_ok config" and "vt_topology v = config"
    and "dc_namespace (vt_requested_dpdk_config v) = config_dpdk_namespace config"
  using assms by (auto simp: validate_topology_iff validated_view_def config_dpdk_namespace_def)

text \<open>The interfaces the manager creates itself: the ends of the links and the two bridges.\<close>

definition kernel_interfaces :: "TopologyConfigModel \<Rightarrow> (string \<times> string) set" where
  "kernel_interfaces config =
     config_ends config \<union> {(config_dpdk_namespace config, ''br-in''), (config_dpdk_namespace config, ''br-out'')}"

lemma validated_kernel_interfaces:
  assumes "validate_topology_config config = Inr v"
  shows "lab_ends v \<union> lab_bridges v = kernel_interfaces config"
proof -
  note v = validated_view_of [OF assms]
  from validated_ends [OF v(1)] v(2,3) show ?thesis
    by (simp add: kernel_interfaces_def dpdk_namespace_of_def INGRESS_BRIDGE_NAME_def EGRESS_BRIDGE_NAME_def)
qed

lemma apply_lab_outcome:
  assumes "managed_lab run nss links clk time own mgr"
    and "tm_validate_topology mgr = validate_topology_config"
    and "\<And>s loaded s'. tm_load_topology mgr path s = Some (Inr loaded, s') \<Longrightarrow> loaded = config"
    and "validate_topology_config config = Inr validated"
    and "own s \<inter> kernel_interfaces config = {}"
  shows "outcome (manager_apply mgr path)
    (\<lambda>_ (current', s').
       current' = Some \<lparr>at_config_path = path, at_validated = validated\<rparr> \<and>
       nss s' = (nss s - current_namespaces current) \<union> config_namespaces config \<and>
       config_interfaces config \<subseteq> links s' \<and>
       (config_dpdk_namespace config, ''br-in'') \<in> links s' \<and>
       (config_dpdk_namespace config, ''br-out'') \<in> links s')
    (\<lambda>e (current', s').
       current' \<in> {current, None} \<and>
       nss s - current_namespaces current - config_namespaces config \<subseteq> nss s' \<and>
       nss s' \<subseteq> nss s \<union> config_namespaces config \<and>
       ((\<exists>err. e = Pktlab err \<and> map_of (err_context err) ''cleanup_error'' = None) \<longrightarrow> nss s' \<subseteq> nss s))
    (current, s)"
proof -
  note v = validated_view_of [OF assms(4)]
  have old: "managed_lab.old_namespaces c = current_namespaces c" for c
    by (simp add: managed_lab.old_namespaces_def [OF assms(1)] current_namespaces_def
        config_namespaces_def split: option.split)
  have sep: "managed_lab.separate own validated s"
    using assms(5) validated_kernel_interfaces [OF assms(4)]
    by (simp add: managed_lab.separate_def [OF assms(1)])
  have known: "loaded = config \<and> v' = validated"
    if "tm_load_topology mgr path s = Some (Inr loaded, s0)" "tm_validate_topology mgr loaded = Inr v'"
    for loaded v' s0
    using that assms(3) [OF that(1)] assms(2,4) by simp
  show ?thesis
  proof (rule outcome_mono [OF managed_lab.apply_outcome [OF assms(1), where path = path
        and c = current and s = s]], goal_cases)
    case (1 r cs')
    then show ?case
      using validated_interfaces [OF v, of "links (snd cs')"] sep
      by (auto simp: managed_lab.apply_done_def [OF assms(1)] old v config_namespaces_def
          dpdk_namespace_of_def INGRESS_BRIDGE_NAME_def EGRESS_BRIDGE_NAME_def dest!: known)
  next
    case (2 e cs')
    then show ?case
      by (auto simp: managed_lab.apply_failed_def [OF assms(1)] managed_lab.clean_failure_def [OF assms(1)]
          old v(2) config_namespaces_def ip_host.same_def [OF managed_lab_ip_host [OF assms(1)]] dest!: known)
  qed
qed





text \<open>The phases of a destroy whose first phase fails, on a host without interfaces.\<close>

theorem destroy_runs_every_phase_witness:
  "let stop_error = mk_PktlabError PROCESS_ERROR ''stuck'' None;
       v = (validated_view linear_lab (default_profile 2))
             \<lparr>vt_topology := linear_lab\<lparr>tc_links := [], tc_namespaces := []\<rparr>\<rparr>
   in destroy_locked (host_manager\<lparr>tm_stop_datapath := Some (raise (Pktlab stop_error))\<rparr>) v
        \<lparr>h_time = 0, h_namespaces = [], h_links = []\<rparr> =
      Some (Inl (Pktlab (destroy_error v [stop_error])),
            \<lparr>h_time = 1 / 50, h_namespaces = [], h_links = []\<rparr>)"
proof -
  let ?e = "mk_PktlabError PROCESS_ERROR ''stuck'' None"
    and ?v = "(validated_view linear_lab (default_profile 2))
             \<lparr>vt_topology := linear_lab\<lparr>tc_links := [], tc_namespaces := []\<rparr>\<rparr>"
    and ?h0 = "\<lparr>h_time = 0, h_namespaces = [], h_links = []\<rparr>"
    and ?h2 = "\<lparr>h_time = 1 / 50, h_namespaces = [], h_links = []\<rparr>"
  let ?mgr = "host_manager\<lparr>tm_stop_datapath := Some (raise (Pktlab ?e))\<rparr>"
  have 1: "stop_datapath_locked ?mgr ?h0 = Some (Inl (Pktlab ?e), ?h0)"
    by (simp add: stop_datapath_locked_def raise_def)
  have 2: "destroy_links_and_bridges (tm_run ?mgr) ?v ?h0 = Some (Inr (), ?h2)"
    by (simp add: destroy_links_and_bridges_def then_do_def bind_def delete_link_def link_exists_def
        run_ip_def executor_run_def step_def ret_def host_manager_def host_defs Let_def)
  have 3: "destroy_namespaces (tm_run ?mgr) ?v ?h2 = Some (Inr (), ?h2)"
    by (simp add: destroy_namespaces_def ret_def)
  show ?thesis using destroy_runs_every_phase [OF 1 _ 2 _ 3] by (simp add: Let_def)
qed

end
