(* ===== verification/Controller_Host.thy ===== *)
theory Controller_Host
  imports Controller_Run Lab_Lifecycle
begin

text \<open>
  The controller on a host: commands obey the laws of \<open>lab_host\<close>, the clock moves on, and the
  datapath process leaves namespaces alone and touches only interfaces of its own. Then every
  operation returns, and applying a topology through the controller builds the lab and records it.
\<close>

section \<open>The host beside the runtime\<close>

lemma outcome_safely_conj:
  "outcome m Q E s \<Longrightarrow> safely m Q' E' s \<Longrightarrow>
     outcome m (\<lambda>x s. Q x s \<and> Q' x s) (\<lambda>e s. E e s \<and> E' e s) s"
  by (auto simp: safely_def outcome_conj) (simp add: outcome_def)

lemma outcome_modify [exec_simps]: "outcome (modify f) Q E (rt, w) \<longleftrightarrow> Q () (f rt, w)"
  by (simp add: modify_def exec_simps)

lemma pair_run_iff: "pair_run run argv cw = (r, cw') \<longleftrightarrow> run argv (snd cw) = (r, snd cw') \<and> fst cw' = fst cw"
  by (cases cw'; auto simp: pair_run_def split: prod.splits)

lemma pair_ip_host:
  assumes "ip_host run nss links"
  shows "ip_host (pair_run run) (\<lambda>cw. nss (snd cw)) (\<lambda>cw. links (snd cw))"
  by (unfold_locales; unfold pair_run_iff; (elim conjE)?;
      (rule ip_host.launch_failure [OF assms] ip_host.exit_failure [OF assms] ip_host.netns_list [OF assms]
         ip_host.netns_add [OF assms] ip_host.netns_del [OF assms] ip_host.link_show [OF assms]
         ip_host.veth_add [OF assms] ip_host.bridge_add [OF assms] ip_host.link_del [OF assms]
         ip_host.configure [OF assms]; assumption))

lemma pair_lab_host:
  assumes "lab_host run nss links clk time"
  shows "lab_host (pair_run run) (\<lambda>cw. nss (snd cw)) (\<lambda>cw. links (snd cw)) (pair_clock clk)
    (\<lambda>cw. time (snd cw))"
proof -
  have ip: "ip_host run nss links" and clock: "steady_clock clk time"
    using assms by (simp_all add: lab_host_def)
  have "steady_clock (pair_clock clk) (\<lambda>cw. time (snd cw))"
    using steady_clock.reads_time [OF clock] steady_clock.read_keeps [OF clock]
      steady_clock.sleep_advances [OF clock]
    by unfold_locales (auto simp: pair_clock_def)
  with pair_ip_host [OF ip] lab_host.run_takes_time [OF assms] lab_host.read_frame [OF assms]
    lab_host.sleep_frame [OF assms]
  show ?thesis
    by (auto simp: lab_host_def lab_host_axioms_def pair_run_def pair_clock_def case_prod_beta)
qed

lemma safely_outcome:
  "outcome m (\<lambda>_ _. True) (\<lambda>_ _. True) s \<Longrightarrow> safely m Q E s \<Longrightarrow> outcome m Q E s"
  by (auto simp: safely_def outcome_def split: option.splits)

text \<open>The topology as the desired and the observed state show it.\<close>

definition recorded :: "string \<Rightarrow> ValidatedTopologyConfig \<Rightarrow> ControllerRuntime \<Rightarrow> bool" where
  "recorded path v rt \<longleftrightarrow>
     topology_config_path (rt_desired_state rt) = Some path \<and>
     topology_name (rt_desired_state rt) = Some (lab_name (tc_lab (vt_topology v))) \<and>
     requested_dpdk_config (rt_desired_state rt) = Some (vt_requested_dpdk_config v) \<and>
     desired_datapath_running (rt_desired_state rt) \<and>
     effective_dpdk_config (rt_observed_state rt) = Some (vt_effective_dpdk_config v) \<and>
     topology_applied (rt_observed_state rt) \<and> rt_override_message rt = None"

lemma recompute_override: "rt_override_message (recompute_controller_health cfg st rt) = rt_override_message rt"
  by (simp add: recompute_controller_health_def set_health_def split: option.split)

text \<open>
  What is relied on of the processes: starting one or talking to it leaves namespaces alone and removes
  no interface, asking for its exit code and reading its output changes neither; ending one removes
  interfaces of its own only. \<open>own\<close> are
  the interfaces that belong to the datapath process at the moment.
\<close>

locale controller_host = controller_world env cfg
    + lab_host "ce_run env" nss links "pe_clock (ce_process env)" time
    + supervised "ce_process env" time
  for env :: "'w controller_env" and cfg nss links time +
  fixes own :: "'w \<Rightarrow> (string \<times> string) set"
  assumes run_own: "own (snd (ce_run env argv w)) \<subseteq> own w"
    and read_own: "own (snd (clk_monotonic (pe_clock (ce_process env)) w)) \<subseteq> own w"
    and sleep_own: "own (clk_sleep (pe_clock (ce_process env)) d w) \<subseteq> own w"
    and load_frame: "outcome (ce_load_topology env path) (\<lambda>_ w'. same w w' \<and> own w' \<subseteq> own w)
      (\<lambda>_ w'. same w w' \<and> own w' \<subseteq> own w) w"
    and popen_frame: "nss (snd (pe_popen (ce_process env) argv w)) = nss w"
      "links w \<subseteq> links (snd (pe_popen (ce_process env) argv w))"
    and poll_frame: "w' \<in> {snd (pe_poll (ce_process env) pid w), snd (pe_stderr (ce_process env) pid w)} \<Longrightarrow>
      nss w' = nss w \<and> links w' = links w \<and> own w' \<subseteq> own w"
    and exchange_frame: "nss (snd (pe_exchange (ce_process env) w)) = nss w"
      "links w \<subseteq> links (snd (pe_exchange (ce_process env) w))"
    and end_frame: "w' \<in> {pe_terminate (ce_process env) pid w, pe_kill (ce_process env) pid w,
        snd (pe_wait (ce_process env) pid t w)} \<Longrightarrow>
      nss w' = nss w \<and> links w' \<subseteq> links w \<and> links w - own w \<subseteq> links w' \<and> own w' \<subseteq> own w"
begin

abbreviation penv :: "'w process_env" where "penv \<equiv> ce_process env"

text \<open>What ending a process may change since \<open>w\<close>.\<close>

definition quiet :: "'w \<Rightarrow> 'w \<Rightarrow> bool" where
  "quiet w w' \<longleftrightarrow> nss w' = nss w \<and> links w' \<subseteq> links w \<and> links w - own w \<subseteq> links w' \<and> own w' \<subseteq> own w"

lemma quiet_refl: "quiet w w"
  by (auto simp: quiet_def)

lemma quiet_end:
  assumes "quiet w w1"
  shows "quiet w (pe_terminate penv pid w1)" "quiet w (pe_kill penv pid w1)"
    "quiet w (snd (pe_wait penv pid t w1))" "quiet w (snd (pe_stderr penv pid w1))"
    "quiet w (snd (pe_poll penv pid w1))"
proof -
  have "quiet w w2" if "w2 \<in> {pe_terminate penv pid w1, pe_kill penv pid w1, snd (pe_wait penv pid t w1)}" for w2
    using end_frame [OF that] assms by (auto simp: quiet_def)
  then show "quiet w (pe_terminate penv pid w1)" "quiet w (pe_kill penv pid w1)"
    "quiet w (snd (pe_wait penv pid t w1))" by simp_all
  have "quiet w w2" if "w2 \<in> {snd (pe_poll penv pid w1), snd (pe_stderr penv pid w1)}" for w2
    using poll_frame [OF that] assms by (auto simp: quiet_def)
  then show "quiet w (snd (pe_stderr penv pid w1))" "quiet w (snd (pe_poll penv pid w1))" by simp_all
qed

lemma keeps_world:
  "keeps (\<lambda>cw. W (snd cw)) get_fst" "keeps (\<lambda>cw. W (snd cw)) (put_fst c)"
  "(\<And>w. W w \<Longrightarrow> W (snd (f w))) \<Longrightarrow> keeps (\<lambda>cw. W (snd cw)) (on_snd (step f))"
  by (auto simp: keeps_def exec_simps split: prod.splits sum.splits) (metis snd_conv)+

lemma stop_quiet: "keeps (\<lambda>cw. quiet w (snd cw)) (stop_locked penv sc clear)"
  unfolding stop_locked_def terminate_process_def wait_for_exit_def consume_stderr_def poll_def signal_def
    update_def Let_def
  by (intro keeps_intros keeps_world) (auto simp: quiet_end case_prod_beta split: exn.split
      intro!: keeps_intros keeps_world)

text \<open>Starting: as long as it succeeds nothing of \<open>K\<close> is lost; namespaces stay in any case.\<close>

definition growing :: "'w \<Rightarrow> (string \<times> string) set \<Rightarrow> 'w \<Rightarrow> bool" where
  "growing w K w' \<longleftrightarrow> nss w' = nss w \<and> K \<subseteq> links w'"

lemma growing_step:
  assumes "growing w K w1"
  shows "growing w K (snd (pe_popen penv argv w1))" "growing w K (snd (pe_poll penv pid w1))"
    "growing w K (snd (pe_stderr penv pid w1))" "growing w K (snd (pe_exchange penv w1))"
    "growing w K (snd (clk_monotonic (pe_clock penv) w1))" "growing w K (clk_sleep (pe_clock penv) d w1)"
  using assms popen_frame [where argv = argv and w = w1] exchange_frame [where w = w1]
    read_frame [where s = w1] sleep_frame [where s = w1 and d = d]
    poll_frame [OF insertI1, where pid = pid and w = w1]
    poll_frame [OF insertI2 [OF singletonI], where pid = pid and w = w1]
  by (auto simp: growing_def)

lemma growing_pair_clock:
  assumes "growing w K (snd cw)"
  shows "growing w K (snd (snd (clk_monotonic (pair_clock (pe_clock penv)) cw)))"
    "growing w K (snd (clk_sleep (pair_clock (pe_clock penv)) d cw))"
  using growing_step [OF assms] by (cases cw; simp add: pair_clock_def)+

lemma keeps_ready: "keeps (\<lambda>cw. growing w K (snd cw)) (wait_for_ready penv sc)"
proof -
  have "keeps (\<lambda>cw. growing w K (snd cw)) (ready_round penv sc)"
    unfolding ready_round_def poll_def consume_stderr_def refresh_ipc_state_def require_client_def ipc_call_def
      accept_or_raise_def update_def Let_def
    by (intro keeps_intros keeps_world) (simp_all add: case_prod_beta growing_step)
  then show ?thesis
    unfolding wait_for_ready_def read_clock_def
    by (intro keeps_intros keeps_poll_loop) (simp_all add: case_prod_beta growing_pair_clock)
qed

lemma stop_growing: "growing w K w1 \<Longrightarrow> safely (stop_locked penv sc clear)
    (\<lambda>_ cw. growing w {} (snd cw)) (\<lambda>_ cw. growing w {} (snd cw)) (sv, w1)"
  using keepsD [OF stop_quiet [of w1 sc clear], of "(sv, w1)"] quiet_refl [of w1]
  by (simp, elim safely_mono) (auto simp: growing_def quiet_def)

lemma start_growing:
  assumes "growing w K w1"
  shows "safely (supervisor_start penv sc) (\<lambda>_ cw. growing w K (snd cw)) (\<lambda>_ cw. growing w {} (snd cw)) (sv, w1)"
proof -
  have weak: "growing w K w2 \<Longrightarrow> growing w {} w2" for w2 by (simp add: growing_def)
  have ready: "safely (wait_for_ready penv sc) Q E (sv2, w2)"
    if "growing w K w2" "\<And>x sv3 w3. growing w K w3 \<Longrightarrow> Q x (sv3, w3)"
      "\<And>e sv3 w3. growing w K w3 \<Longrightarrow> E e (sv3, w3)" for sv2 w2 Q E
    by (rule safely_mono [OF keepsD [OF keeps_ready]]) (use that in auto)
  have launch: "safely (launch penv sc) (\<lambda>_ cw. growing w K (snd cw)) (\<lambda>_ cw. growing w {} (snd cw)) (sv2, w2)"
    if "growing w K w2" for sv2 w2
    using growing_step(1) [OF that, of "launch_command sc"]
    by (auto simp: launch_def exec_simps weak split: prod.splits sum.splits
        intro!: ready)
      (auto simp: exec_simps intro!: safely_mono [OF stop_growing])
  show ?thesis
    unfolding supervisor_start_def
    by (auto simp: exec_simps poll_def case_prod_beta split: option.splits
        intro!: launch ready growing_step assms weak)
qed

section \<open>The manager of the controller builds labs\<close>

lemma on_supervisor_keeps_world:
  "safely (call (su_config su)) (\<lambda>_ cw. P (snd cw)) (\<lambda>_ cw. R (snd cw)) (su_state su, w1) \<Longrightarrow>
     safely (on_supervisor call su) (\<lambda>_ rw. P (snd rw)) (\<lambda>_ rw. R (snd rw)) (rt, w1)"
  unfolding safely_on_supervisor by (erule safely_mono) auto

lemma stop_supervisor_quiet:
  "safely (stop_supervisor env) (\<lambda>_ rw. quiet w (snd rw)) (\<lambda>_ rw. quiet w (snd rw)) (rt, w)"
proof (cases "rt_supervisor rt")
  case None
  then show ?thesis by (simp add: stop_supervisor_def exec_simps quiet_refl)
next
  case (Some su)
  have "safely (supervisor_stop penv (su_config su)) (\<lambda>_ cw. quiet w (snd cw)) (\<lambda>_ cw. quiet w (snd cw)) (su_state su, w)"
    unfolding supervisor_stop_def by (rule keepsD [OF stop_quiet]) (simp add: quiet_refl)
  from on_supervisor_keeps_world [where call = "supervisor_stop penv" and su = su and P = "quiet w" and R = "quiet w", OF this, of rt] show ?thesis
    by (simp add: stop_supervisor_def Some safely_bind safely_get_fst)
qed

lemma quiet_growing: "quiet w w1 \<Longrightarrow> growing w (links w - own w) w1" "quiet w w1 \<Longrightarrow> growing w {} w1"
  by (auto simp: quiet_def growing_def)

lemma start_topology_datapath_outcome:
  "outcome (start_topology_datapath env cfg v) (\<lambda>_ rw. growing w (links w - own w) (snd rw))
     (\<lambda>_ rw. growing w {} (snd rw)) (rt, w)"
proof (cases "cc_supervise_datapath cfg")
  case False
  then show ?thesis by (simp add: start_topology_datapath_def exec_simps growing_def)
next
  case True
  have start: "outcome (on_supervisor (supervisor_start penv) su)
      (\<lambda>_ rw. growing w (links w - own w) (snd rw)) (\<lambda>_ rw. growing w {} (snd rw)) (rt1, w1)"
    if "build_supervisor_config cfg ns args = Inr config" "su = \<lparr>su_config = config, su_state = initial_supervisor\<rparr>"
      "quiet w w1" for ns args config su rt1 w1
  proof (rule safely_outcome)
    have "SupervisorConfig_post_init config = Inr config" using build_supervisor_config_ok [OF that(1)] by simp
    from start_outcome [OF this, of initial_supervisor w1]
    show "outcome (on_supervisor (supervisor_start penv) su) (\<lambda>_ _. True) (\<lambda>_ _. True) (rt1, w1)"
      by (auto simp: that(2) supervisor_inv_def initial_supervisor_def outcome_def on_supervisor_def
          split: option.splits sum.splits)
    show "safely (on_supervisor (supervisor_start penv) su)
      (\<lambda>_ rw. growing w (links w - own w) (snd rw)) (\<lambda>_ rw. growing w {} (snd rw)) (rt1, w1)"
      by (rule on_supervisor_keeps_world [OF start_growing [OF quiet_growing(1) [OF that(3)]]])
  qed
  have "outcome (stop_supervisor env) (\<lambda>_ rw. quiet w (snd rw)) (\<lambda>_ rw. quiet w (snd rw)) (rt, w)"
    by (rule safely_always [OF always_stop_supervisor stop_supervisor_quiet])
  then show ?thesis
    unfolding start_topology_datapath_def
    by (simp add: True outcome_then [where m = "stop_supervisor env"], elim outcome_mono)
      (auto simp: outcome_bind outcome_then outcome_lift_sum Let_def modify_def outcome_get_fst outcome_put_fst
        quiet_growing split: sum.splits intro!: start)
qed

sublocale lab: managed_lab "pair_run (ce_run env)" "\<lambda>rw. nss (snd rw)" "\<lambda>rw. links (snd rw)"
  "pair_clock (pe_clock (ce_process env))" "\<lambda>rw :: ControllerRuntime \<times> 'w. time (snd rw)"
  "\<lambda>rw. own (snd rw)" "controller_manager env cfg"
proof (intro managed_lab.intro pair_lab_host lab_host_axioms managed_lab_axioms.intro, goal_cases)
  case (8 path rw)
  show ?case
    using load_frame [of path "snd rw"]
    by (cases rw) (simp add: controller_manager_def outcome_on_snd same_def
        ip_host.same_def [OF pair_ip_host [OF ip_host_axioms]])
next
  case (9 start v rw)
  then have "start = start_topology_datapath env cfg" by (simp add: controller_manager_def)
  with start_topology_datapath_outcome [of v "snd rw" "fst rw"] show ?case
    by (simp add: growing_def)
next
  case (10 stop rw)
  then have "stop = stop_supervisor env" by (simp add: controller_manager_def stop_topology_datapath_def)
  moreover have "outcome (stop_supervisor env) (\<lambda>_ rw'. quiet (snd rw) (snd rw')) (\<lambda>_ rw'. quiet (snd rw) (snd rw')) rw"
    using safely_always [OF always_stop_supervisor stop_supervisor_quiet [of "snd rw" "fst rw"]] by simp
  ultimately show ?case by (simp, elim outcome_mono) (simp_all add: quiet_def)
qed (auto simp: controller_manager_def pair_run_def pair_clock_def case_prod_beta
    dest: subsetD [OF run_own] subsetD [OF read_own] subsetD [OF sleep_own])

section \<open>Every operation returns\<close>

lemma returns_bind:
  assumes "m s \<noteq> None" and "\<And>x. always (k x)"
  shows "bind m k s \<noteq> None"
  using assms by (auto simp: bind_def always_def split: option.splits sum.splits)

lemma run_get_fst: "bind get_fst k (c, s) = k c (c, s)"
  by (simp add: bind_def get_fst_def)

lemma run_modify: "then_do (modify f) k (rt, w) = k (f rt, w)"
  by (simp add: then_do_def modify_def bind_def get_fst_def put_fst_def)

lemma runtime_start_returns:
  assumes "wired cfg rt"
  shows "runtime_start env cfg (rt, w) \<noteq> None"
proof -
  have launched: "on_supervisor (supervisor_start penv) su rw \<noteq> None"
    if "rt_supervisor rt = Some su" for su and rw :: "ControllerRuntime \<times> 'w"
  proof -
    from that assms have su: "SupervisorConfig_post_init (su_config su) = Inr (su_config su)"
      "supervisor_inv (su_state su)" by (auto simp: wired_def supervisor_ok_def supervisor_good_def)
    from outcome_returns [OF start_outcome [OF su, of "snd rw"]] show ?thesis
      by (auto simp: on_supervisor_def)
  qed
  let ?tail = "\<lambda>status. then_do (observe_same_topology status)
      (then_do (modify (\<lambda>rt. rt\<lparr>rt_started := True\<rparr>)) (recompute cfg status))"
  have "bind (case rt_supervisor rt of
             None \<Rightarrow> ret (unmanaged_datapath_status cfg)
           | Some su \<Rightarrow> on_supervisor (supervisor_start penv) su) ?tail rw \<noteq> None"
    for rw :: "ControllerRuntime \<times> 'w"
  proof (rule returns_bind)
    show "(case rt_supervisor rt of None \<Rightarrow> ret (unmanaged_datapath_status cfg)
           | Some su \<Rightarrow> on_supervisor (supervisor_start penv) su) rw \<noteq> None"
      using launched by (cases "rt_supervisor rt") (simp_all add: ret_def)
  qed (intro always_intros)
  then show ?thesis
    by (simp add: runtime_start_def run_get_fst run_modify) (simp add: ret_def)
qed

lemma manager_apply_returns: "manager_apply (controller_manager env cfg) path s \<noteq> None"
  using outcome_returns [OF lab.apply_outcome, of path "fst s" "snd s"] by auto

lemma apply_returns: "always (apply_topology env cfg path)"
proof -
  have "always (manager_apply (controller_manager env cfg) path)"
    using manager_apply_returns by (simp add: always_def)
  then show ?thesis
    unfolding apply_topology_def by (intro always_intros always_operations)
qed

lemma perform_returns:
  assumes "wired cfg rt"
  shows "perform env cfg op (current, rt, w) \<noteq> None"
proof -
  have "always (perform env cfg op)" if "op \<noteq> Start"
    using that by (cases op) (auto intro!: always_intros always_operations apply_returns)
  moreover have "perform env cfg Start (current, rt, w) \<noteq> None"
    using runtime_start_returns [OF assms] by (simp add: controller_start_def on_snd_def)
  ultimately show ?thesis by (cases "op = Start") (simp_all add: always_def)
qed

section \<open>The lab as the controller records it\<close>

lemma status_growing: "keeps (\<lambda>rw. growing w K (snd rw)) (current_datapath_status env cfg)"
proof -
  have "keeps (\<lambda>cw. growing w K (snd cw)) (status_locked penv sc)" for sc
    unfolding status_locked_def exited_status_def poll_def consume_stderr_def refresh_ipc_state_def
      require_client_def ipc_call_def accept_or_raise_def update_def Let_def
    by (intro keeps_intros keeps_world) (simp_all add: case_prod_beta growing_step)
  then have "keeps (\<lambda>rw. growing w K (snd rw)) (on_supervisor (status_locked penv) su)" for su
    by (auto simp: keeps_def intro!: on_supervisor_keeps_world)
  then show ?thesis
    unfolding current_datapath_status_def by (intro keeps_intros keeps_world)
qed

lemma keeps_modify_world: "keeps (\<lambda>rw. W (snd rw)) (modify f)"
  unfolding modify_def by (intro keeps_intros keeps_world)

lemma keeps_observe_world: "keeps (\<lambda>rw. W (snd rw)) (observe st applied effective)"
  unfolding observe_def by (intro keeps_intros keeps_world keeps_modify_world)

lemma recorded_growing: "keeps (\<lambda>rw. growing w K (snd rw)) (apply_recorded env cfg result)"
  unfolding apply_recorded_def set_override_def recompute_def
  by (intro keeps_intros keeps_world keeps_modify_world keeps_observe_world status_growing)

lemma rejected_growing: "keeps (\<lambda>s. growing w K (snd (snd s))) (apply_rejected env cfg path)"
proof -
  have "keeps (\<lambda>rw. growing w K (snd rw)) (observe_same_topology st)" for st
    unfolding observe_same_topology_def by (intro keeps_intros keeps_world keeps_observe_world)
  then show ?thesis
    unfolding apply_rejected_def set_override_def recompute_def
    by (intro keeps_intros keeps_on_snd [of "\<lambda>rw. growing w K (snd rw)"] keeps_modify_world
        keeps_observe_world status_growing)
qed

lemma status_detached:
  "safely (current_datapath_status env cfg) (\<lambda>_ (rt', w'). detach rt' = detach rt) (\<lambda>_ _. True) (rt, w)"
  by (cases "rt_supervisor rt") (auto simp: current_datapath_status_def exec_simps safely_on_supervisor
      intro!: safelyI split: sum.splits)

lemma recorded_safely:
  assumes "result = operation_result Op_apply v path True running message"
  shows "safely (apply_recorded env cfg result) (\<lambda>_ (rt', w'). recorded path v rt') (\<lambda>_ _. True) (rt, w)"
proof -
  have "safely (bind (current_datapath_status env cfg) (\<lambda>status.
      then_do (observe status (tr_applied result) (tr_effective_dpdk_config result)) (recompute cfg status)))
      (\<lambda>_ (rt', w'). recorded path v rt') (\<lambda>_ _. True) (rt0\<lparr>rt_override_message := None, rt_desired_state := d\<rparr>, w)"
    if d: "DesiredState_post_init
             \<lparr>topology_config_path = tr_config_path result, topology_name = tr_topology_name result,
              desired_rules_version = None, requested_dpdk_config = tr_requested_dpdk_config result,
              desired_controller_state = CS_running, desired_datapath_running = tr_applied result\<rparr> = Inr d"
    for d rt0 w
    unfolding safely_bind
  proof (rule safely_mono [OF status_detached], clarify)
    fix st rt' w'
    assume "detach rt' = detach (rt0\<lparr>rt_override_message := None, rt_desired_state := d\<rparr>)"
    then show "safely (then_do (observe st (tr_applied result) (tr_effective_dpdk_config result)) (recompute cfg st))
        (\<lambda>_ (rt', w'). recorded path v rt') (\<lambda>_ _. True) (rt', w')"
      unfolding safely_then
      by (intro safely_mono [OF observe_safely])
        (use desired_post_init [OF d] assms in \<open>auto simp: detach_iff recompute_def safely_modify recorded_def
          operation_result_def recompute_override\<close>)
  qed simp
  then show ?thesis
    by (auto simp: apply_recorded_def set_override_def safely_then [where m = "modify _"] safely_modify
        safely_bind [where m = "lift_sum _"] safely_lift_sum split: sum.split)
qed

definition lab_done :: "string \<Rightarrow> TopologyConfigModel \<Rightarrow> ValidatedTopologyConfig \<Rightarrow> current \<Rightarrow> 'w \<Rightarrow>
    current \<Rightarrow> 'w \<Rightarrow> bool" where
  "lab_done path config v c w c' w' \<longleftrightarrow>
     c' = Some \<lparr>at_config_path = path, at_validated = v\<rparr> \<and>
     nss w' = (nss w - current_namespaces c) \<union> config_namespaces config \<and>
     config_interfaces config \<subseteq> links w' \<and>
     (config_dpdk_namespace config, ''br-in'') \<in> links w' \<and> (config_dpdk_namespace config, ''br-out'') \<in> links w'"

definition lab_bounds :: "TopologyConfigModel \<Rightarrow> current \<Rightarrow> 'w \<Rightarrow> 'w \<Rightarrow> bool" where
  "lab_bounds config c w w' \<longleftrightarrow>
     nss w - current_namespaces c - config_namespaces config \<subseteq> nss w' \<and>
     nss w' \<subseteq> nss w \<union> config_namespaces config"

lemma lab_done_bounds: "lab_done path config v c w c' w' \<Longrightarrow> lab_bounds config c w w'"
  by (auto simp: lab_done_def lab_bounds_def)

lemma lab_growing:
  "lab_done path config v c w c' w1 \<Longrightarrow> growing w1 (links w1) w2 \<Longrightarrow> lab_done path config v c w c' w2"
  "lab_bounds config c w w1 \<Longrightarrow> growing w1 K w2 \<Longrightarrow> lab_bounds config c w w2"
  by (auto simp: lab_done_def lab_bounds_def growing_def)

lemma manager_apply_lab:
  assumes load: "\<And>w l w'. ce_load_topology env path w = Some (Inr l, w') \<Longrightarrow> l = config"
    and valid: "validate_topology_config config = Inr v" and sep: "own w \<inter> kernel_interfaces config = {}"
    and wired: "wired cfg rt"
  shows "outcome (manager_apply (controller_manager env cfg) path)
    (\<lambda>result (c', rt', w'). lab_done path config v c w c' w' \<and> wired cfg rt' \<and>
       (\<exists>running. result = operation_result Op_apply v path True running ''topology applied''))
    (\<lambda>_ (c', rt', w'). lab_bounds config c w w' \<and> wired cfg rt') (c, rt, w)"
proof -
  have "outcome (manager_apply (controller_manager env cfg) path)
      (\<lambda>_ (c', rw'). lab_done path config v c w c' (snd rw')) (\<lambda>_ (c', rw'). lab_bounds config c w (snd rw')) (c, rt, w)"
  proof (rule outcome_mono [OF apply_lab_outcome [OF lab.managed_lab_axioms _ _ valid, where path = path
          and current = c and s = "(rt, w)"]], goal_cases)
    case 1
    then show ?case by (simp add: controller_manager_def)
  next
    case (2 rw l rw')
    then show ?case by (auto simp: controller_manager_def on_snd_def intro: load)
  qed (use sep in \<open>auto simp: lab_done_def lab_bounds_def\<close>)
  moreover have "safely (manager_apply (controller_manager env cfg) path) (kept.now_current rt path)
      (\<lambda>_. kept.left_alone rt c) (c, rt, w)"
    by (rule kept.apply_ends) (simp add: apart_def wired)
  ultimately show ?thesis
    by (rule outcome_mono [OF outcome_safely_conj])
      (auto simp: kept.now_current_def kept.left_alone_def apart_def lab_done_def)
qed

lemma apply_topology_lab:
  assumes load: "\<And>w l w'. ce_load_topology env path w = Some (Inr l, w') \<Longrightarrow> l = config"
    and valid: "validate_topology_config config = Inr v" and sep: "own w \<inter> kernel_interfaces config = {}"
    and wired: "wired cfg rt" and path: "str_strip path \<noteq> []"
  shows "outcome (apply_topology env cfg path)
    (\<lambda>_ (c', rt', w'). lab_done path config v c w c' w' \<and> recorded path v rt')
    (\<lambda>_ (c', rt', w'). lab_bounds config c w w') (c, rt, w)"
proof -
  define rt0 where "rt0 = begin_operation CS_reconciling (''applying topology from '' @ path) rt"
  have wired0: "wired cfg rt0" using wired by (simp add: rt0_def)
  let ?Q = "\<lambda>_ (c', rt', w'). lab_done path config v c w c' w' \<and> recorded path v rt'"
    and ?E = "\<lambda>_ (c', rt', w'). lab_bounds config c w w'"
  have "outcome (manager_apply (controller_manager env cfg) path)
      (\<lambda>result. outcome (then_do (on_snd (apply_recorded env cfg result)) (ret result)) ?Q ?E)
      (\<lambda>e. outcome (then_do (apply_rejected env cfg path) (raise e)) ?Q ?E) (c, rt0, w)"
  proof (rule outcome_mono [OF manager_apply_lab [OF load valid sep wired0]], goal_cases)
    case (2 result s)
    then obtain c1 rt1 w1 running where s: "s = (c1, rt1, w1)" "lab_done path config v c w c1 w1"
      "result = operation_result Op_apply v path True running ''topology applied''" by auto
    have "outcome (apply_recorded env cfg result)
        (\<lambda>_ rw. (case rw of (rt', w') \<Rightarrow> recorded path v rt') \<and> growing w1 (links w1) (snd rw))
        (\<lambda>_ rw. True \<and> growing w1 (links w1) (snd rw)) (rt1, w1)"
      by (intro safely_always always_operations safely_keeps_conj recorded_safely [OF s(3)] recorded_growing)
        (simp add: growing_def)
    then show ?case
      unfolding s outcome_then outcome_on_snd
      by (rule outcome_mono) (use s(2) in \<open>auto simp: outcome_ret intro: lab_growing lab_done_bounds\<close>)
  next
    case (3 e s)
    then obtain c1 rt1 w1 where s: "s = (c1, rt1, w1)" "lab_bounds config c w w1" by auto
    have "outcome (apply_rejected env cfg path) (\<lambda>_ s'. growing w1 {} (snd (snd s')))
        (\<lambda>_ s'. growing w1 {} (snd (snd s'))) (c1, rt1, w1)"
      by (intro safely_always always_operations keepsD [OF rejected_growing]) (simp add: growing_def)
    then show ?case
      unfolding s outcome_then
      by (rule outcome_mono) (use s(2) in \<open>auto simp: outcome_raise intro: lab_growing\<close>)
  qed
  with path show ?thesis
    by (simp add: apply_topology_def outcome_then [where m = "on_snd (modify _)"] outcome_on_snd
        outcome_modify outcome_bind outcome_attempt rt0_def)
qed

end

section \<open>A simulated host with a datapath\<close>

text \<open>
  The simulated host of \<open>Lab_Lifecycle\<close> with one process. Launched in a namespace, the process creates
  its two TAP interfaces there, named by its last arguments; they go when it ends. It answers on its
  socket at once.
\<close>

record lab_world =
  lw_host :: host
  lw_pid :: "int option"
  lw_taps :: "(string \<times> string) list"

definition launch_taps :: "string list \<Rightarrow> (string \<times> string) list" where
  "launch_taps argv =
     (case rev argv of
        egress # _ # ingress # _ \<Rightarrow>
          if take 3 argv = [''ip'', ''netns'', ''exec''] then [(argv ! 3, ingress), (argv ! 3, egress)] else []
      | _ \<Rightarrow> [])"

definition end_process :: "lab_world \<Rightarrow> lab_world" where
  "end_process w = w\<lparr>lw_host := (lw_host w)\<lparr>h_links := filter (\<lambda>l. l \<notin> set (lw_taps w)) (h_links (lw_host w))\<rparr>,
     lw_pid := None, lw_taps := []\<rparr>"

definition lab_process :: "lab_world process_env" where
  "lab_process =
     \<lparr>pe_popen = (\<lambda>argv w. (Inr 42, w\<lparr>lw_host := (lw_host w)\<lparr>h_links := launch_taps argv @ h_links (lw_host w)\<rparr>,
        lw_pid := Some 42, lw_taps := launch_taps argv\<rparr>)),
      pe_poll = (\<lambda>pid w. (if lw_pid w = Some pid then None else Some 0, w)),
      pe_terminate = (\<lambda>pid. end_process), pe_kill = (\<lambda>pid. end_process),
      pe_wait = (\<lambda>pid t w. (Inr 0, w)), pe_stderr = (\<lambda>pid w. (Inr (Some []), w)),
      pe_exchange = (\<lambda>w. ((\<lparr>peer_connect = None, peer_sendall = (\<lambda>_. None),
        peer_reply = (\<lambda>sent. [Chunk [0, 0, 0, 1, 123]])\<rparr>, ''req-1''), w)),
      pe_codec = sim_codec,
      pe_clock = \<lparr>clk_monotonic = (\<lambda>w. (h_time (lw_host w), w)),
        clk_sleep = (\<lambda>d w. w\<lparr>lw_host := clk_sleep host_clock d (lw_host w)\<rparr>)\<rparr>\<rparr>"

definition lab_env :: "lab_world controller_env" where
  "lab_env =
     \<lparr>ce_process = lab_process,
      ce_run = (\<lambda>argv w. case host_run argv (lw_host w) of (r, h) \<Rightarrow> (r, w\<lparr>lw_host := h\<rparr>)),
      ce_load_topology = (\<lambda>path. if path = ''linear.yaml'' then ret linear_lab
        else raise (Pktlab (mk_ConfigParseError ''unable to read topology config'' None)))\<rparr>"

lemma lab_run_iff:
  "ce_run lab_env argv w = (r, w') \<longleftrightarrow> host_run argv (lw_host w) = (r, lw_host w') \<and> w' = w\<lparr>lw_host := lw_host w'\<rparr>"
  by (cases w; cases w') (auto simp: lab_env_def split: prod.splits)

interpretation full: ip_host "ce_run lab_env" "\<lambda>w. set (host_names (lw_host w))" "\<lambda>w. set (h_links (lw_host w))"
  by (unfold_locales; unfold lab_run_iff; (elim conjE)?;
      (rule sim.launch_failure sim.exit_failure sim.netns_list sim.netns_add sim.netns_del sim.link_show
         sim.veth_add sim.bridge_add sim.link_del sim.configure; assumption))

interpretation full_clock: lab_host "ce_run lab_env" "\<lambda>w. set (host_names (lw_host w))"
  "\<lambda>w. set (h_links (lw_host w))" "pe_clock (ce_process lab_env)" "\<lambda>w. h_time (lw_host w)"
  by unfold_locales (auto simp: lab_env_def lab_process_def host_clock_def host_run_def split: prod.splits)

interpretation full_process: supervised "ce_process lab_env" "\<lambda>w. h_time (lw_host w)"
  by unfold_locales (auto simp: lab_env_def lab_process_def end_process_def host_clock_def)

interpretation full_world: controller_world lab_env lab_config
  by unfold_locales (simp_all add: lab_env_def lab_process_def sim_codec_sound lab_config_ok)

interpretation full_host: controller_host lab_env lab_config "\<lambda>w. set (host_names (lw_host w))"
  "\<lambda>w. set (h_links (lw_host w))" "\<lambda>w. h_time (lw_host w)" "\<lambda>w. set (lw_taps w)"
  by unfold_locales (auto simp: lab_env_def lab_process_def end_process_def exec_simps full.same_def case_prod_beta)

section \<open>Properties\<close>

lemma reachable_wired:
  assumes "controller_world env cfg" and "reachable env cfg (current, rt, w)"
  shows "wired cfg rt"
  using controller_world.reachable_inv [OF assms]
  by (simp add: controller_world.controller_inv_def [OF assms(1)] runtime_inv_def)

lemma controller_host_world: "controller_host env cfg nss links time own \<Longrightarrow> controller_world env cfg"
  by (simp add: controller_host_def)

lemma lab_config_init: "\<exists>rt. controller_init lab_config None = Inr rt"
  by (simp add: controller_init_def lab_config_def build_supervisor_config_def SupervisorConfig_post_init_def
      str_strip_def char_isspace_def)

text \<open>C4. On a host whose clock moves on and whose datapath touches only interfaces of its own, every
  operation returns, normally or by raising, in every state a controller reaches: neither the wait
  for the datapath to become ready, nor the one for it to exit, nor the one for its interfaces, nor any
  retry keeps an operation from ending.\<close>

theorem every_operation_returns:
  assumes "controller_host env cfg nss links time own" and "reachable env cfg (current, rt, w)"
  shows "\<exists>r s'. perform env cfg op (current, rt, w) = Some (r, s')"
proof -
  note world = controller_host_world [OF assms(1)]
  from controller_host.perform_returns [OF assms(1) reachable_wired [OF world assms(2)]]
  show ?thesis by auto
qed

theorem every_operation_returns_witness:
  "\<exists>rt. controller_init lab_config None = Inr rt \<and>
     (\<exists>r s'. perform lab_env lab_config Start
        (None, rt, \<lparr>lw_host = \<lparr>h_time = 0, h_namespaces = [], h_links = []\<rparr>, lw_pid = None, lw_taps = []\<rparr>) =
        Some (r, s'))"
proof -
  obtain rt where rt: "controller_init lab_config None = Inr rt" using lab_config_init by blast
  with every_operation_returns [OF full_host.controller_host_axioms reachable.created [OF rt]]
  show ?thesis by blast
qed



end
