(* ===== verification/Api_Models.thy ===== *)
theory Api_Models
  imports Controller
begin

text \<open>
  The models of the HTTP interface (\<open>ctrld/pktlab_ctrld/api/models.py\<close>): each class as a record with the
  constraints its fields declare, how a snapshot or a result of the controller becomes one, and its JSON
  form, which has one member per field, in the order of the class.
\<close>

section \<open>Models\<close>

record ControllerHealthModel =
  chm_service :: string
  chm_version :: string
  chm_state :: ControllerState
  chm_message :: string

definition mk_ControllerHealthModel :: "string \<Rightarrow> ControllerState \<Rightarrow> string \<Rightarrow> exn + ControllerHealthModel" where
  "mk_ControllerHealthModel version state message =
     (if version = [] \<or> message = [] then Inl (PydanticError ''ControllerHealthModel'')
      else Inr \<lparr>chm_service = ''pktlab-ctrld'', chm_version = version, chm_state = state, chm_message = message\<rparr>)"

record DatapathHealthModel =
  dhm_managed :: bool
  dhm_reachable :: bool
  dhm_socket_path :: string
  dhm_pid :: "int option"
  dhm_exit_code :: "int option"
  dhm_last_error :: "string option"
  dhm_service :: "string option"
  dhm_version :: "string option"
  dhm_dpdk_version :: "string option"
  dhm_state :: "DatapathState option"
  dhm_message :: "string option"
  dhm_applied_rule_version :: "int option"
  dhm_ports_ready :: bool
  dhm_paused :: bool

definition DatapathHealthModel_ok :: "DatapathHealthModel \<Rightarrow> bool" where
  "DatapathHealthModel_ok m \<longleftrightarrow>
     dhm_socket_path m \<noteq> [] \<and> (case dhm_pid m of None \<Rightarrow> True | Some pid \<Rightarrow> 1 \<le> pid) \<and>
     dhm_service m \<in> {None, Some ''pktlab-dpdkd''} \<and>
     (case dhm_applied_rule_version m of None \<Rightarrow> True | Some v \<Rightarrow> 0 \<le> v)"

definition validated :: "string \<Rightarrow> ('m \<Rightarrow> bool) \<Rightarrow> 'm \<Rightarrow> exn + 'm" where
  "validated name ok m = (if ok m then Inr m else Inl (PydanticError name))"

record DatapathPortModel =
  dpm_name :: string
  dpm_port_id :: int
  dpm_role :: PortRole
  dpm_state :: DatapathPortState

definition DatapathPortModel_ok :: "DatapathPortModel \<Rightarrow> bool" where
  "DatapathPortModel_ok p \<longleftrightarrow> dpm_name p \<noteq> [] \<and> 0 \<le> dpm_port_id p"

text \<open>The counters of the API have the fields and constraints of the daemon's counters;
  \<open>model_validate(stats.model_dump(...))\<close> checks them again.\<close>

definition api_stats :: "DatapathStatsModel \<Rightarrow> exn + DatapathStatsModel" where
  "api_stats stats = validated ''DatapathStatsModel'' DatapathStatsModel_ok stats"

definition datapath_health_model_from_status :: "DatapathProcessStatus \<Rightarrow> exn + DatapathHealthModel" where
  "datapath_health_model_from_status st =
     validated ''DatapathHealthModel'' DatapathHealthModel_ok
       \<lparr>dhm_managed = ps_managed st, dhm_reachable = ps_reachable st, dhm_socket_path = ps_socket_path st,
        dhm_pid = ps_pid st, dhm_exit_code = ps_exit_code st, dhm_last_error = ps_last_error st,
        dhm_service = map_option vp_service (ps_version st),
        dhm_version = map_option vp_version (ps_version st),
        dhm_dpdk_version = map_option vp_dpdk_version (ps_version st),
        dhm_state = map_option hs_state (ps_health st), dhm_message = map_option hs_message (ps_health st),
        dhm_applied_rule_version = map_option hs_applied_rule_version (ps_health st),
        dhm_ports_ready = (case ps_health st of None \<Rightarrow> False | Some h \<Rightarrow> hs_ports_ready h),
        dhm_paused = (case ps_health st of None \<Rightarrow> False | Some h \<Rightarrow> hs_paused h)\<rparr>"

record HealthResponseModel =
  hrm_controller :: ControllerHealthModel
  hrm_datapath :: DatapathHealthModel

record DatapathStatusResponseModel =
  srm_controller :: ControllerHealthModel
  srm_datapath :: DatapathHealthModel
  srm_ports :: "DatapathPortModel list"

record DatapathStatsResponseModel =
  trm_datapath :: DatapathHealthModel
  trm_stats :: DatapathStatsModel

record DatapathStatsResetResponseModel =
  rrm_datapath :: DatapathHealthModel
  rrm_stats :: DatapathStatsModel
  rrm_message :: string

record DatapathControlResponseModel =
  xrm_datapath :: DatapathHealthModel
  xrm_message :: string

record TopologyApplyRequestModel =
  ar_config_path :: string

record TopologyOperationResponseModel =
  orm_operation :: TopologyOperation
  orm_topology_name :: "string option"
  orm_config_path :: "string option"
  orm_applied :: bool
  orm_datapath_namespace :: "string option"
  orm_datapath_running :: bool
  orm_message :: string

section \<open>From snapshots to models\<close>

definition sum_bind :: "'e + 'a \<Rightarrow> ('a \<Rightarrow> 'e + 'b) \<Rightarrow> 'e + 'b" where
  "sum_bind r k = (case r of Inl e \<Rightarrow> Inl e | Inr x \<Rightarrow> k x)"

fun sum_map :: "('a \<Rightarrow> 'e + 'b) \<Rightarrow> 'a list \<Rightarrow> 'e + 'b list" where
  "sum_map f [] = Inr []"
| "sum_map f (x # xs) = sum_bind (f x) (\<lambda>y. sum_bind (sum_map f xs) (\<lambda>ys. Inr (y # ys)))"

definition HealthResponse_from_snapshot :: "ControllerHealthSnapshot \<Rightarrow> exn + HealthResponseModel" where
  "HealthResponse_from_snapshot snapshot =
     sum_bind (mk_ControllerHealthModel (hn_controller_version snapshot) (hn_controller_state snapshot)
       (hn_controller_message snapshot)) (\<lambda>controller.
     sum_bind (datapath_health_model_from_status (hn_datapath_status snapshot)) (\<lambda>datapath.
       Inr \<lparr>hrm_controller = controller, hrm_datapath = datapath\<rparr>))"

definition port_model :: "PortInfoModel \<Rightarrow> exn + DatapathPortModel" where
  "port_model port =
     validated ''DatapathPortModel'' DatapathPortModel_ok
       \<lparr>dpm_name = pi_name port, dpm_port_id = pi_port_id port, dpm_role = pi_role port, dpm_state = pi_state port\<rparr>"

definition DatapathStatusResponse_from_snapshot ::
  "DatapathRuntimeStatusSnapshot \<Rightarrow> exn + DatapathStatusResponseModel" where
  "DatapathStatusResponse_from_snapshot snapshot =
     sum_bind (HealthResponse_from_snapshot (ds_controller_snapshot snapshot)) (\<lambda>health.
     sum_bind (sum_map port_model (ds_ports snapshot)) (\<lambda>ports.
       Inr \<lparr>srm_controller = hrm_controller health, srm_datapath = hrm_datapath health, srm_ports = ports\<rparr>))"

definition DatapathStatsResponse_from_snapshot ::
  "DatapathRuntimeStatsSnapshot \<Rightarrow> exn + DatapathStatsResponseModel" where
  "DatapathStatsResponse_from_snapshot snapshot =
     sum_bind (datapath_health_model_from_status (dt_datapath_status snapshot)) (\<lambda>datapath.
     sum_bind (api_stats (dt_stats snapshot)) (\<lambda>stats.
       Inr \<lparr>trm_datapath = datapath, trm_stats = stats\<rparr>))"

definition DatapathStatsResetResponse_from_result ::
  "DatapathStatsResetResult \<Rightarrow> exn + DatapathStatsResetResponseModel" where
  "DatapathStatsResetResponse_from_result result =
     sum_bind (datapath_health_model_from_status (dr_datapath_status result)) (\<lambda>datapath.
     sum_bind (api_stats (dr_stats result)) (\<lambda>stats.
       validated ''DatapathStatsResetResponseModel'' (\<lambda>m. rrm_message m \<noteq> [])
         \<lparr>rrm_datapath = datapath, rrm_stats = stats, rrm_message = dr_message result\<rparr>))"

definition DatapathControlResponse_from_result ::
  "DatapathControlResult \<Rightarrow> exn + DatapathControlResponseModel" where
  "DatapathControlResponse_from_result result =
     sum_bind (datapath_health_model_from_status (dl_datapath_status result)) (\<lambda>datapath.
       validated ''DatapathControlResponseModel'' (\<lambda>m. xrm_message m \<noteq> [])
         \<lparr>xrm_datapath = datapath, xrm_message = dl_message result\<rparr>)"

definition TopologyOperationResponse_from_result ::
  "TopologyOperationResult \<Rightarrow> exn + TopologyOperationResponseModel" where
  "TopologyOperationResponse_from_result result =
     validated ''TopologyOperationResponseModel'' (\<lambda>m. orm_message m \<noteq> [])
       \<lparr>orm_operation = tr_operation result, orm_topology_name = tr_topology_name result,
        orm_config_path = tr_config_path result, orm_applied = tr_applied result,
        orm_datapath_namespace = tr_datapath_namespace result,
        orm_datapath_running = tr_datapath_running result, orm_message = tr_message result\<rparr>"

section \<open>JSON of the models\<close>

fun ControllerState_value :: "ControllerState \<Rightarrow> string" where
  "ControllerState_value CS_starting = ''starting''"
| "ControllerState_value CS_running = ''running''"
| "ControllerState_value CS_degraded = ''degraded''"
| "ControllerState_value CS_reconciling = ''reconciling''"
| "ControllerState_value CS_stopping = ''stopping''"
| "ControllerState_value CS_stopped = ''stopped''"
| "ControllerState_value CS_failed = ''failed''"

fun DatapathPortState_value :: "DatapathPortState \<Rightarrow> string" where
  "DatapathPortState_value Port_up = ''up''"
| "DatapathPortState_value Port_down = ''down''"

fun TopologyOperation_value :: "TopologyOperation \<Rightarrow> string" where
  "TopologyOperation_value Op_apply = ''apply''"
| "TopologyOperation_value Op_destroy = ''destroy''"

definition json_opt :: "('a \<Rightarrow> pyval) \<Rightarrow> 'a option \<Rightarrow> pyval" where
  "json_opt f x = (case x of None \<Rightarrow> PNone | Some y \<Rightarrow> f y)"

definition ControllerHealthModel_dump :: "ControllerHealthModel \<Rightarrow> pyval" where
  "ControllerHealthModel_dump m = PDict
     [(''service'', PStr (chm_service m)), (''version'', PStr (chm_version m)),
      (''state'', PStr (ControllerState_value (chm_state m))), (''message'', PStr (chm_message m))]"

definition DatapathHealthModel_dump :: "DatapathHealthModel \<Rightarrow> pyval" where
  "DatapathHealthModel_dump m = PDict
     [(''managed'', PBool (dhm_managed m)), (''reachable'', PBool (dhm_reachable m)),
      (''socket_path'', PStr (dhm_socket_path m)), (''pid'', json_opt PInt (dhm_pid m)),
      (''exit_code'', json_opt PInt (dhm_exit_code m)), (''last_error'', json_opt PStr (dhm_last_error m)),
      (''service'', json_opt PStr (dhm_service m)), (''version'', json_opt PStr (dhm_version m)),
      (''dpdk_version'', json_opt PStr (dhm_dpdk_version m)),
      (''state'', json_opt (\<lambda>s. PStr (DatapathState_value s)) (dhm_state m)),
      (''message'', json_opt PStr (dhm_message m)),
      (''applied_rule_version'', json_opt PInt (dhm_applied_rule_version m)),
      (''ports_ready'', PBool (dhm_ports_ready m)), (''paused'', PBool (dhm_paused m))]"

definition DatapathPortModel_dump :: "DatapathPortModel \<Rightarrow> pyval" where
  "DatapathPortModel_dump p = PDict
     [(''name'', PStr (dpm_name p)), (''port_id'', PInt (dpm_port_id p)),
      (''role'', PStr (PortRole_value (dpm_role p))), (''state'', PStr (DatapathPortState_value (dpm_state p)))]"

definition DatapathStatsModel_dump :: "DatapathStatsModel \<Rightarrow> pyval" where
  "DatapathStatsModel_dump s = PDict
     [(''rx_packets'', PInt (st_rx_packets s)), (''tx_packets'', PInt (st_tx_packets s)),
      (''drop_packets'', PInt (st_drop_packets s)), (''drop_parse_errors'', PInt (st_drop_parse_errors s)),
      (''drop_no_match'', PInt (st_drop_no_match s)), (''rx_bursts'', PInt (st_rx_bursts s)),
      (''tx_bursts'', PInt (st_tx_bursts s)), (''unsent_packets'', PInt (st_unsent_packets s)),
      (''rule_hits'', PDict (map (\<lambda>(k, n). (k, PInt n)) (st_rule_hits s)))]"

definition HealthResponseModel_dump :: "HealthResponseModel \<Rightarrow> pyval" where
  "HealthResponseModel_dump m = PDict
     [(''controller'', ControllerHealthModel_dump (hrm_controller m)),
      (''datapath'', DatapathHealthModel_dump (hrm_datapath m))]"

definition DatapathStatusResponseModel_dump :: "DatapathStatusResponseModel \<Rightarrow> pyval" where
  "DatapathStatusResponseModel_dump m = PDict
     [(''controller'', ControllerHealthModel_dump (srm_controller m)),
      (''datapath'', DatapathHealthModel_dump (srm_datapath m)),
      (''ports'', PList (map DatapathPortModel_dump (srm_ports m)))]"

definition DatapathStatsResponseModel_dump :: "DatapathStatsResponseModel \<Rightarrow> pyval" where
  "DatapathStatsResponseModel_dump m = PDict
     [(''datapath'', DatapathHealthModel_dump (trm_datapath m)), (''stats'', DatapathStatsModel_dump (trm_stats m))]"

definition DatapathStatsResetResponseModel_dump :: "DatapathStatsResetResponseModel \<Rightarrow> pyval" where
  "DatapathStatsResetResponseModel_dump m = PDict
     [(''datapath'', DatapathHealthModel_dump (rrm_datapath m)), (''stats'', DatapathStatsModel_dump (rrm_stats m)),
      (''message'', PStr (rrm_message m))]"

definition DatapathControlResponseModel_dump :: "DatapathControlResponseModel \<Rightarrow> pyval" where
  "DatapathControlResponseModel_dump m = PDict
     [(''datapath'', DatapathHealthModel_dump (xrm_datapath m)), (''message'', PStr (xrm_message m))]"

definition TopologyOperationResponseModel_dump :: "TopologyOperationResponseModel \<Rightarrow> pyval" where
  "TopologyOperationResponseModel_dump m = PDict
     [(''operation'', PStr (TopologyOperation_value (orm_operation m))),
      (''topology_name'', json_opt PStr (orm_topology_name m)),
      (''config_path'', json_opt PStr (orm_config_path m)), (''applied'', PBool (orm_applied m)),
      (''datapath_namespace'', json_opt PStr (orm_datapath_namespace m)),
      (''datapath_running'', PBool (orm_datapath_running m)), (''message'', PStr (orm_message m))]"

end
