(* ===== verification/Api.thy ===== *)
theory Api
  imports Api_Models Controller_Run
begin

text \<open>
  The HTTP interface (\<open>ctrld/pktlab_ctrld/api/app.py\<close> and the \<open>routes_*.py\<close>): the route
  handlers, the translation of errors into HTTP errors, and the lifespan of the application. What FastAPI
  makes of a handler's result is the parameter \<open>framework\<close>.
\<close>

section \<open>Errors\<close>

record HTTPException =
  he_status_code :: int
  he_detail :: pyval

definition topology_to_http_exception :: "PktlabError \<Rightarrow> HTTPException" where
  "topology_to_http_exception error =
     \<lparr>he_status_code =
        (if err_code error \<in> {TOPOLOGY_VALIDATION_ERROR, CONFIG_PARSE_ERROR} then 422
         else if err_code error = STATE_CONFLICT then 409 else 500),
      he_detail = PDict (PktlabError_to_dict error)\<rparr>"

definition datapath_to_http_exception :: "PktlabError \<Rightarrow> HTTPException" where
  "datapath_to_http_exception error =
     \<lparr>he_status_code =
        (if err_code error = STATE_CONFLICT then 409
         else if err_code error \<in> {DATAPATH_TRANSPORT_ERROR, PROCESS_ERROR, TIMEOUT} then 503 else 500),
      he_detail = PDict (PktlabError_to_dict error)\<rparr>"

section \<open>Handlers\<close>

text \<open>
  \<open>try: x = operation() except PktlabError as exc: raise to_http(exc)\<close>, then \<open>from_...(x)\<close>: the
  value is the HTTP error or the model; every other exception leaves the handler.
\<close>

definition handler ::
  "(PktlabError \<Rightarrow> HTTPException) \<Rightarrow> ('x \<Rightarrow> exn + 'm) \<Rightarrow> ('s, 'x) prog \<Rightarrow> ('s, HTTPException + 'm) prog" where
  "handler to_http from_result operation =
     bind (attempt operation) (\<lambda>r.
       case r of
         Inl (Pktlab error) \<Rightarrow> ret (Inl (to_http error))
       | Inl e \<Rightarrow> raise e
       | Inr x \<Rightarrow> bind (lift_sum (from_result x)) (\<lambda>m. ret (Inr m)))"

definition get_health_route ::
  "'w controller_env \<Rightarrow> ControllerConfig \<Rightarrow> ('w, HTTPException + HealthResponseModel) rprog" where
  "get_health_route env cfg =
     bind (on_snd (health_snapshot env cfg)) (\<lambda>snapshot.
     bind (lift_sum (HealthResponse_from_snapshot snapshot)) (\<lambda>m. ret (Inr m)))"

definition get_datapath_status_route ::
  "'w controller_env \<Rightarrow> ControllerConfig \<Rightarrow> ('w, HTTPException + DatapathStatusResponseModel) rprog" where
  "get_datapath_status_route env cfg =
     handler datapath_to_http_exception DatapathStatusResponse_from_snapshot
       (on_snd (datapath_status_snapshot env cfg))"

definition get_datapath_stats_route ::
  "'w controller_env \<Rightarrow> ControllerConfig \<Rightarrow> ('w, HTTPException + DatapathStatsResponseModel) rprog" where
  "get_datapath_stats_route env cfg =
     handler datapath_to_http_exception DatapathStatsResponse_from_snapshot
       (on_snd (datapath_stats_snapshot env cfg))"

definition reset_datapath_stats_route ::
  "'w controller_env \<Rightarrow> ControllerConfig \<Rightarrow> ('w, HTTPException + DatapathStatsResetResponseModel) rprog" where
  "reset_datapath_stats_route env cfg =
     handler datapath_to_http_exception DatapathStatsResetResponse_from_result
       (on_snd (reset_datapath_stats env cfg))"

definition pause_datapath_route ::
  "'w controller_env \<Rightarrow> ControllerConfig \<Rightarrow> ('w, HTTPException + DatapathControlResponseModel) rprog" where
  "pause_datapath_route env cfg =
     handler datapath_to_http_exception DatapathControlResponse_from_result
       (on_snd (pause_datapath_runtime env cfg))"

definition resume_datapath_route ::
  "'w controller_env \<Rightarrow> ControllerConfig \<Rightarrow> ('w, HTTPException + DatapathControlResponseModel) rprog" where
  "resume_datapath_route env cfg =
     handler datapath_to_http_exception DatapathControlResponse_from_result
       (on_snd (resume_datapath_runtime env cfg))"

definition apply_topology_route ::
  "'w controller_env \<Rightarrow> ControllerConfig \<Rightarrow> TopologyApplyRequestModel \<Rightarrow>
   ('w, HTTPException + TopologyOperationResponseModel) rprog" where
  "apply_topology_route env cfg payload =
     handler topology_to_http_exception TopologyOperationResponse_from_result
       (apply_topology env cfg (ar_config_path payload))"

definition destroy_topology_route ::
  "'w controller_env \<Rightarrow> ControllerConfig \<Rightarrow> ('w, HTTPException + TopologyOperationResponseModel) rprog" where
  "destroy_topology_route env cfg =
     handler topology_to_http_exception TopologyOperationResponse_from_result (destroy_topology env cfg)"

section \<open>The application\<close>

datatype http_body = Json pyval | Text string

record http_response =
  rs_status :: int
  rs_body :: http_body

text \<open>What FastAPI does: the response to a handler that ended, to a body that does not fit the
  request model, and to a request no route takes.\<close>

record framework =
  fw_respond :: "exn + HTTPException + pyval \<Rightarrow> http_response"
  fw_unprocessable :: "pyval option \<Rightarrow> http_response"
  fw_unrouted :: "string \<Rightarrow> string \<Rightarrow> http_response"

definition TopologyApplyRequest_validate :: "pyval option \<Rightarrow> TopologyApplyRequestModel option" where
  "TopologyApplyRequest_validate body =
     (case body of
        Some (PDict [(key, PStr path)]) \<Rightarrow>
          if key = ''config_path'' \<and> path \<noteq> [] then Some \<lparr>ar_config_path = path\<rparr> else None
      | _ \<Rightarrow> None)"

definition serve :: "framework \<Rightarrow> ('m \<Rightarrow> pyval) \<Rightarrow> ('s, HTTPException + 'm) prog \<Rightarrow> ('s, http_response) prog" where
  "serve fw dump route =
     bind (attempt route) (\<lambda>r.
       ret (fw_respond fw (map_sum id (map_sum id dump) r)))"

text \<open>The routes the application includes.\<close>

definition api_app ::
  "framework \<Rightarrow> 'w controller_env \<Rightarrow> ControllerConfig \<Rightarrow> string \<Rightarrow> string \<Rightarrow> pyval option \<Rightarrow>
   ('w, http_response) rprog" where
  "api_app fw env cfg verb path body =
     (if (verb, path) = (''GET'', ''/health'') then
        serve fw HealthResponseModel_dump (get_health_route env cfg)
      else if (verb, path) = (''GET'', ''/datapath/status'') then
        serve fw DatapathStatusResponseModel_dump (get_datapath_status_route env cfg)
      else if (verb, path) = (''GET'', ''/datapath/stats'') then
        serve fw DatapathStatsResponseModel_dump (get_datapath_stats_route env cfg)
      else if (verb, path) = (''POST'', ''/datapath/stats/reset'') then
        serve fw DatapathStatsResetResponseModel_dump (reset_datapath_stats_route env cfg)
      else if (verb, path) = (''POST'', ''/datapath/pause'') then
        serve fw DatapathControlResponseModel_dump (pause_datapath_route env cfg)
      else if (verb, path) = (''POST'', ''/datapath/resume'') then
        serve fw DatapathControlResponseModel_dump (resume_datapath_route env cfg)
      else if (verb, path) = (''POST'', ''/topology/apply'') then
        (case TopologyApplyRequest_validate body of
           None \<Rightarrow> ret (fw_unprocessable fw body)
         | Some payload \<Rightarrow>
             serve fw TopologyOperationResponseModel_dump (apply_topology_route env cfg payload))
      else if (verb, path) = (''POST'', ''/topology/destroy'') then
        serve fw TopologyOperationResponseModel_dump (destroy_topology_route env cfg)
      else ret (fw_unrouted fw verb path))"

text \<open>The lifespan: start, serve the requests, and stop however serving ended.\<close>

definition try_finally :: "('s, 'a) prog \<Rightarrow> ('s, unit) prog \<Rightarrow> ('s, 'a) prog" where
  "try_finally body cleanup =
     bind (attempt body) (\<lambda>r. then_do cleanup (lift_sum r))"

definition lifespan ::
  "'w controller_env \<Rightarrow> ControllerConfig \<Rightarrow> ('w, 'a) rprog \<Rightarrow> ('w, 'a) rprog" where
  "lifespan env cfg body = then_do (controller_start env cfg) (try_finally body (controller_stop env cfg))"

text \<open>Requests served one after another; the world may change before each.\<close>

type_synonym request = "string \<times> string \<times> pyval option"

fun serve_all ::
  "framework \<Rightarrow> 'w controller_env \<Rightarrow> ControllerConfig \<Rightarrow> (request \<times> ('w \<Rightarrow> 'w)) list \<Rightarrow>
   ('w, http_response list) rprog" where
  "serve_all fw env cfg [] = ret []"
| "serve_all fw env cfg (((verb, path, body), change) # rest) =
     then_do (on_snd (on_snd (step (\<lambda>w. (Inr (), change w)))))
    (bind (api_app fw env cfg verb path body) (\<lambda>response.
     bind (serve_all fw env cfg rest) (\<lambda>responses. ret (response # responses))))"

text \<open>A framework that answers as FastAPI documents, for concrete runs.\<close>

definition plain_framework :: framework where
  "plain_framework =
     \<lparr>fw_respond = (\<lambda>r.
        case r of
          Inl e \<Rightarrow> \<lparr>rs_status = 500, rs_body = Text ''Internal Server Error''\<rparr>
        | Inr (Inl h) \<Rightarrow> \<lparr>rs_status = he_status_code h, rs_body = Json (PDict [(''detail'', he_detail h)])\<rparr>
        | Inr (Inr v) \<Rightarrow> \<lparr>rs_status = 200, rs_body = Json v\<rparr>),
      fw_unprocessable = (\<lambda>_. \<lparr>rs_status = 422, rs_body = Json (PDict [])\<rparr>),
      fw_unrouted = (\<lambda>_ _. \<lparr>rs_status = 404, rs_body = Json (PDict [])\<rparr>)\<rparr>"

section \<open>Values a program returns\<close>

named_theorems yields_intros \<open>what every value a program returns satisfies\<close>

definition yields :: "('a \<Rightarrow> bool) \<Rightarrow> ('s, 'a) prog \<Rightarrow> bool" where
  "yields P m \<longleftrightarrow> (\<forall>s x s'. m s = Some (Inr x, s') \<longrightarrow> P x)"

lemma yieldsD: "yields P m \<Longrightarrow> m s = Some (Inr x, s') \<Longrightarrow> P x"
  unfolding yields_def by blast

lemma yields_safely: "yields P m \<Longrightarrow> safely m (\<lambda>x _. P x) (\<lambda>_ _. True) s"
  by (rule safelyI) (auto split: sum.split dest: yieldsD)

lemma yields_basic [yields_intros]: "P x \<Longrightarrow> yields P (ret x)" "yields P (raise e)"
  by (simp_all add: yields_def ret_def raise_def)

lemma yields_bind_value: "yields R m \<Longrightarrow> (\<And>x. R x \<Longrightarrow> yields P (k x)) \<Longrightarrow> yields P (bind m k)"
  by (fastforce simp: yields_def bind_def split: option.splits sum.splits)

lemma yields_bind [yields_intros]: "(\<And>x. yields P (k x)) \<Longrightarrow> yields P (bind m k)"
  by (rule yields_bind_value [where R = "\<lambda>_. True"]) (simp_all add: yields_def)

lemma yields_then [yields_intros]: "yields P k \<Longrightarrow> yields P (then_do m k)"
  unfolding then_do_def by (rule yields_bind)

lemma yields_attempt: "yields P m \<Longrightarrow> yields (\<lambda>r. \<forall>x. r = Inr x \<longrightarrow> P x) (attempt m)"
  by (auto simp: yields_def attempt_def split: option.splits)

lemma yields_on_snd [yields_intros]: "yields P m \<Longrightarrow> yields P (on_snd m)"
  by (fastforce simp: yields_def on_snd_def)

lemma yields_if [yields_intros]: "(b \<Longrightarrow> yields P m) \<Longrightarrow> (\<not> b \<Longrightarrow> yields P m') \<Longrightarrow> yields P (if b then m else m')"
  by simp

lemma yields_case_option [yields_intros]:
  "yields P m \<Longrightarrow> (\<And>x. yields P (k x)) \<Longrightarrow> yields P (case v of None \<Rightarrow> m | Some x \<Rightarrow> k x)"
  by (cases v) simp_all

lemma yields_case_sum [yields_intros]:
  "(\<And>x. yields P (f x)) \<Longrightarrow> (\<And>x. v = Inr x \<Longrightarrow> yields P (g x)) \<Longrightarrow>
     yields P (case v of Inl x \<Rightarrow> f x | Inr x \<Rightarrow> g x)"
  by (cases v) simp_all

lemma yields_lift_sum: "(\<And>x. r = Inr x \<Longrightarrow> P x) \<Longrightarrow> yields P (lift_sum r)"
  by (simp add: yields_def lift_sum_def)

lemma yields_with_supervisor [yields_intros]:
  "(\<And>c. yields P (call c)) \<Longrightarrow> yields P (with_supervisor call)"
  unfolding with_supervisor_def by (intro yields_intros) (fastforce simp: yields_def on_supervisor_def)

text \<open>An answer of the daemon with a payload that passed its model.\<close>

definition payload_ok :: "('p \<Rightarrow> bool) \<Rightarrow> 'p CommandResult \<Rightarrow> bool" where
  "payload_ok P r \<longleftrightarrow> (\<forall>x. cr_unwrap r = Inr x \<longrightarrow> P x)"

lemma yields_reachable_call:
  assumes "\<And>client peer i r x. command (pe_codec env) client peer i = Inr r \<Longrightarrow> cr_unwrap r = Inr x \<Longrightarrow> P x"
  shows "yields (payload_ok P) (reachable_call env cfg what command)"
  unfolding reachable_call_def ipc_call_def
  by (intro yields_intros) (auto simp: yields_def step_def payload_ok_def case_prod_beta intro: assms)

lemma yields_payloads:
  assumes "codec_sound (pe_codec env)"
  shows "yields (payload_ok (list_all PortInfoModel_ok)) (supervisor_get_ports env cfg)"
    and "yields (payload_ok (\<lambda>a. ack_message a \<noteq> [])) (supervisor_pause_datapath env cfg)"
    and "yields (payload_ok (\<lambda>a. ack_message a \<noteq> [])) (supervisor_resume_datapath env cfg)"
  unfolding supervisor_get_ports_def supervisor_pause_datapath_def supervisor_resume_datapath_def
    get_ports_def pause_datapath_def resume_datapath_def
  by (rule yields_reachable_call, drule (1) codec_call_payload, use assms in \<open>auto simp: codec_sound_def\<close>)+

lemma yields_status_path: "yields (\<lambda>st. ps_socket_path st = sc_socket_path cfg) (status_locked env cfg)"
proof -
  have refresh: "yields (\<lambda>st. ps_socket_path st = sc_socket_path cfg) (refresh_ipc_state env cfg pid)" for pid
    unfolding refresh_ipc_state_def by (intro yields_intros) (simp add: default_status_def)
  note attempt = yields_bind_value [OF yields_attempt [OF this]]
  show ?thesis
    unfolding status_locked_def exited_status_def
    by (intro yields_intros attempt)
      (auto simp: history_status_def default_status_def intro!: yields_intros split: sum.split option.split)
qed

section \<open>Routes and the operations behind them\<close>

text \<open>
  A route does what its operation does: the model when it returns, the HTTP error when it raises an error
  of the project, and the same exception otherwise; building the response adds no failure.
\<close>

definition faithful ::
  "(PktlabError \<Rightarrow> HTTPException) \<Rightarrow> ('s, 'x) prog \<Rightarrow> ('s, HTTPException + 'm) prog \<Rightarrow> 's \<Rightarrow> bool" where
  "faithful to_http operation route s \<longleftrightarrow>
     (case operation s of
        None \<Rightarrow> route s = None
      | Some (Inl e, s') \<Rightarrow>
          (case e of
             Pktlab error \<Rightarrow> route s = Some (Inr (Inl (to_http error)), s')
           | _ \<Rightarrow> route s = Some (Inl e, s'))
      | Some (Inr x, s') \<Rightarrow> (\<exists>m. route s = Some (Inr (Inr m), s')))"

lemma handler_faithful:
  assumes "\<And>x s'. operation s = Some (Inr x, s') \<Longrightarrow> \<exists>m. from_result x = Inr m"
  shows "faithful to_http operation (handler to_http from_result operation) s"
  using assms
  by (fastforce simp: faithful_def handler_def bind_def attempt_def ret_def raise_def lift_sum_def
      split: option.split sum.split exn.split)

lemma health_model_ok:
  assumes "status_good st" and "ps_socket_path st \<noteq> []" and "\<And>pid. ps_pid st = Some pid \<Longrightarrow> 1 \<le> pid"
  shows "\<exists>m. datapath_health_model_from_status st = Inr m"
  using assms
  by (cases "ps_version st"; cases "ps_health st"; cases "ps_pid st")
    (auto simp: datapath_health_model_from_status_def validated_def DatapathHealthModel_ok_def status_good_def
      VersionPayload_ok_def HealthStateModel_ok_def)

lemma topology_message_ok:
  "tr_message x \<noteq> [] \<Longrightarrow> \<exists>m. TopologyOperationResponse_from_result x = Inr m"
  by (simp add: TopologyOperationResponse_from_result_def validated_def)

lemma yields_manager:
  "yields (\<lambda>r. tr_message r \<noteq> []) (manager_apply mgr path)"
  "yields (\<lambda>r. tr_message r \<noteq> []) (manager_destroy mgr)"
  unfolding manager_apply_def manager_destroy_def Let_def
  by (intro yields_intros; simp add: operation_result_def nothing_applied_def)+

lemma yields_topology:
  "yields (\<lambda>r. tr_message r \<noteq> []) (apply_topology env cfg path)"
  "yields (\<lambda>r. tr_message r \<noteq> []) (destroy_topology env cfg)"
  unfolding apply_topology_def destroy_topology_def
  by (intro yields_intros yields_bind_value [OF yields_attempt [OF yields_manager(1)]]
      yields_bind_value [OF yields_attempt [OF yields_manager(2)]]; simp)+

lemma port_models_ok: "list_all PortInfoModel_ok ps \<Longrightarrow> \<exists>ms. sum_map port_model ps = Inr ms"
  by (induction ps) (auto simp: sum_bind_def port_model_def validated_def PortInfoModel_ok_def DatapathPortModel_ok_def)

lemma status_result_good:
  assumes "codec_sound (pe_codec env)" and "supervisor_good sv"
  shows "safely (status_locked env c) (\<lambda>st (sv', _). supervisor_good sv' \<and> status_good st) (\<lambda>_ _. True) (sv, s)"
proof -
  have history: "status_good (history_status c sv')" if "supervisor_good sv'" for sv'
    using that by (simp add: status_good_def supervisor_good_def history_status_def default_status_def)
  have "safely (bind (attempt (refresh_ipc_state env c pid)) (\<lambda>r.
       case r of
         Inr status \<Rightarrow> ret status
       | Inl e \<Rightarrow>
           (case transport_failure e of
              None \<Rightarrow> raise e
            | Some err \<Rightarrow>
                then_do (update (\<lambda>sv. sv\<lparr>sv_last_error := Some (err_message err)\<rparr>))
               (bind get_fst (\<lambda>sv.
                  ret ((default_status True (sc_socket_path c))
                    \<lparr>ps_pid := Some pid, ps_running := True,
                     ps_last_error := sv_last_error sv, ps_version := sv_last_version sv,
                     ps_health := sv_last_health sv\<rparr>))))))
      (\<lambda>st (sv', _). supervisor_good sv' \<and> status_good st) (\<lambda>_ _. True) (sv, s1)" for pid s1
    unfolding safely_bind safely_attempt
    by (rule safely_mono [OF refresh_good [OF assms]])
      (auto simp: exec_simps status_good_def supervisor_good_def supervisor_inv_def default_status_def
        split: option.split)
  then show ?thesis
    using assms(2)
    by (auto simp: status_locked_def exited_status_def poll_def consume_stderr_def exec_simps history case_prod_beta
        supervisor_good_fields split: option.split sum.split)
qed

context controller_world
begin

definition answerable :: "DatapathProcessStatus \<Rightarrow> bool" where
  "answerable st \<longleftrightarrow> status_good st \<and> ps_socket_path st = cc_datapath_socket_path cfg"

lemma status_answerable:
  assumes "wired cfg rt"
  shows "safely (current_datapath_status env cfg)
    (\<lambda>st (rt', w'). wired cfg rt' \<and> detach rt' = detach rt \<and> answerable st \<and>
       (ps_pid st \<noteq> None \<longrightarrow> rt_started rt \<and> rt_supervisor rt \<noteq> None)) (\<lambda>_ _. True) (rt, w)"
proof (cases "rt_supervisor rt")
  case None
  with assms show ?thesis
    by (simp add: current_datapath_status_def exec_simps answerable_def unmanaged_datapath_status_def
        default_status_def status_good_def)
next
  case (Some su)
  with assms have su: "supervisor_ok cfg su" "cc_supervise_datapath cfg" by (simp_all add: wired_def)
  then have good: "supervisor_good (su_state su)" by (simp add: supervisor_ok_def)
  have "safely (status_locked (ce_process env) (su_config su))
      (\<lambda>st (sv', w'). supervisor_good sv' \<and> answerable st) (\<lambda>_ _. True) (su_state su, w)"
    using status_result_good [OF sound good, of "su_config su" w] su(1)
      yieldsD [OF yields_status_path [of "su_config su" "ce_process env"]]
    by (fastforce simp: safely_def outcome_def answerable_def supervisor_ok_def split: option.splits sum.splits)
  then have "safely (on_supervisor (status_locked (ce_process env)) su)
      (\<lambda>st (rt', w'). wired cfg rt' \<and> detach rt' = detach rt \<and> answerable st) (\<lambda>_ _. True) (rt, w)"
    unfolding safely_on_supervisor
    by (rule safely_mono) (use su in \<open>auto simp: wired_def supervisor_ok_def\<close>)
  then show ?thesis
    using assms Some su(2) by (auto simp: current_datapath_status_def safely_bind safely_get_fst safely_ret answerable_def
        unmanaged_datapath_status_def default_status_def status_good_def elim!: safely_mono)
qed

lemma socket_path_set: "cc_datapath_socket_path cfg \<noteq> []"
  using configured by (auto simp: ControllerConfig_post_init_def str_strip_def split: if_splits)

lemma answer_model: "answerable st \<Longrightarrow> (\<And>pid. ps_pid st = Some pid \<Longrightarrow> 1 \<le> pid) \<Longrightarrow>
    \<exists>m. datapath_health_model_from_status st = Inr m"
  using socket_path_set by (intro health_model_ok) (simp_all add: answerable_def)

lemma observed_pid: "ObservedState_post_init obs = Inr obs \<Longrightarrow> dpdkd_pid obs = Some pid \<Longrightarrow> 1 \<le> pid"
  by (auto simp: ObservedState_post_init_def validate_optional_positive_def split: option.splits if_splits)

text \<open>Recording a status checks its process id, and leaves a runtime that can be shown.\<close>

lemma observe_shown:
  assumes "runtime_inv cfg t (rt, w)"
  shows "safely (then_do (observe_same_topology st) (recompute cfg st))
    (\<lambda>_ rw'. runtime_inv cfg t rw' \<and> (\<forall>pid. ps_pid st = Some pid \<longrightarrow> 1 \<le> pid)) (\<lambda>_ _. True) (rt, w)"
proof -
  have "safely (observe_same_topology st)
      (\<lambda>_ rw'. runtime_inv cfg t rw' \<and> (\<forall>pid. ps_pid st = Some pid \<longrightarrow> 1 \<le> pid)) (\<lambda>_ _. True) (rt, w)"
    unfolding observe_same_topology_def safely_bind safely_get_fst
    by (rule safely_mono [OF observe_safely])
      (use assms observed_pid in \<open>auto simp: runtime_inv_def records_ok_def override_shown_def\<close>)
  then show ?thesis
    unfolding safely_then
    by (rule safely_mono) (auto intro!: safely_mono [OF keepsD [OF keeps_recompute]])
qed

lemma health_snapshot_shown:
  assumes "runtime_inv cfg t (rt, w)"
  shows "safely (health_snapshot env cfg) (\<lambda>sn _. \<exists>m. HealthResponse_from_snapshot sn = Inr m) (\<lambda>_ _. True) (rt, w)"
proof -
  from assms have wired: "wired cfg rt" by (simp add: runtime_inv_def)
  have shown: "\<exists>m. HealthResponse_from_snapshot
      \<lparr>hn_controller_service = ''pktlab-ctrld'', hn_controller_version = controller_version,
       hn_controller_state = rt_controller_state rt', hn_controller_message = rt_controller_message rt',
       hn_desired_state = rt_desired_state rt', hn_observed_state = rt_observed_state rt',
       hn_datapath_status = st\<rparr> = Inr m"
    if "runtime_inv cfg t (rt', w')" "answerable st" "\<And>pid. ps_pid st = Some pid \<Longrightarrow> 1 \<le> pid" for rt' w' st
    using that answer_model [OF that(2,3)]
    by (auto simp: HealthResponse_from_snapshot_def sum_bind_def mk_ControllerHealthModel_def controller_version_def
        runtime_inv_def records_ok_def)
  show ?thesis
    unfolding health_snapshot_def safely_bind [where m = "current_datapath_status env cfg"]
  proof (rule safely_mono [OF status_answerable [OF wired]], goal_cases)
    case (1 st rw)
    obtain rt' w' where rw: "rw = (rt', w')" by (rule prod.exhaust)
    with 1 have st: "answerable st" "ps_pid st \<noteq> None \<Longrightarrow> rt_started rt \<and> rt_supervisor rt \<noteq> None"
      and rt': "wired cfg rt'" "detach rt' = detach rt" by auto
    then have inv: "runtime_inv cfg t (rt', w')" using assms by (auto intro: runtime_inv_cong)
    have same: "rt_started rt' = rt_started rt" "rt_supervisor rt' \<noteq> None \<longleftrightarrow> rt_supervisor rt \<noteq> None"
      using rt' wired by (auto simp: detach_iff wired_def split: option.splits)
    show ?case
      unfolding rw safely_bind safely_get_fst safely_then safely_ret
      using observe_shown [OF inv, of st] inv st same
      by (auto simp: safely_ret safely_get_fst intro!: shown elim!: safely_mono)
  qed simp
qed

lemma status_snapshot_shown:
  assumes "runtime_inv cfg t (rt, w)"
  shows "safely (datapath_status_snapshot env cfg)
    (\<lambda>sn _. \<exists>m. DatapathStatusResponse_from_snapshot sn = Inr m) (\<lambda>_ _. True) (rt, w)"
proof -
  have ports: "yields (list_all PortInfoModel_ok)
      (bind (with_supervisor (supervisor_get_ports (ce_process env))) (\<lambda>r.
        then_do (check_result r) (lift_sum (cr_unwrap r))))"
    by (intro yields_bind_value [OF yields_with_supervisor [OF yields_payloads(1) [OF sound]]] yields_then
        yields_lift_sum) (simp add: payload_ok_def)
  have "yields (\<lambda>sn. \<exists>m. DatapathStatusResponse_from_snapshot sn = Inr m)
      (bind get_fst (\<lambda>rt.
         bind (if rt_supervisor rt \<noteq> None \<and> ps_reachable (hn_datapath_status snapshot) then
             bind (with_supervisor (supervisor_get_ports (ce_process env))) (\<lambda>r.
             then_do (check_result r) (lift_sum (cr_unwrap r)))
           else ret []) (\<lambda>ports.
       ret \<lparr>ds_controller_snapshot = snapshot, ds_ports = ports\<rparr>)))"
    if m: "HealthResponse_from_snapshot snapshot = Inr m" for snapshot m
  proof (rule yields_bind, rule yields_bind_value [where R = "list_all PortInfoModel_ok"])
    show "yields (list_all PortInfoModel_ok) (if b then bind (with_supervisor (supervisor_get_ports (ce_process env)))
        (\<lambda>r. then_do (check_result r) (lift_sum (cr_unwrap r))) else ret [])" for b
      using ports by (simp add: yields_basic)
  next
    fix ps assume "list_all PortInfoModel_ok ps"
    from port_models_ok [OF this] m
    show "yields (\<lambda>sn. \<exists>m. DatapathStatusResponse_from_snapshot sn = Inr m)
        (ret \<lparr>ds_controller_snapshot = snapshot, ds_ports = ps\<rparr>)"
      by (auto simp: DatapathStatusResponse_from_snapshot_def sum_bind_def intro!: yields_basic)
  qed
  then show ?thesis
    unfolding datapath_status_snapshot_def safely_bind [where m = "health_snapshot env cfg"]
    by (intro safely_mono [OF health_snapshot_shown [OF assms]]) (auto intro!: yields_safely)
qed

lemma control_shown:
  assumes "runtime_inv cfg t (rt, w)" and "\<And>c. keeps good_memory (call c)"
    and "\<And>c. yields (payload_ok (\<lambda>a. ack_message a \<noteq> [])) (call c)"
  shows "safely (run_datapath_control_command env cfg call)
    (\<lambda>r _. \<exists>m. DatapathControlResponse_from_result r = Inr m) (\<lambda>_ _. True) (rt, w)"
proof -
  have done1: "\<exists>m. DatapathControlResponse_from_result \<lparr>dl_datapath_status = st, dl_message = ack_message a\<rparr> = Inr m"
    if "answerable st" "\<forall>pid. ps_pid st = Some pid \<longrightarrow> 1 \<le> pid" "ack_message a \<noteq> []"
    for st and a :: AckPayload
    using that answer_model [of st]
    by (auto simp: DatapathControlResponse_from_result_def sum_bind_def validated_def)
  have tail: "safely (bind (current_datapath_status env cfg) (\<lambda>st.
       then_do (observe_same_topology st) (then_do (recompute cfg st)
      (bind (lift_sum (cr_unwrap r)) (\<lambda>ack. ret \<lparr>dl_datapath_status = st, dl_message = ack_message ack\<rparr>)))))
      (\<lambda>r _. \<exists>m. DatapathControlResponse_from_result r = Inr m) (\<lambda>_ _. True) rw"
    if "runtime_inv cfg t rw" "payload_ok (\<lambda>a. ack_message a \<noteq> []) r"
    for rw and r :: "AckPayload CommandResult"
    unfolding safely_bind [where m = "current_datapath_status env cfg"]
  proof (cases rw, simp, rule safely_mono [OF status_answerable], goal_cases)
    case (2 rt w st rw')
    then have "runtime_inv cfg t rw'" using that(1) by (cases rw') (auto intro: runtime_inv_cong)
    from observe_shown [of t "fst rw'" "snd rw'" st] this 2(2) that(2) show ?case
      unfolding safely_then by (cases rw') (auto simp: safely_bind safely_lift_sum safely_ret payload_ok_def
          split: sum.split intro!: done1 elim!: safely_mono)
  qed (use that(1) in \<open>auto simp: runtime_inv_def\<close>)
  have "safely (with_supervisor call) (\<lambda>r rw. payload_ok (\<lambda>a. ack_message a \<noteq> []) r \<and> runtime_inv cfg t rw)
      (\<lambda>_ rw. True \<and> runtime_inv cfg t rw) (rt, w)"
    by (intro safely_keeps_conj yields_safely yields_with_supervisor assms keeps_with_supervisor)
  then show ?thesis
    unfolding run_datapath_control_command_def safely_bind [where m = "with_supervisor call"]
    by (rule safely_mono) (auto simp: safely_then check_result_def safely_raise safely_ret intro!: tail
        split: option.split)
qed

lemma routes_shown:
  assumes "controller_inv s"
  shows "faithful datapath_to_http_exception (on_snd (datapath_status_snapshot env cfg)) (get_datapath_status_route env cfg) s"
    and "faithful datapath_to_http_exception (on_snd (pause_datapath_runtime env cfg)) (pause_datapath_route env cfg) s"
    and "faithful datapath_to_http_exception (on_snd (resume_datapath_runtime env cfg)) (resume_datapath_route env cfg) s"
    and "get_health_route env cfg s = Some (Inl e, s') \<longleftrightarrow> on_snd (health_snapshot env cfg) s = Some (Inl e, s')"
proof -
  obtain c rt w where s: "s = (c, rt, w)" by (cases s)
  with assms have inv: "runtime_inv cfg (c \<noteq> None) (rt, w)" by (simp add: controller_inv_def)
  have on_run: "P x" if "safely m (\<lambda>x _. P x) (\<lambda>_ _. True) (rt, w)" "on_snd m s = Some (Inr x, s')"
    for m :: "(ControllerRuntime \<times> 'w, 'x) prog" and P x s'
    using that by (auto simp: s on_snd_def safely_def outcome_def)
  have commands: "keeps good_memory (supervisor_pause_datapath (ce_process env) c')"
    "keeps good_memory (supervisor_resume_datapath (ce_process env) c')" for c'
    unfolding supervisor_pause_datapath_def supervisor_resume_datapath_def
    by (intro keeps_reachable_call sound)+
  show "faithful datapath_to_http_exception (on_snd (datapath_status_snapshot env cfg)) (get_datapath_status_route env cfg) s"
    unfolding get_datapath_status_route_def by (intro handler_faithful on_run [OF status_snapshot_shown [OF inv]])
  show "faithful datapath_to_http_exception (on_snd (pause_datapath_runtime env cfg)) (pause_datapath_route env cfg) s"
    unfolding pause_datapath_route_def pause_datapath_runtime_def
    by (rule handler_faithful, rule on_run [OF control_shown [OF inv commands(1) yields_payloads(2) [OF sound]]])
  show "faithful datapath_to_http_exception (on_snd (resume_datapath_runtime env cfg)) (resume_datapath_route env cfg) s"
    unfolding resume_datapath_route_def resume_datapath_runtime_def
    by (rule handler_faithful, rule on_run [OF control_shown [OF inv commands(2) yields_payloads(3) [OF sound]]])
  show "get_health_route env cfg s = Some (Inl e, s') \<longleftrightarrow> on_snd (health_snapshot env cfg) s = Some (Inl e, s')"
  proof (cases "on_snd (health_snapshot env cfg) s")
    case (Some r)
    then show ?thesis
      by (cases "fst r"; cases r) (auto simp: get_health_route_def bind_def lift_sum_def ret_def split: sum.split
          dest!: on_run [OF health_snapshot_shown [OF inv]])
  qed (simp add: get_health_route_def bind_def)
qed

end

section \<open>Properties\<close>



end
