(* ===== verification/Service.thy ===== *)
theory Service
  imports Controller_Host Api
begin

text \<open>
  The service as a whole: the application starts its controller, answers requests and stops the
  controller when it ends. Serving never loses the controller's started state, so the stop at the end
  always finds something to do and, when it raises nothing, leaves nothing behind.
\<close>

section \<open>Serving keeps the controller started\<close>

context controller_world
begin

definition up :: "ControllerRuntime \<times> 'w \<Rightarrow> bool" where
  "up rw \<longleftrightarrow> wired cfg (fst rw) \<and> rt_started (fst rw)"

lemma up_apart: "wired cfg rt' \<Longrightarrow> detach rt' = detach rt \<Longrightarrow> up (rt, w) \<Longrightarrow> up (rt', w')"
  by (auto simp: up_def detach_iff)

lemma keeps_up_status: "keeps up (current_datapath_status env cfg)"
  unfolding keeps_def
  by (clarify, rule safely_mono [OF status_safely [OF sound]]) (auto simp: up_def detach_iff)

lemma keeps_up_stop: "keeps up (stop_supervisor env)"
  unfolding keeps_def
  by (clarify, rule safely_mono [OF stop_supervisor_ends [where cfg = cfg]]) (auto simp: up_def detach_iff)

lemma keeps_up_observe: "keeps up (observe st applied effective)"
  unfolding keeps_def by (clarify, rule safely_mono [OF observe_safely]) (auto simp: up_def)

lemma keeps_up_modify:
  "(\<And>rt. wired cfg (f rt) = wired cfg rt) \<Longrightarrow> (\<And>rt. rt_started (f rt) = rt_started rt) \<Longrightarrow> keeps up (modify f)"
  by (auto simp: keeps_def exec_simps up_def)

lemma keeps_up_with_supervisor:
  "(\<And>c. keeps good_memory (call c)) \<Longrightarrow> keeps up (with_supervisor call)"
  unfolding keeps_def [of up]
proof (clarify, goal_cases)
  case (1 rt w)
  then show ?case
    by (cases "rt_supervisor rt")
      (auto simp: with_supervisor_def exec_simps up_def detach_iff
        intro!: safely_mono [OF supervisor_kept [where cfg = cfg and rt = rt]])
qed

lemma keeps_up_parts:
  "keeps up (observe_same_topology st)" "keeps up (recompute cfg st)" "keeps up (set_override m)"
  "keeps up (check_result r)"
  unfolding observe_same_topology_def recompute_def set_override_def check_result_def
  by (intro keeps_intros keeps_up_observe keeps_up_modify; simp)+

lemma keeps_up_commands:
  "keeps up (health_snapshot env cfg)" "keeps up (datapath_status_snapshot env cfg)"
  "keeps up (datapath_stats_snapshot env cfg)" "keeps up (reset_datapath_stats env cfg)"
  "keeps up (pause_datapath_runtime env cfg)" "keeps up (resume_datapath_runtime env cfg)"
  unfolding health_snapshot_def datapath_status_snapshot_def datapath_stats_snapshot_def reset_datapath_stats_def
    pause_datapath_runtime_def resume_datapath_runtime_def run_datapath_control_command_def
    supervisor_get_ports_def supervisor_get_stats_def supervisor_reset_stats_def supervisor_pause_datapath_def
    supervisor_resume_datapath_def
  by (intro keeps_intros keeps_up_status keeps_up_with_supervisor keeps_up_parts keeps_reachable_call sound)+

lemma keeps_up_records:
  "keeps up (apply_recorded env cfg result)" "keeps up (destroy_recorded env cfg)" "keeps up (destroy_rejected env cfg)"
  unfolding apply_recorded_def destroy_recorded_def destroy_rejected_def set_override_def
  by (intro keeps_intros keeps_up_status keeps_up_parts keeps_up_observe keeps_up_modify; simp)+

definition serving :: "current \<times> ControllerRuntime \<times> 'w \<Rightarrow> bool" where
  "serving s \<longleftrightarrow> up (snd s)"

lemma keeps_serving: "keeps up m \<Longrightarrow> keeps serving (on_snd m)"
  by (auto simp: keeps_def serving_def safely_on_snd)

lemma keeps_serving_rejected: "keeps serving (apply_rejected env cfg path)"
  unfolding apply_rejected_def
  by (intro keeps_intros keeps_serving keeps_up_status keeps_up_parts keeps_up_observe keeps_up_modify) simp_all

lemma up_begun: "up (rt, w) \<Longrightarrow> apart (begin_operation state m rt) (begin_operation state m rt, w)"
  by (simp add: apart_def up_def)

lemma apart_up: "apart (begin_operation state m rt) rw \<Longrightarrow> up (rt, w) \<Longrightarrow> up rw"
  by (cases rw) (auto simp: apart_def up_def detach_iff begin_operation_def set_health_def)

lemma keeps_serving_apply: "keeps serving (apply_topology env cfg path)"
  unfolding keeps_def
proof (clarify, goal_cases)
  case (1 c rt w)
  then have up: "up (rt, w)" by (simp add: serving_def)
  define rt0 where "rt0 = begin_operation CS_reconciling (''applying topology from '' @ path) rt"
  have "safely (manager_apply (controller_manager env cfg) path)
      (\<lambda>result. safely (then_do (on_snd (apply_recorded env cfg result)) (ret result)) (\<lambda>_. serving) (\<lambda>_. serving))
      (\<lambda>e. safely (then_do (apply_rejected env cfg path) (raise e)) (\<lambda>_. serving) (\<lambda>_. serving))
      (c, rt0, w)"
    unfolding rt0_def
    by (rule safely_mono [OF kept.apply_ends [OF up_begun [OF up]]])
      (auto simp: kept.now_current_def kept.left_alone_def serving_def dest!: apart_up [OF _ up]
        intro!: keepsD [where I = serving] keeps_intros keeps_serving keeps_up_records keeps_serving_rejected)
  with 1 show ?case
    by (cases "str_strip path = []") (simp_all add: apply_topology_def safely_raise
        safely_then [where m = "on_snd (modify _)"] safely_on_snd safely_modify safely_bind safely_attempt rt0_def)
qed

lemma keeps_serving_destroy: "keeps serving (destroy_topology env cfg)"
  unfolding keeps_def
proof (clarify, goal_cases)
  case (1 c rt w)
  then have up: "up (rt, w)" by (simp add: serving_def)
  have "safely (manager_destroy (controller_manager env cfg))
      (\<lambda>result. safely (then_do (on_snd (stop_topology_datapath env))
          (then_do (on_snd (destroy_recorded env cfg)) (ret result))) (\<lambda>_. serving) (\<lambda>_. serving))
      (\<lambda>e. safely (then_do (on_snd (destroy_rejected env cfg)) (raise e)) (\<lambda>_. serving) (\<lambda>_. serving))
      (c, begin_operation CS_reconciling ''destroying topology'' rt, w)"
    unfolding stop_topology_datapath_def
    by (rule safely_mono [OF kept.manager_destroy_ends [OF up_begun [OF up]]])
      (auto simp: serving_def dest!: apart_up [OF _ up]
        intro!: keepsD [where I = serving] keeps_intros keeps_serving keeps_up_records keeps_up_stop)
  then show ?case
    by (simp add: destroy_topology_def safely_then [where m = "on_snd (modify _)"] safely_on_snd
        safely_modify safely_bind safely_attempt)
qed

lemma keeps_handler: "keeps I operation \<Longrightarrow> keeps I (handler to_http from_result operation)"
  unfolding handler_def
  by (intro keeps_intros) (auto intro!: keeps_intros split: sum.split exn.split)

lemma keeps_serving_app: "keeps serving (api_app fw env cfg verb path body)"
proof -
  have "keeps serving (get_health_route env cfg)"
    unfolding get_health_route_def by (intro keeps_intros keeps_serving keeps_up_commands)
  then show ?thesis
    unfolding api_app_def serve_def get_datapath_status_route_def get_datapath_stats_route_def
      reset_datapath_stats_route_def pause_datapath_route_def resume_datapath_route_def apply_topology_route_def
      destroy_topology_route_def
    by (intro keeps_intros keeps_handler keeps_serving keeps_up_commands keeps_serving_apply keeps_serving_destroy)
qed

lemma keeps_serve_all: "keeps serving (serve_all fw env cfg requests)"
proof (induction requests)
  case (Cons r rest)
  obtain verb path body change where r: "r = ((verb, path, body), change)" by (cases r) auto
  have "keeps serving (on_snd (on_snd (step (\<lambda>w. (Inr (), change w)))))"
    by (auto simp: keeps_def serving_def up_def exec_simps)
  with Cons show ?case unfolding r serve_all.simps by (intro keeps_intros keeps_serving_app)
qed (auto intro: keeps_intros)

text \<open>The stop at the end.\<close>

lemma stop_ends:
  assumes "wired cfg rt" and "rt_started rt"
  shows "safely (controller_stop env cfg)
    (\<lambda>_ (c', rt', _). c' = None \<and> idle rt' \<and> \<not> rt_started rt' \<and> rt_controller_state rt' = CS_stopped \<and>
       \<not> topology_applied (rt_observed_state rt'))
    (\<lambda>_ (c', rt', _). c' = c \<and> rt_started rt' \<and> rt_controller_state rt' = CS_stopping) (c, rt, w)"
proof -
  define rt0 where "rt0 = begin_operation CS_stopping ''stopping controller runtime'' rt"
  have rt0: "wired cfg rt0" "rt_started rt0" "rt_controller_state rt0 = CS_stopping"
    using assms by (simp_all add: rt0_def) (simp_all add: begin_operation_def set_health_def)
  let ?I = "\<lambda>(c', rw). apart rt0 rw"
  have "safely (if has_applied_topology c then then_do (manager_destroy (controller_manager env cfg)) (ret ())
          else on_snd (stop_supervisor env))
      (\<lambda>_ cs. fst cs = None \<and> apart rt0 (snd cs) \<and> idle (fst (snd cs)))
      (\<lambda>_ cs. fst cs = c \<and> apart rt0 (snd cs)) (c, rt0, w)"
  proof (cases c)
    case None
    show ?thesis
      unfolding None has_applied_topology_def
      by (simp add: safely_on_snd, rule safely_mono [OF stop_supervisor_ends [OF rt0(1)]]) (auto simp: apart_def)
  next
    case (Some a)
    have "apart rt0 (rt0, w)" using rt0 by (simp add: apart_def)
    from kept.manager_destroy_ends [OF this, of c] show ?thesis
      unfolding Some has_applied_topology_def
      by (simp add: safely_then) (erule safely_mono, auto simp: safely_ret)
  qed
  then have "safely (then_do (if has_applied_topology c then then_do (manager_destroy (controller_manager env cfg)) (ret ())
          else on_snd (stop_supervisor env)) (on_snd (runtime_stopped cfg)))
      (\<lambda>_ (c', rt', _). c' = None \<and> idle rt' \<and> \<not> rt_started rt' \<and> rt_controller_state rt' = CS_stopped \<and>
         \<not> topology_applied (rt_observed_state rt'))
      (\<lambda>_ (c', rt', _). c' = c \<and> rt_started rt' \<and> rt_controller_state rt' = CS_stopping) (c, rt0, w)"
    unfolding safely_then [where k = "on_snd (runtime_stopped cfg)"]
  proof (rule safely_mono, goal_cases)
    case (1 u cs)
    then show ?case
      by (cases cs) (auto simp: safely_on_snd runtime_stopped_def observe_def exec_simps observed_from_datapath_def
          unmanaged_datapath_status_def default_status_def ObservedState_post_init_def
          validate_optional_non_negative_def validate_optional_positive_def set_health_def idle_def)
  next
    case (2 e cs)
    with rt0 show ?case by (cases cs) (auto simp: apart_def detach_iff)
  qed
  with assms(2) show ?thesis
    by (simp add: controller_stop_def safely_bind [where m = "on_snd get_fst"] safely_bind [where m = get_fst]
        safely_on_snd safely_get_fst safely_then [where m = "on_snd (modify _)"] safely_modify rt0_def)
qed

text \<open>The start: an exception leaves the controller as not started.\<close>

lemma start_ends:
  assumes "wired cfg rt" and "\<not> rt_started rt"
  shows "safely (controller_start env cfg) (\<lambda>_ s. serving s)
    (\<lambda>_ (c', rt', _). c' = c \<and> \<not> rt_started rt') (c, rt, w)"
proof -
  define rt0 where "rt0 = (begin_operation CS_starting ''starting controller runtime'' rt)
      \<lparr>rt_desired_state := default_DesiredState
         \<lparr>desired_controller_state := CS_running, desired_datapath_running := cc_supervise_datapath cfg\<rparr>\<rparr>"
  let ?J = "\<lambda>rw. wired cfg (fst rw) \<and> \<not> rt_started (fst rw)"
  have rt0: "?J (rt0, w)" "rt_supervisor rt0 = rt_supervisor rt"
    using assms by (simp_all add: rt0_def) (simp_all add: begin_operation_def set_health_def)
  have "safely (case rt_supervisor rt of
        None \<Rightarrow> ret (unmanaged_datapath_status cfg)
      | Some su \<Rightarrow> on_supervisor (supervisor_start (ce_process env)) su) (\<lambda>_. ?J) (\<lambda>_. ?J) (rt0, w)"
  proof (cases "rt_supervisor rt")
    case None
    with rt0 show ?thesis by (simp add: safely_ret)
  next
    case (Some su)
    have "safely (on_supervisor (supervisor_start (ce_process env)) su)
        (\<lambda>_ (rt', w'). wired cfg rt' \<and> detach rt' = detach rt0) (\<lambda>_ (rt', w'). wired cfg rt' \<and> detach rt' = detach rt0)
        (rt0, w)"
      by (rule supervisor_kept) (use rt0 Some keeps_start [OF sound] in auto)
    then show ?thesis
      unfolding Some option.case by (rule safely_mono) (use rt0 in \<open>auto simp: detach_iff\<close>)
  qed
  then have "safely (bind (case rt_supervisor rt of
        None \<Rightarrow> ret (unmanaged_datapath_status cfg)
      | Some su \<Rightarrow> on_supervisor (supervisor_start (ce_process env)) su) (\<lambda>status.
         then_do (observe_same_topology status)
        (then_do (modify (\<lambda>rt. rt\<lparr>rt_started := True\<rparr>)) (recompute cfg status)))) (\<lambda>_. up)
      (\<lambda>_ rw. \<not> rt_started (fst rw)) (rt0, w)"
    unfolding safely_bind
  proof (rule safely_mono, goal_cases)
    case (1 st rw)
    then show ?case
      unfolding safely_then observe_same_topology_def safely_bind
      by (cases rw) (auto simp: safely_get_fst safely_modify recompute_def up_def intro!: safely_mono [OF observe_safely])
  qed simp
  with assms(2) show ?thesis
    by (simp add: controller_start_def runtime_start_def safely_on_snd safely_bind [where m = get_fst] safely_get_fst
        safely_then [where m = "modify _"] safely_modify rt0_def [symmetric])
      (erule safely_mono, auto simp: serving_def)
qed

lemma safely_true: "safely m (\<lambda>_ _. True) (\<lambda>_ _. True) s"
  by (rule safelyI) (simp split: sum.split)

lemma serve_never_raises: "safely (serve fw dump route) (\<lambda>_ _. True) (\<lambda>_ _. False) s"
  unfolding serve_def safely_bind safely_attempt
  by (rule safely_mono [OF safely_true]) (simp_all add: safely_ret)

lemma safely_if: "safely m Q E s \<Longrightarrow> safely m' Q E s \<Longrightarrow> safely (if b then m else m') Q E s"
  by simp

lemma app_never_raises: "safely (api_app fw env cfg verb path body) (\<lambda>_ _. True) (\<lambda>_ _. False) s"
proof -
  have "safely (case TopologyApplyRequest_validate body of
           None \<Rightarrow> ret (fw_unprocessable fw body)
         | Some payload \<Rightarrow>
             serve fw TopologyOperationResponseModel_dump (apply_topology_route env cfg payload))
      (\<lambda>_ _. True) (\<lambda>_ _. False) s"
    by (simp add: safely_ret serve_never_raises split: option.split)
  moreover have "safely (ret (fw_unrouted fw verb path)) (\<lambda>_ _. True) (\<lambda>_ _. False) s" by (simp add: safely_ret)
  ultimately show ?thesis
    unfolding api_app_def by (intro safely_if serve_never_raises)
qed

lemma serve_all_ends:
  "serving s \<Longrightarrow> safely (serve_all fw env cfg requests)
     (\<lambda>rs s'. length rs = length requests \<and> serving s') (\<lambda>_ _. False) s"
proof (induction requests arbitrary: s)
  case (Cons r rest)
  obtain verb path body change where r: "r = ((verb, path, body), change)" by (cases r) auto
  let ?Q = "\<lambda>rs s'. length rs = length (r # rest) \<and> serving s'"
  have app: "safely (bind (api_app fw env cfg verb path body) (\<lambda>response.
      bind (serve_all fw env cfg rest) (\<lambda>responses. ret (response # responses)))) ?Q (\<lambda>_ _. False) s1"
    if "serving s1" for s1
    unfolding safely_bind
  proof (rule safely_mono [OF safely_keeps_conj [OF app_never_raises keeps_serving_app that]], goal_cases)
    case (1 response s2)
    then have "serving s2" by simp
    from Cons.IH [OF this] show ?case by (rule safely_mono) (simp_all add: safely_ret)
  qed simp
  obtain c rt w where s: "s = (c, rt, w)" by (cases s)
  with Cons.prems have "serving (c, rt, change w)" by (simp add: serving_def up_def)
  from app [OF this] show ?case
    unfolding r s serve_all.simps safely_then safely_on_snd safely_step by (simp add: r)
qed (simp add: safely_ret)

lemma lifespan_ends:
  assumes "wired cfg rt" and "\<not> rt_started rt"
  shows "safely (lifespan env cfg (serve_all fw env cfg requests))
    (\<lambda>rs (c', rt', _). length rs = length requests \<and> c' = None \<and> idle rt' \<and> \<not> rt_started rt' \<and>
       rt_controller_state rt' = CS_stopped \<and> \<not> topology_applied (rt_observed_state rt'))
    (\<lambda>_ (c', rt', _). c' = c \<and> \<not> rt_started rt' \<or> rt_started rt' \<and> rt_controller_state rt' = CS_stopping) (c, rt, w)"
  unfolding lifespan_def safely_then [where m = "controller_start env cfg"]
proof (rule safely_mono [OF start_ends [OF assms]], goal_cases)
  case (1 u s)
  show ?case
    unfolding try_finally_def safely_bind safely_attempt
  proof (rule safely_mono [OF serve_all_ends [OF 1]], goal_cases)
    case (1 rs s')
    obtain c1 rt1 w1 where s': "s' = (c1, rt1, w1)" by (cases s')
    with 1 have "wired cfg rt1" "rt_started rt1" by (simp_all add: serving_def up_def)
    from stop_ends [OF this, of c1 w1] show ?case
      unfolding s' safely_then by (rule safely_mono) (use 1 in \<open>auto simp: safely_lift_sum\<close>)
  qed simp
qed auto

end

section \<open>The service returns\<close>

lemma always_serve: "always route \<Longrightarrow> always (serve fw dump route)"
  unfolding serve_def by (intro always_intros)

lemma always_handler: "always operation \<Longrightarrow> always (handler to_http from_result operation)"
  unfolding handler_def
  by (intro always_intros) (auto intro!: always_intros split: exn.split)

context controller_host
begin

lemma always_app: "always (api_app fw env cfg verb path body)"
  unfolding api_app_def get_health_route_def get_datapath_status_route_def get_datapath_stats_route_def
    reset_datapath_stats_route_def pause_datapath_route_def resume_datapath_route_def
    apply_topology_route_def destroy_topology_route_def
  by (intro always_intros always_serve always_handler always_operations apply_returns)

lemma always_serve_all: "always (serve_all fw env cfg requests)"
  by (induction requests) (auto intro!: always_intros always_app)

lemma lifespan_returns:
  assumes "wired cfg rt"
  shows "lifespan env cfg (serve_all fw env cfg requests) (c, rt, w) \<noteq> None"
  unfolding lifespan_def then_do_def
proof (rule returns_bind)
  show "controller_start env cfg (c, rt, w) \<noteq> None"
    using runtime_start_returns [OF assms] by (simp add: controller_start_def on_snd_def)
  show "always (try_finally (serve_all fw env cfg requests) (controller_stop env cfg))" for x :: unit
    unfolding try_finally_def by (intro always_intros always_serve_all always_operations)
qed

end

section \<open>Properties\<close>

lemma created_wired:
  assumes "controller_world env cfg" and "controller_init cfg None = Inr rt"
  shows "wired cfg rt" and "\<not> rt_started rt"
proof -
  show "wired cfg rt" by (rule reachable_wired [OF assms(1) reachable.created [OF assms(2)]])
  show "\<not> rt_started rt" using assms(2) by (auto simp: controller_init_def split: if_splits sum.splits)
qed

text \<open>C5. The life of the service, on a host whose clock moves on: start, any sequence of requests with any
  change of the host before each, and stop. It returns. When it raises nothing, every request got one
  response, whatever the operations behind it raised, and at the end the manager has no current topology,
  no datapath process is owned, and the controller is stopped with no topology observed. When it
  raises, either the start failed and nothing was served, or the final stop failed and the controller says
  it is stopping: a request never ends the service.\<close>

theorem service_lifecycle:
  assumes "controller_host env cfg nss links time own" and "controller_init cfg None = Inr rt"
  shows "outcome (lifespan env cfg (serve_all fw env cfg requests))
    (\<lambda>responses (current', rt', _).
       length responses = length requests \<and> current' = None \<and> idle rt' \<and> \<not> rt_started rt' \<and>
       rt_controller_state rt' = CS_stopped \<and> \<not> topology_applied (rt_observed_state rt'))
    (\<lambda>_ (current', rt', _).
       current' = None \<and> \<not> rt_started rt' \<or> rt_started rt' \<and> rt_controller_state rt' = CS_stopping)
    (None, rt, w)"
proof -
  note world = controller_host_world [OF assms(1)]
  note fresh = created_wired [OF world assms(2)]
  from controller_world.lifespan_ends [OF world fresh] controller_host.lifespan_returns [OF assms(1) fresh(1)]
  show ?thesis unfolding safely_def by blast
qed

theorem service_lifecycle_witness:
  "\<exists>rt. controller_init lab_config None = Inr rt \<and>
     outcome (lifespan lab_env lab_config (serve_all plain_framework lab_env lab_config
         [((''POST'', ''/topology/apply'', Some (PDict [(''config_path'', PStr ''linear.yaml'')])), id),
          ((''GET'', ''/health'', None), id)]))
       (\<lambda>responses (current', rt', _). length responses = 2 \<and> current' = None \<and> idle rt')
       (\<lambda>_ (current', rt', _). current' = None \<and> \<not> rt_started rt' \<or> rt_controller_state rt' = CS_stopping)
       (None, rt, \<lparr>lw_host = \<lparr>h_time = 0, h_namespaces = [], h_links = []\<rparr>, lw_pid = None, lw_taps = []\<rparr>)"
proof -
  obtain rt where rt: "controller_init lab_config None = Inr rt" using lab_config_init by blast
  have "outcome (lifespan lab_env lab_config (serve_all plain_framework lab_env lab_config
         [((''POST'', ''/topology/apply'', Some (PDict [(''config_path'', PStr ''linear.yaml'')])), id),
          ((''GET'', ''/health'', None), id)]))
       (\<lambda>responses (current', rt', _). length responses = 2 \<and> current' = None \<and> idle rt')
       (\<lambda>_ (current', rt', _). current' = None \<and> \<not> rt_started rt' \<or> rt_controller_state rt' = CS_stopping)
       (None, rt, \<lparr>lw_host = \<lparr>h_time = 0, h_namespaces = [], h_links = []\<rparr>, lw_pid = None, lw_taps = []\<rparr>)"
    by (rule outcome_mono [OF service_lifecycle [OF full_host.controller_host_axioms rt]]) auto
  with rt show ?thesis by blast
qed

end
