(* ===== verification/Py_Number.thy ===== *)
theory Py_Number
  imports Prelude Complex_Main
begin

text \<open>
  \<open>int(s)\<close>, \<open>float(s)\<close> and \<open>repr(s)\<close> on any string, for the values that come from a command line,
  from the environment or from a response of the controller.
\<close>

section \<open>The text of a string\<close>

definition hex_digit :: "nat \<Rightarrow> char" where
  "hex_digit n = ''0123456789abcdef'' ! n"

definition char_isprintable :: "char \<Rightarrow> bool" where
  "char_isprintable c \<longleftrightarrow> (let n = (of_char c :: nat) in 32 \<le> n \<and> n \<le> 126 \<or> 161 \<le> n \<and> n \<noteq> 173)"

definition repr_char :: "char \<Rightarrow> char \<Rightarrow> string" where
  "repr_char quote c =
     (if c = quote \<or> c = CHR 0x5C then [CHR 0x5C, c]
      else if c = CHR 0x0A then [CHR 0x5C, CHR ''n'']
      else if c = CHR 0x0D then [CHR 0x5C, CHR ''r'']
      else if c = CHR 0x09 then [CHR 0x5C, CHR ''t'']
      else if char_isprintable c then [c]
      else [CHR 0x5C, CHR ''x'', hex_digit (of_char c div 16), hex_digit (of_char c mod 16)])"

definition repr_str :: "string \<Rightarrow> string" where
  "repr_str s =
     (let quote = (if CHR 0x27 \<in> set s \<and> CHR 0x22 \<notin> set s then CHR 0x22 else CHR 0x27) in
      quote # concat (map (repr_char quote) s) @ [quote])"

section \<open>White space and signs\<close>

text \<open>The white space the two constructors skip: not the separators U+001C to U+001F that
  \<open>str.strip\<close> removes.\<close>

definition num_space :: "char \<Rightarrow> bool" where
  "num_space c \<longleftrightarrow> char_isspace c \<and> \<not> (let n = (of_char c :: nat) in 28 \<le> n \<and> n \<le> 31)"

definition num_strip :: "string \<Rightarrow> string" where
  "num_strip s = rev (dropWhile num_space (rev (dropWhile num_space s)))"

definition split_sign :: "string \<Rightarrow> bool \<times> string" where
  "split_sign s =
     (case s of
        c # cs \<Rightarrow> if c = CHR ''-'' then (True, cs) else if c = CHR ''+'' then (False, cs) else (False, s)
      | [] \<Rightarrow> (False, []))"

section \<open>Integers\<close>

text \<open>White space around it, a sign, single underscores between digits. The other value is the
  \<open>ValueError\<close>: no literal, or so many digits that the interpreter refuses to convert them.\<close>

definition int_digits :: "string \<Rightarrow> string option" where
  "int_digits s =
     (let parts = str_split (CHR 0x5F) s in if list_all str_isdecimal parts then Some (concat parts) else None)"

definition py_int :: "string \<Rightarrow> nat option + int" where
  "py_int s =
     (case split_sign (num_strip s) of
        (negative, body) \<Rightarrow>
          (case int_digits body of
             None \<Rightarrow> Inl None
           | Some ds \<Rightarrow>
               if int_max_str_digits < length ds then Inl (Some (length ds))
               else Inr (if negative then - int (decimal_value ds) else int (decimal_value ds))))"

text \<open>The same with the text of the \<open>ValueError\<close>.\<close>

definition int_of_str :: "string \<Rightarrow> string + int" where
  "int_of_str s =
     (case py_int s of
        Inl None \<Rightarrow> Inl (''invalid literal for int() with base 10: '' @ repr_str s)
      | Inl (Some digits) \<Rightarrow>
          Inl (''Exceeds the limit ('' @ str_of_nat int_max_str_digits
            @ '' digits) for integer string conversion: value has '' @ str_of_nat digits
            @ '' digits; use sys.set_int_max_str_digits() to increase the limit'')
      | Inr n \<Rightarrow> Inr n)"

section \<open>Floating-point numbers\<close>

text \<open>A number is its exact value as a rational, not rounded to the 53 bits of a double; beyond the range of
  a double it is infinite or zero.\<close>

datatype py_float = Finite rat | Infinite bool | Not_a_number

text \<open>Every underscore stands between two digits; then they are dropped.\<close>

fun underscores_ok :: "bool \<Rightarrow> string \<Rightarrow> bool" where
  "underscores_ok after_digit [] = True"
| "underscores_ok after_digit (c # cs) =
     (if c = CHR 0x5F then after_digit \<and> cs \<noteq> [] \<and> char_isdecimal (hd cs) \<and> underscores_ok False cs
      else underscores_ok (char_isdecimal c) cs)"

definition char_lower :: "char \<Rightarrow> char" where
  "char_lower c = (let n = (of_char c :: nat) in if 65 \<le> n \<and> n \<le> 90 then char_of (n + 32) else c)"

text \<open>\<open>digits[.digits][e[sign]digits]\<close> with at least one digit before the exponent.\<close>

definition float_exponent :: "string \<Rightarrow> int option" where
  "float_exponent s =
     (case split_sign s of
        (negative, ds) \<Rightarrow>
          if str_isdecimal ds then Some (if negative then - int (decimal_value ds) else int (decimal_value ds))
          else None)"

definition scaled :: "nat \<Rightarrow> int \<Rightarrow> rat" where
  "scaled m e = (if 0 \<le> e then of_nat m * 10 ^ nat e else of_nat m / 10 ^ nat (- e))"

definition float_body :: "string \<Rightarrow> rat option" where
  "float_body s =
     (case str_partition (CHR ''e'') s of
        (mantissa, exponent, rest) \<Rightarrow>
          (case str_partition (CHR ''.'') mantissa of
             (whole, point, fraction) \<Rightarrow>
               if str_isdecimal (whole @ fraction) then
                 map_option (\<lambda>e. scaled (decimal_value (whole @ fraction)) (e - int (length fraction)))
                   (if exponent then float_exponent rest else Some 0)
               else None))"

definition in_double_range :: "rat \<Rightarrow> py_float" where
  "in_double_range q =
     (if 2 ^ 1024 - 2 ^ 970 \<le> \<bar>q\<bar> then Infinite (q < 0)
      else if \<bar>q\<bar> * 2 ^ 1075 \<le> 1 then Finite 0 else Finite q)"

definition py_float_of :: "string \<Rightarrow> py_float option" where
  "py_float_of s =
     (let t = num_strip s in
      if \<not> underscores_ok False t then None
      else
        case split_sign (map char_lower (filter (\<lambda>c. c \<noteq> CHR 0x5F) t)) of
          (negative, body) \<Rightarrow>
            if body = ''inf'' \<or> body = ''infinity'' then Some (Infinite negative)
            else if body = ''nan'' then Some Not_a_number
            else map_option (\<lambda>q. in_double_range (if negative then - q else q)) (float_body body))"

section \<open>Printed numbers are read back\<close>

lemma num_strip_decimal: "str_isdecimal s \<Longrightarrow> num_strip s = s"
  using dropWhile_none [of num_space s] dropWhile_none [of num_space "rev s"]
  by (auto simp: num_strip_def str_isdecimal_def list_all_iff list_ex_iff num_space_def char_isdecimal_not_space)

lemma split_sign_decimal: "str_isdecimal s \<Longrightarrow> split_sign s = (False, s)"
  by (cases s) (auto simp: split_sign_def str_isdecimal_def char_isdecimal_def)

lemma str_isdecimal_no_underscore: "str_isdecimal s \<Longrightarrow> CHR 0x5F \<notin> set s"
  by (auto simp: str_isdecimal_def list_all_iff char_isdecimal_def)

lemma py_int_decimal:
  assumes "n < 10 ^ int_max_str_digits"
  shows "py_int (str_of_nat n) = Inr (int n)"
proof -
  have "str_isdecimal (str_of_nat n)" by (simp add: str_isdecimal_def str_of_nat_decimal)
  moreover have "length (str_of_nat n) \<le> int_max_str_digits"
    using length_str_of_nat [OF _ assms] by (simp add: int_max_str_digits_def)
  ultimately show ?thesis
    by (simp add: py_int_def num_strip_decimal split_sign_decimal int_digits_def str_split_no_sep
        str_isdecimal_no_underscore)
qed

lemma int_of_str_str_of_nat: "n < 10 ^ int_max_str_digits \<Longrightarrow> int_of_str (str_of_nat n) = Inr (int n)"
  by (simp add: int_of_str_def py_int_decimal)

text \<open>Reading a literal, step by step.\<close>

lemmas number_defs = py_float_of_def num_strip_def num_space_def char_isspace_def char_isdecimal_def split_sign_def
  char_lower_def float_body_def float_exponent_def scaled_def str_partition_def str_isdecimal_def decimal_value_def
  digit_value_def in_double_range_def Let_def

end
