(* ===== verification/Ctl_Client.thy ===== *)
theory Ctl_Client
  imports Ctrl_Error Py_Number "HOL-Library.Monad_Syntax"
begin

text \<open>
  The command-line tool's view of the controller (\<open>ctl/pktlabctl/client.py\<close>): the response models, and
  the HTTP client with its error reports. The parameters are httpx (what becomes of a request, which
  statuses \<open>raise_for_status\<close> refuses, the decoded body), pydantic's reading of one value as a string,
  an integer or a truth value, and the texts of their exceptions. A request always ends, because the
  client sets a timeout.
\<close>

section \<open>Errors\<close>

datatype ctl_error =
    ControllerClientError string
  | CtlValueError string
  | CtlSystemExit string
  | CtlException exn

section \<open>Reading JSON with pydantic\<close>

record pydantic =
  py_str :: "pyval \<Rightarrow> string option"
  py_int :: "pyval \<Rightarrow> int option"
  py_bool :: "pyval \<Rightarrow> bool option"
  py_problem :: "string \<Rightarrow> pyval \<Rightarrow> string"

text \<open>A required field, a field with a default, a value that may be null; \<open>extra="forbid"\<close>.\<close>

definition field :: "pydict \<Rightarrow> string \<Rightarrow> (pyval \<Rightarrow> 'a option) \<Rightarrow> 'a option" where
  "field d key read = Option.bind (map_of d key) read"

definition field_or :: "'a \<Rightarrow> pydict \<Rightarrow> string \<Rightarrow> (pyval \<Rightarrow> 'a option) \<Rightarrow> 'a option" where
  "field_or fallback d key read = (case map_of d key of None \<Rightarrow> Some fallback | Some v \<Rightarrow> read v)"

definition nullable :: "(pyval \<Rightarrow> 'a option) \<Rightarrow> pyval \<Rightarrow> 'a option option" where
  "nullable read v = (if v = PNone then Some None else map_option Some (read v))"

definition such_that :: "('a \<Rightarrow> bool) \<Rightarrow> (pyval \<Rightarrow> 'a option) \<Rightarrow> pyval \<Rightarrow> 'a option" where
  "such_that P read v = Option.bind (read v) (\<lambda>x. if P x then Some x else None)"

definition fields_of :: "string list \<Rightarrow> pyval \<Rightarrow> pydict option" where
  "fields_of names v =
     (case v of PDict d \<Rightarrow> if set (map fst d) \<subseteq> set names then Some d else None | _ \<Rightarrow> None)"

definition list_of :: "(pyval \<Rightarrow> 'a option) \<Rightarrow> pyval \<Rightarrow> 'a list option" where
  "list_of read v = (case v of PList xs \<Rightarrow> those (map read xs) | _ \<Rightarrow> None)"

definition counts_of :: "(pyval \<Rightarrow> int option) \<Rightarrow> pyval \<Rightarrow> (string \<times> int) list option" where
  "counts_of read v =
     (case v of
        PDict d \<Rightarrow> those (map (\<lambda>(k, x). map_option (Pair k) (read x)) d)
      | _ \<Rightarrow> None)"

abbreviation text_field :: "pydantic \<Rightarrow> pyval \<Rightarrow> string option" where
  "text_field py \<equiv> such_that (\<lambda>s. s \<noteq> []) (py_str py)"

abbreviation count_field :: "pydantic \<Rightarrow> pyval \<Rightarrow> int option" where
  "count_field py \<equiv> such_that (\<lambda>i. 0 \<le> i) (py_int py)"

section \<open>Models\<close>

record CtlControllerStatusModel =
  cs_service :: string
  cs_version :: string
  cs_state :: string
  cs_message :: string

definition ControllerStatusModel_validate :: "pydantic \<Rightarrow> pyval \<Rightarrow> CtlControllerStatusModel option" where
  "ControllerStatusModel_validate py v = do {
     d \<leftarrow> fields_of [''service'', ''version'', ''state'', ''message''] v;
     service \<leftarrow> field d ''service'' (text_field py);
     version \<leftarrow> field d ''version'' (text_field py);
     state \<leftarrow> field d ''state'' (text_field py);
     message \<leftarrow> field d ''message'' (text_field py);
     Some \<lparr>cs_service = service, cs_version = version, cs_state = state, cs_message = message\<rparr> }"

record CtlDatapathStatusModel =
  cd_managed :: bool
  cd_reachable :: bool
  cd_socket_path :: string
  cd_pid :: "int option"
  cd_exit_code :: "int option"
  cd_last_error :: "string option"
  cd_service :: "string option"
  cd_version :: "string option"
  cd_dpdk_version :: "string option"
  cd_state :: "string option"
  cd_message :: "string option"
  cd_applied_rule_version :: "int option"
  cd_ports_ready :: bool
  cd_paused :: bool

definition DatapathStatusModel_validate :: "pydantic \<Rightarrow> pyval \<Rightarrow> CtlDatapathStatusModel option" where
  "DatapathStatusModel_validate py v = do {
     d \<leftarrow> fields_of [''managed'', ''reachable'', ''socket_path'', ''pid'', ''exit_code'', ''last_error'',
       ''service'', ''version'', ''dpdk_version'', ''state'', ''message'', ''applied_rule_version'',
       ''ports_ready'', ''paused''] v;
     managed \<leftarrow> field d ''managed'' (py_bool py);
     reachable \<leftarrow> field d ''reachable'' (py_bool py);
     socket_path \<leftarrow> field d ''socket_path'' (text_field py);
     pid \<leftarrow> field_or None d ''pid'' (nullable (such_that (\<lambda>i. 1 \<le> i) (py_int py)));
     exit_code \<leftarrow> field_or None d ''exit_code'' (nullable (py_int py));
     last_error \<leftarrow> field_or None d ''last_error'' (nullable (py_str py));
     service \<leftarrow> field_or None d ''service'' (nullable (py_str py));
     version \<leftarrow> field_or None d ''version'' (nullable (py_str py));
     dpdk_version \<leftarrow> field_or None d ''dpdk_version'' (nullable (py_str py));
     state \<leftarrow> field_or None d ''state'' (nullable (py_str py));
     message \<leftarrow> field_or None d ''message'' (nullable (py_str py));
     applied_rule_version \<leftarrow> field_or None d ''applied_rule_version'' (nullable (count_field py));
     ports_ready \<leftarrow> field_or False d ''ports_ready'' (py_bool py);
     paused \<leftarrow> field_or False d ''paused'' (py_bool py);
     Some \<lparr>cd_managed = managed, cd_reachable = reachable, cd_socket_path = socket_path, cd_pid = pid,
       cd_exit_code = exit_code, cd_last_error = last_error, cd_service = service, cd_version = version,
       cd_dpdk_version = dpdk_version, cd_state = state, cd_message = message,
       cd_applied_rule_version = applied_rule_version, cd_ports_ready = ports_ready, cd_paused = paused\<rparr> }"

record CtlHealthResponseModel =
  ch_controller :: CtlControllerStatusModel
  ch_datapath :: CtlDatapathStatusModel

definition CtlHealthResponse_validate :: "pydantic \<Rightarrow> pyval \<Rightarrow> CtlHealthResponseModel option" where
  "CtlHealthResponse_validate py v = do {
     d \<leftarrow> fields_of [''controller'', ''datapath''] v;
     controller \<leftarrow> field d ''controller'' (ControllerStatusModel_validate py);
     datapath \<leftarrow> field d ''datapath'' (DatapathStatusModel_validate py);
     Some \<lparr>ch_controller = controller, ch_datapath = datapath\<rparr> }"

record CtlDatapathPortModel =
  cp_name :: string
  cp_port_id :: int
  cp_role :: string
  cp_state :: string

definition CtlDatapathPort_validate :: "pydantic \<Rightarrow> pyval \<Rightarrow> CtlDatapathPortModel option" where
  "CtlDatapathPort_validate py v = do {
     d \<leftarrow> fields_of [''name'', ''port_id'', ''role'', ''state''] v;
     name \<leftarrow> field d ''name'' (text_field py);
     port_id \<leftarrow> field d ''port_id'' (count_field py);
     role \<leftarrow> field d ''role'' (text_field py);
     state \<leftarrow> field d ''state'' (text_field py);
     Some \<lparr>cp_name = name, cp_port_id = port_id, cp_role = role, cp_state = state\<rparr> }"

record CtlDatapathStatusResponseModel =
  cr_controller :: CtlControllerStatusModel
  cr_datapath :: CtlDatapathStatusModel
  cr_ports :: "CtlDatapathPortModel list"

definition CtlDatapathStatusResponse_validate :: "pydantic \<Rightarrow> pyval \<Rightarrow> CtlDatapathStatusResponseModel option" where
  "CtlDatapathStatusResponse_validate py v = do {
     d \<leftarrow> fields_of [''controller'', ''datapath'', ''ports''] v;
     controller \<leftarrow> field d ''controller'' (ControllerStatusModel_validate py);
     datapath \<leftarrow> field d ''datapath'' (DatapathStatusModel_validate py);
     ports \<leftarrow> field d ''ports'' (list_of (CtlDatapathPort_validate py));
     Some \<lparr>cr_controller = controller, cr_datapath = datapath, cr_ports = ports\<rparr> }"

record CtlDatapathStatsModel =
  ct_rx_packets :: int
  ct_tx_packets :: int
  ct_drop_packets :: int
  ct_drop_parse_errors :: int
  ct_drop_no_match :: int
  ct_rx_bursts :: int
  ct_tx_bursts :: int
  ct_unsent_packets :: int
  ct_rule_hits :: "(string \<times> int) list"

definition CtlDatapathStats_validate :: "pydantic \<Rightarrow> pyval \<Rightarrow> CtlDatapathStatsModel option" where
  "CtlDatapathStats_validate py v = do {
     d \<leftarrow> fields_of [''rx_packets'', ''tx_packets'', ''drop_packets'', ''drop_parse_errors'', ''drop_no_match'',
       ''rx_bursts'', ''tx_bursts'', ''unsent_packets'', ''rule_hits''] v;
     rx_packets \<leftarrow> field d ''rx_packets'' (count_field py);
     tx_packets \<leftarrow> field d ''tx_packets'' (count_field py);
     drop_packets \<leftarrow> field d ''drop_packets'' (count_field py);
     drop_parse_errors \<leftarrow> field d ''drop_parse_errors'' (count_field py);
     drop_no_match \<leftarrow> field d ''drop_no_match'' (count_field py);
     rx_bursts \<leftarrow> field d ''rx_bursts'' (count_field py);
     tx_bursts \<leftarrow> field d ''tx_bursts'' (count_field py);
     unsent_packets \<leftarrow> field d ''unsent_packets'' (count_field py);
     rule_hits \<leftarrow> field_or [] d ''rule_hits'' (counts_of (py_int py));
     Some \<lparr>ct_rx_packets = rx_packets, ct_tx_packets = tx_packets, ct_drop_packets = drop_packets,
       ct_drop_parse_errors = drop_parse_errors, ct_drop_no_match = drop_no_match, ct_rx_bursts = rx_bursts,
       ct_tx_bursts = tx_bursts, ct_unsent_packets = unsent_packets, ct_rule_hits = rule_hits\<rparr> }"

record CtlDatapathStatsResponseModel =
  cq_datapath :: CtlDatapathStatusModel
  cq_stats :: CtlDatapathStatsModel

definition CtlDatapathStatsResponse_validate :: "pydantic \<Rightarrow> pyval \<Rightarrow> CtlDatapathStatsResponseModel option" where
  "CtlDatapathStatsResponse_validate py v = do {
     d \<leftarrow> fields_of [''datapath'', ''stats''] v;
     datapath \<leftarrow> field d ''datapath'' (DatapathStatusModel_validate py);
     stats \<leftarrow> field d ''stats'' (CtlDatapathStats_validate py);
     Some \<lparr>cq_datapath = datapath, cq_stats = stats\<rparr> }"

record CtlDatapathStatsResetResponseModel =
  cz_datapath :: CtlDatapathStatusModel
  cz_stats :: CtlDatapathStatsModel
  cz_message :: string

definition CtlDatapathStatsResetResponse_validate ::
  "pydantic \<Rightarrow> pyval \<Rightarrow> CtlDatapathStatsResetResponseModel option" where
  "CtlDatapathStatsResetResponse_validate py v = do {
     d \<leftarrow> fields_of [''datapath'', ''stats'', ''message''] v;
     datapath \<leftarrow> field d ''datapath'' (DatapathStatusModel_validate py);
     stats \<leftarrow> field d ''stats'' (CtlDatapathStats_validate py);
     message \<leftarrow> field d ''message'' (text_field py);
     Some \<lparr>cz_datapath = datapath, cz_stats = stats, cz_message = message\<rparr> }"

record CtlDatapathControlResponseModel =
  cx_datapath :: CtlDatapathStatusModel
  cx_message :: string

definition CtlDatapathControlResponse_validate ::
  "pydantic \<Rightarrow> pyval \<Rightarrow> CtlDatapathControlResponseModel option" where
  "CtlDatapathControlResponse_validate py v = do {
     d \<leftarrow> fields_of [''datapath'', ''message''] v;
     datapath \<leftarrow> field d ''datapath'' (DatapathStatusModel_validate py);
     message \<leftarrow> field d ''message'' (text_field py);
     Some \<lparr>cx_datapath = datapath, cx_message = message\<rparr> }"

record CtlTopologyOperationResponseModel =
  co_operation :: string
  co_topology_name :: "string option"
  co_config_path :: "string option"
  co_applied :: bool
  co_datapath_namespace :: "string option"
  co_datapath_running :: bool
  co_message :: string

definition CtlTopologyOperationResponse_validate ::
  "pydantic \<Rightarrow> pyval \<Rightarrow> CtlTopologyOperationResponseModel option" where
  "CtlTopologyOperationResponse_validate py v = do {
     d \<leftarrow> fields_of [''operation'', ''topology_name'', ''config_path'', ''applied'', ''datapath_namespace'',
       ''datapath_running'', ''message''] v;
     operation \<leftarrow> field d ''operation'' (text_field py);
     topology_name \<leftarrow> field_or None d ''topology_name'' (nullable (py_str py));
     config_path \<leftarrow> field_or None d ''config_path'' (nullable (py_str py));
     applied \<leftarrow> field d ''applied'' (py_bool py);
     datapath_namespace \<leftarrow> field_or None d ''datapath_namespace'' (nullable (py_str py));
     datapath_running \<leftarrow> field d ''datapath_running'' (py_bool py);
     message \<leftarrow> field d ''message'' (text_field py);
     Some \<lparr>co_operation = operation, co_topology_name = topology_name, co_config_path = config_path,
       co_applied = applied, co_datapath_namespace = datapath_namespace,
       co_datapath_running = datapath_running, co_message = message\<rparr> }"

section \<open>Texts of Python values\<close>

text \<open>\<open>repr(v)\<close> and \<open>str(v)\<close>; the digits of a floating point number are the parameter \<open>float_repr\<close>.\<close>

primrec py_repr :: "(rat \<Rightarrow> string) \<Rightarrow> pyval \<Rightarrow> string" where
  "py_repr float_repr PNone = ''None''"
| "py_repr float_repr (PBool b) = (if b then ''True'' else ''False'')"
| "py_repr float_repr (PInt i) = str_of_int i"
| "py_repr float_repr (PFloat r) = float_repr r"
| "py_repr float_repr (PStr s) = repr_str s"
| "py_repr float_repr (PList xs) = ''['' @ str_join '', '' (map (py_repr float_repr) xs) @ '']''"
| "py_repr float_repr (PDict d) =
     ''{'' @ str_join '', '' (map (\<lambda>(k, v). repr_str k @ '': '' @ v) (map (map_prod id (py_repr float_repr)) d)) @ ''}''"

definition str_of_value :: "(rat \<Rightarrow> string) \<Rightarrow> pyval \<Rightarrow> string" where
  "str_of_value float_repr v = (case v of PStr s \<Rightarrow> s | _ \<Rightarrow> py_repr float_repr v)"

section \<open>The client\<close>

record http_call =
  hc_base_url :: string
  hc_timeout :: rat
  hc_method :: string
  hc_path :: string
  hc_json :: "pyval option"

text \<open>The body as \<open>response.json()\<close> gives it: a value, a \<open>JSONDecodeError\<close>, or another exception.\<close>

datatype response_json = Json_value pyval | Json_invalid | Json_raises exn

datatype http_outcome =
    Http_response int response_json
  | Http_error string
  | Http_raises exn

record 's ctl_env =
  ctl_request :: "http_call \<Rightarrow> 's \<Rightarrow> http_outcome \<times> 's"
  ctl_raises_for_status :: "int \<Rightarrow> bool"
  ctl_pydantic :: pydantic
  ctl_float_repr :: "rat \<Rightarrow> string"

record ControllerClient =
  cc_base_url :: string
  cc_timeout_seconds :: rat

definition rstrip_slash :: "string \<Rightarrow> string" where
  "rstrip_slash s = rev (dropWhile (\<lambda>c. c = CHR ''/'') (rev s))"

definition ControllerClient_init :: "string \<Rightarrow> rat \<Rightarrow> ctl_error + ControllerClient" where
  "ControllerClient_init base_url timeout_seconds =
     (if str_strip base_url = [] then Inl (CtlValueError ''base_url must be a non-empty string'')
      else if timeout_seconds \<le> 0 then Inl (CtlValueError ''timeout_seconds must be greater than zero'')
      else Inr \<lparr>cc_base_url = rstrip_slash base_url, cc_timeout_seconds = timeout_seconds\<rparr>)"

text \<open>\<open>timeout_seconds\<close> when the commands create their client.\<close>

definition DEFAULT_TIMEOUT :: rat where
  "DEFAULT_TIMEOUT = 2"

definition error_detail :: "(rat \<Rightarrow> string) \<Rightarrow> response_json \<Rightarrow> string" where
  "error_detail float_repr body =
     (case body of
        Json_value (PDict payload) \<Rightarrow>
          (case map_of payload ''detail'' of
             None \<Rightarrow> []
           | Some detail \<Rightarrow> if detail = PNone then [] else '': '' @ str_of_value float_repr detail)
      | _ \<Rightarrow> [])"

definition request_json ::
  "'s ctl_env \<Rightarrow> ControllerClient \<Rightarrow> string \<Rightarrow> string \<Rightarrow> pyval option \<Rightarrow> 's \<Rightarrow> (ctl_error + pydict) \<times> 's" where
  "request_json env client verb path json_body s =
     (case ctl_request env \<lparr>hc_base_url = cc_base_url client, hc_timeout = cc_timeout_seconds client,
        hc_method = verb, hc_path = path, hc_json = json_body\<rparr> s of
        (outcome, s') \<Rightarrow>
          (case outcome of
             Http_raises e \<Rightarrow> Inl (CtlException e)
           | Http_error message \<Rightarrow>
               Inl (ControllerClientError (''controller request failed for '' @ path @ '': '' @ message))
           | Http_response status body \<Rightarrow>
               if ctl_raises_for_status env status then
                 Inl (ControllerClientError (''controller returned HTTP '' @ str_of_int status @ '' for '' @ path
                   @ error_detail (ctl_float_repr env) body))
               else
                 (case body of
                    Json_invalid \<Rightarrow> Inl (ControllerClientError ''controller returned invalid JSON'')
                  | Json_raises e \<Rightarrow> Inl (CtlException e)
                  | Json_value (PDict payload) \<Rightarrow> Inr payload
                  | Json_value _ \<Rightarrow>
                      Inl (ControllerClientError ''controller returned a non-object JSON payload'')), s'))"

text \<open>A call: the request, then the model of the response.\<close>

definition typed_request ::
  "'s ctl_env \<Rightarrow> ControllerClient \<Rightarrow> string \<Rightarrow> string \<Rightarrow> pyval option \<Rightarrow>
   (pydantic \<Rightarrow> pyval \<Rightarrow> 'm option) \<Rightarrow> string \<Rightarrow> 's \<Rightarrow> (ctl_error + 'm) \<times> 's" where
  "typed_request env client verb path json_body validate what s =
     (case request_json env client verb path json_body s of
        (Inl e, s') \<Rightarrow> (Inl e, s')
      | (Inr payload, s') \<Rightarrow>
          (case validate (ctl_pydantic env) (PDict payload) of
             Some m \<Rightarrow> (Inr m, s')
           | None \<Rightarrow>
               (Inl (ControllerClientError (''controller '' @ what
                 @ '' response did not match the expected schema: ''
                 @ py_problem (ctl_pydantic env) what (PDict payload))), s')))"

definition ctl_get_health :: "'s ctl_env \<Rightarrow> ControllerClient \<Rightarrow> 's \<Rightarrow> (ctl_error + CtlHealthResponseModel) \<times> 's" where
  "ctl_get_health env client =
     typed_request env client ''GET'' ''/health'' None CtlHealthResponse_validate ''health''"

definition ctl_get_datapath_status ::
  "'s ctl_env \<Rightarrow> ControllerClient \<Rightarrow> 's \<Rightarrow> (ctl_error + CtlDatapathStatusResponseModel) \<times> 's" where
  "ctl_get_datapath_status env client =
     typed_request env client ''GET'' ''/datapath/status'' None CtlDatapathStatusResponse_validate ''datapath status''"

definition ctl_get_datapath_stats ::
  "'s ctl_env \<Rightarrow> ControllerClient \<Rightarrow> 's \<Rightarrow> (ctl_error + CtlDatapathStatsResponseModel) \<times> 's" where
  "ctl_get_datapath_stats env client =
     typed_request env client ''GET'' ''/datapath/stats'' None CtlDatapathStatsResponse_validate ''datapath stats''"

definition ctl_reset_datapath_stats ::
  "'s ctl_env \<Rightarrow> ControllerClient \<Rightarrow> 's \<Rightarrow> (ctl_error + CtlDatapathStatsResetResponseModel) \<times> 's" where
  "ctl_reset_datapath_stats env client =
     typed_request env client ''POST'' ''/datapath/stats/reset'' (Some (PDict []))
       CtlDatapathStatsResetResponse_validate ''datapath stats-reset''"

definition ctl_pause_datapath ::
  "'s ctl_env \<Rightarrow> ControllerClient \<Rightarrow> 's \<Rightarrow> (ctl_error + CtlDatapathControlResponseModel) \<times> 's" where
  "ctl_pause_datapath env client =
     typed_request env client ''POST'' ''/datapath/pause'' (Some (PDict []))
       CtlDatapathControlResponse_validate ''datapath pause''"

definition ctl_resume_datapath ::
  "'s ctl_env \<Rightarrow> ControllerClient \<Rightarrow> 's \<Rightarrow> (ctl_error + CtlDatapathControlResponseModel) \<times> 's" where
  "ctl_resume_datapath env client =
     typed_request env client ''POST'' ''/datapath/resume'' (Some (PDict []))
       CtlDatapathControlResponse_validate ''datapath resume''"

definition ctl_apply_topology ::
  "'s ctl_env \<Rightarrow> ControllerClient \<Rightarrow> string \<Rightarrow> 's \<Rightarrow> (ctl_error + CtlTopologyOperationResponseModel) \<times> 's" where
  "ctl_apply_topology env client config_path s =
     (if str_strip config_path = [] then (Inl (CtlValueError ''config_path must be a non-empty string''), s)
      else typed_request env client ''POST'' ''/topology/apply'' (Some (PDict [(''config_path'', PStr config_path)]))
        CtlTopologyOperationResponse_validate ''topology apply'' s)"

definition ctl_destroy_topology ::
  "'s ctl_env \<Rightarrow> ControllerClient \<Rightarrow> 's \<Rightarrow> (ctl_error + CtlTopologyOperationResponseModel) \<times> 's" where
  "ctl_destroy_topology env client =
     typed_request env client ''POST'' ''/topology/destroy'' (Some (PDict []))
       CtlTopologyOperationResponse_validate ''topology destroy''"

end
