(* ===== verification/Ctl_Output.thy ===== *)
theory Ctl_Output
  imports Ctl_Client Netns "HOL-Library.Multiset"
begin

text \<open>
  What the command-line tool prints (\<open>ctl/pktlabctl/output.py\<close>): the reports for people and the JSON form,
  with the parts of \<open>json.dumps\<close> and \<open>int\<close> they use.
\<close>

section \<open>JSON text\<close>

text \<open>\<open>json.dumps(v, indent=2, sort_keys=True)\<close>; the argument after the value is the level of nesting.\<close>

definition json_char :: "char \<Rightarrow> string" where
  "json_char c =
     (if c = CHR 0x22 \<or> c = CHR 0x5C then [CHR 0x5C, c]
      else if c = CHR 0x0A then [CHR 0x5C, CHR ''n'']
      else if c = CHR 0x0D then [CHR 0x5C, CHR ''r'']
      else if c = CHR 0x09 then [CHR 0x5C, CHR ''t'']
      else if c = CHR 0x0C then [CHR 0x5C, CHR ''f'']
      else if c = CHR 0x08 then [CHR 0x5C, CHR ''b'']
      else if (of_char c :: nat) \<in> {32..126} then [c]
      else CHR 0x5C # ''u00'' @ [hex_digit (of_char c div 16), hex_digit (of_char c mod 16)])"

definition json_string :: "string \<Rightarrow> string" where
  "json_string s = CHR 0x22 # concat (map json_char s) @ [CHR 0x22]"

definition json_newline :: "nat \<Rightarrow> string" where
  "json_newline level = CHR 0x0A # replicate (2 * level) CHR '' ''"

definition json_block :: "char \<Rightarrow> char \<Rightarrow> string list \<Rightarrow> nat \<Rightarrow> string" where
  "json_block opening closing items level =
     (if items = [] then [opening, closing]
      else opening # json_newline (Suc level) @ str_join ('','' @ json_newline (Suc level)) items
        @ json_newline level @ [closing])"

primrec json_dumps :: "(rat \<Rightarrow> string) \<Rightarrow> pyval \<Rightarrow> nat \<Rightarrow> string" where
  "json_dumps float_repr PNone = (\<lambda>level. ''null'')"
| "json_dumps float_repr (PBool b) = (\<lambda>level. if b then ''true'' else ''false'')"
| "json_dumps float_repr (PInt i) = (\<lambda>level. str_of_int i)"
| "json_dumps float_repr (PFloat r) = (\<lambda>level. float_repr r)"
| "json_dumps float_repr (PStr s) = (\<lambda>level. json_string s)"
| "json_dumps float_repr (PList xs) =
     (\<lambda>level. json_block CHR ''['' CHR '']'' (map (\<lambda>f. f (Suc level)) (map (json_dumps float_repr) xs)) level)"
| "json_dumps float_repr (PDict d) =
     (\<lambda>level. json_block CHR ''{'' CHR ''}''
       (map (\<lambda>(k, f). json_string k @ '': '' @ f (Suc level))
          (sort_key fst (map (map_prod id (json_dumps float_repr)) d))) level)"

section \<open>Dumping the models\<close>

definition opt_value :: "('a \<Rightarrow> pyval) \<Rightarrow> 'a option \<Rightarrow> pyval" where
  "opt_value f x = (case x of None \<Rightarrow> PNone | Some y \<Rightarrow> f y)"

definition CtlControllerStatus_dump :: "CtlControllerStatusModel \<Rightarrow> pyval" where
  "CtlControllerStatus_dump m = PDict
     [(''service'', PStr (cs_service m)), (''version'', PStr (cs_version m)), (''state'', PStr (cs_state m)),
      (''message'', PStr (cs_message m))]"

definition CtlDatapathStatus_dump :: "CtlDatapathStatusModel \<Rightarrow> pyval" where
  "CtlDatapathStatus_dump m = PDict
     [(''managed'', PBool (cd_managed m)), (''reachable'', PBool (cd_reachable m)),
      (''socket_path'', PStr (cd_socket_path m)), (''pid'', opt_value PInt (cd_pid m)),
      (''exit_code'', opt_value PInt (cd_exit_code m)), (''last_error'', opt_value PStr (cd_last_error m)),
      (''service'', opt_value PStr (cd_service m)), (''version'', opt_value PStr (cd_version m)),
      (''dpdk_version'', opt_value PStr (cd_dpdk_version m)), (''state'', opt_value PStr (cd_state m)),
      (''message'', opt_value PStr (cd_message m)),
      (''applied_rule_version'', opt_value PInt (cd_applied_rule_version m)),
      (''ports_ready'', PBool (cd_ports_ready m)), (''paused'', PBool (cd_paused m))]"

definition CtlDatapathPort_dump :: "CtlDatapathPortModel \<Rightarrow> pyval" where
  "CtlDatapathPort_dump p = PDict
     [(''name'', PStr (cp_name p)), (''port_id'', PInt (cp_port_id p)), (''role'', PStr (cp_role p)),
      (''state'', PStr (cp_state p))]"

definition CtlDatapathStats_dump :: "CtlDatapathStatsModel \<Rightarrow> pyval" where
  "CtlDatapathStats_dump s = PDict
     [(''rx_packets'', PInt (ct_rx_packets s)), (''tx_packets'', PInt (ct_tx_packets s)),
      (''drop_packets'', PInt (ct_drop_packets s)), (''drop_parse_errors'', PInt (ct_drop_parse_errors s)),
      (''drop_no_match'', PInt (ct_drop_no_match s)), (''rx_bursts'', PInt (ct_rx_bursts s)),
      (''tx_bursts'', PInt (ct_tx_bursts s)), (''unsent_packets'', PInt (ct_unsent_packets s)),
      (''rule_hits'', PDict (map (\<lambda>(k, n). (k, PInt n)) (ct_rule_hits s)))]"

definition CtlDatapathStatusResponse_dump :: "CtlDatapathStatusResponseModel \<Rightarrow> pyval" where
  "CtlDatapathStatusResponse_dump m = PDict
     [(''controller'', CtlControllerStatus_dump (cr_controller m)),
      (''datapath'', CtlDatapathStatus_dump (cr_datapath m)),
      (''ports'', PList (map CtlDatapathPort_dump (cr_ports m)))]"

definition CtlDatapathStatsResponse_dump :: "CtlDatapathStatsResponseModel \<Rightarrow> pyval" where
  "CtlDatapathStatsResponse_dump m = PDict
     [(''datapath'', CtlDatapathStatus_dump (cq_datapath m)), (''stats'', CtlDatapathStats_dump (cq_stats m))]"

definition CtlDatapathStatsResetResponse_dump :: "CtlDatapathStatsResetResponseModel \<Rightarrow> pyval" where
  "CtlDatapathStatsResetResponse_dump m = PDict
     [(''datapath'', CtlDatapathStatus_dump (cz_datapath m)), (''stats'', CtlDatapathStats_dump (cz_stats m)),
      (''message'', PStr (cz_message m))]"

definition CtlDatapathControlResponse_dump :: "CtlDatapathControlResponseModel \<Rightarrow> pyval" where
  "CtlDatapathControlResponse_dump m = PDict
     [(''datapath'', CtlDatapathStatus_dump (cx_datapath m)), (''message'', PStr (cx_message m))]"

definition CtlTopologyOperationResponse_dump :: "CtlTopologyOperationResponseModel \<Rightarrow> pyval" where
  "CtlTopologyOperationResponse_dump m = PDict
     [(''operation'', PStr (co_operation m)), (''topology_name'', opt_value PStr (co_topology_name m)),
      (''config_path'', opt_value PStr (co_config_path m)), (''applied'', PBool (co_applied m)),
      (''datapath_namespace'', opt_value PStr (co_datapath_namespace m)),
      (''datapath_running'', PBool (co_datapath_running m)), (''message'', PStr (co_message m))]"

section \<open>Reports for people\<close>

definition lines :: "string list \<Rightarrow> string" where
  "lines ls = str_join [CHR 0x0A] ls"

definition yes_no :: "bool \<Rightarrow> string" where
  "yes_no b = (if b then ''yes'' else ''no'')"

text \<open>\<open>if value:\<close> on an optional string, and \<open>if value is not None:\<close>.\<close>

definition when_text :: "string option \<Rightarrow> (string \<Rightarrow> string list) \<Rightarrow> string list" where
  "when_text v f = (case v of None \<Rightarrow> [] | Some s \<Rightarrow> if s = [] then [] else f s)"

definition when_some :: "'a option \<Rightarrow> ('a \<Rightarrow> string list) \<Rightarrow> string list" where
  "when_some v f = (case v of None \<Rightarrow> [] | Some x \<Rightarrow> f x)"

definition port_line :: "CtlDatapathPortModel \<Rightarrow> string" where
  "port_line port =
     ''  '' @ cp_role port @ '': '' @ cp_name port @ '' (id='' @ str_of_int (cp_port_id port) @ '', state=''
       @ cp_state port @ '')''"

definition status_lines :: "CtlDatapathStatusResponseModel \<Rightarrow> string list" where
  "status_lines payload =
     (let controller = cr_controller payload; datapath = cr_datapath payload in
      [''controller: '' @ cs_state controller @ '' ('' @ cs_message controller @ '')'',
       ''  service: '' @ cs_service controller @ '' '' @ cs_version controller,
       ''datapath: '' @ (if cd_reachable datapath then ''reachable'' else ''unreachable''),
       ''  managed: '' @ yes_no (cd_managed datapath),
       ''  socket: '' @ cd_socket_path datapath,
       ''  pid: '' @ (case cd_pid datapath of None \<Rightarrow> ''n/a'' | Some pid \<Rightarrow> str_of_int pid)]
      @ when_some (cd_state datapath) (\<lambda>s. [''  state: '' @ s])
      @ when_text (cd_message datapath) (\<lambda>s. [''  message: '' @ s])
      @ when_text (cd_service datapath) (\<lambda>service. when_text (cd_version datapath) (\<lambda>version.
          [''  service: '' @ service @ '' '' @ version
             @ concat (when_text (cd_dpdk_version datapath) (\<lambda>v. ['' (DPDK '' @ v @ '')'']))]))
      @ when_some (cd_applied_rule_version datapath) (\<lambda>v. [''  applied_rule_version: '' @ str_of_int v])
      @ [''  ports_ready: '' @ yes_no (cd_ports_ready datapath), ''  paused: '' @ yes_no (cd_paused datapath)]
      @ when_some (cd_exit_code datapath) (\<lambda>c. [''  exit_code: '' @ str_of_int c])
      @ when_text (cd_last_error datapath) (\<lambda>e. [''  error: '' @ e])
      @ (if cr_ports payload \<noteq> [] then ''ports:'' # map port_line (cr_ports payload) else []))"

definition render_human_status :: "CtlDatapathStatusResponseModel \<Rightarrow> string" where
  "render_human_status payload = lines (status_lines payload)"

text \<open>\<open>sorted(rule_hits, key=int)\<close>: the keys are converted first, then the entries sorted by them.\<close>

fun keyed_hits :: "(string \<times> int) list \<Rightarrow> string + (int \<times> string \<times> int) list" where
  "keyed_hits [] = Inr []"
| "keyed_hits ((rule_id, hits) # rest) =
     (case int_of_str rule_id of
        Inl e \<Rightarrow> Inl e
      | Inr key \<Rightarrow> (case keyed_hits rest of Inl e \<Rightarrow> Inl e | Inr ks \<Rightarrow> Inr ((key, rule_id, hits) # ks)))"

definition sorted_hits :: "(string \<times> int) list \<Rightarrow> string + (string \<times> int) list" where
  "sorted_hits hits = (case keyed_hits hits of Inl e \<Rightarrow> Inl e | Inr ks \<Rightarrow> Inr (map snd (sort_key fst ks)))"

definition stats_lines ::
  "CtlDatapathStatusModel \<Rightarrow> CtlDatapathStatsModel \<Rightarrow> string \<Rightarrow> ctl_error + string list" where
  "stats_lines datapath stats heading =
     (let counters =
        [heading @ '': '' @ (case cd_state datapath of None \<Rightarrow> ''unknown'' | Some s \<Rightarrow> s),
         ''  socket: '' @ cd_socket_path datapath,
         ''  rx_packets: '' @ str_of_int (ct_rx_packets stats),
         ''  tx_packets: '' @ str_of_int (ct_tx_packets stats),
         ''  drop_packets: '' @ str_of_int (ct_drop_packets stats),
         ''  drop_parse_errors: '' @ str_of_int (ct_drop_parse_errors stats),
         ''  drop_no_match: '' @ str_of_int (ct_drop_no_match stats),
         ''  rx_bursts: '' @ str_of_int (ct_rx_bursts stats),
         ''  tx_bursts: '' @ str_of_int (ct_tx_bursts stats),
         ''  unsent_packets: '' @ str_of_int (ct_unsent_packets stats)]
      in if ct_rule_hits stats = [] then Inr (counters @ [''  rule_hits: none''])
         else
           (case sorted_hits (ct_rule_hits stats) of
              Inl e \<Rightarrow> Inl (CtlValueError e)
            | Inr hits \<Rightarrow>
                Inr (counters @ ''  rule_hits:'' # map (\<lambda>(k, n). ''    '' @ k @ '': '' @ str_of_int n) hits)))"

definition render_human_stats_lines ::
  "CtlDatapathStatusModel \<Rightarrow> CtlDatapathStatsModel \<Rightarrow> string \<Rightarrow> ctl_error + string" where
  "render_human_stats_lines datapath stats heading = map_sum id lines (stats_lines datapath stats heading)"

definition render_human_stats :: "CtlDatapathStatsResponseModel \<Rightarrow> ctl_error + string" where
  "render_human_stats payload = render_human_stats_lines (cq_datapath payload) (cq_stats payload) ''datapath stats''"

definition render_human_stats_reset :: "CtlDatapathStatsResetResponseModel \<Rightarrow> ctl_error + string" where
  "render_human_stats_reset payload =
     map_sum id (\<lambda>report. lines ((''datapath stats reset: '' @ cz_message payload) # str_splitlines report))
       (render_human_stats_lines (cz_datapath payload) (cz_stats payload) ''post-reset counters'')"

definition render_human_datapath_control :: "string \<Rightarrow> CtlDatapathControlResponseModel \<Rightarrow> string" where
  "render_human_datapath_control action payload =
     (let datapath = cx_datapath payload in
      lines
        ([''datapath '' @ action @ '': '' @ cx_message payload,
          ''  state: '' @ (case cd_state datapath of None \<Rightarrow> ''unknown'' | Some s \<Rightarrow> s),
          ''  socket: '' @ cd_socket_path datapath,
          ''  reachable: '' @ yes_no (cd_reachable datapath),
          ''  ports_ready: '' @ yes_no (cd_ports_ready datapath),
          ''  paused: '' @ yes_no (cd_paused datapath)]
         @ when_text (cd_message datapath) (\<lambda>s. [''  message: '' @ s])))"

definition human_topology_result :: "CtlTopologyOperationResponseModel \<Rightarrow> string" where
  "human_topology_result payload =
     lines
       ([''topology '' @ co_operation payload @ '': '' @ co_message payload,
         ''  applied: '' @ yes_no (co_applied payload),
         ''  datapath_running: '' @ yes_no (co_datapath_running payload)]
        @ when_some (co_topology_name payload) (\<lambda>s. [''  topology: '' @ s])
        @ when_some (co_config_path payload) (\<lambda>s. [''  config_path: '' @ s])
        @ when_some (co_datapath_namespace payload) (\<lambda>s. [''  datapath_namespace: '' @ s]))"

section \<open>Either form\<close>

definition render_status :: "(rat \<Rightarrow> string) \<Rightarrow> bool \<Rightarrow> CtlDatapathStatusResponseModel \<Rightarrow> ctl_error + string" where
  "render_status float_repr json_output payload =
     Inr (if json_output then json_dumps float_repr (CtlDatapathStatusResponse_dump payload) 0
          else render_human_status payload)"

definition render_stats :: "(rat \<Rightarrow> string) \<Rightarrow> bool \<Rightarrow> CtlDatapathStatsResponseModel \<Rightarrow> ctl_error + string" where
  "render_stats float_repr json_output payload =
     (if json_output then Inr (json_dumps float_repr (CtlDatapathStatsResponse_dump payload) 0)
      else render_human_stats payload)"

definition render_stats_reset ::
  "(rat \<Rightarrow> string) \<Rightarrow> bool \<Rightarrow> CtlDatapathStatsResetResponseModel \<Rightarrow> ctl_error + string" where
  "render_stats_reset float_repr json_output payload =
     (if json_output then Inr (json_dumps float_repr (CtlDatapathStatsResetResponse_dump payload) 0)
      else render_human_stats_reset payload)"

definition render_datapath_control ::
  "(rat \<Rightarrow> string) \<Rightarrow> string \<Rightarrow> bool \<Rightarrow> CtlDatapathControlResponseModel \<Rightarrow> ctl_error + string" where
  "render_datapath_control float_repr action json_output payload =
     Inr (if json_output then json_dumps float_repr (CtlDatapathControlResponse_dump payload) 0
          else render_human_datapath_control action payload)"

definition render_topology_result ::
  "(rat \<Rightarrow> string) \<Rightarrow> bool \<Rightarrow> CtlTopologyOperationResponseModel \<Rightarrow> ctl_error + string" where
  "render_topology_result float_repr json_output payload =
     Inr (if json_output then json_dumps float_repr (CtlTopologyOperationResponse_dump payload) 0
          else human_topology_result payload)"

section \<open>Rule hits in order\<close>

lemma keyed_hits_numbers:
  "list_all (\<lambda>x. fst x < 10 ^ int_max_str_digits) hits \<Longrightarrow>
     keyed_hits (map (\<lambda>x. (str_of_nat (fst x), snd x)) hits) =
       Inr (map (\<lambda>x. (int (fst x), str_of_nat (fst x), snd x)) hits)"
  by (induction hits) (simp_all add: int_of_str_str_of_nat)

lemma insort_key_map:
  "(\<And>x. g (f x) = k x) \<Longrightarrow> insort_key g (f x) (map f xs) = map f (insort_key k x xs)"
  by (induction xs) simp_all

lemma sort_key_map: "(\<And>x. g (f x) = k x) \<Longrightarrow> sort_key g (map f xs) = map f (sort_key k xs)"
  by (induction xs) (simp_all add: insort_key_map)



end
