(* ===== verification/Ctl_Commands.thy ===== *)
theory Ctl_Commands
  imports Ctl_Output
begin

text \<open>
  The commands of the tool and their dispatch (\<open>ctl/pktlabctl/commands/\<close>, \<open>cli.py\<close>): what a run
  writes to its two streams and its exit code, or the exception that ends it. The command line as
  \<open>argparse\<close> hands it over is the record \<open>args\<close>.
\<close>

section \<open>Runs\<close>

record cli_run =
  cli_exit :: "ctl_error + int"
  cli_stdout :: string
  cli_stderr :: string

text \<open>The text of an exception, for the ones a command catches and reports.\<close>

fun error_text :: "ctl_error \<Rightarrow> string" where
  "error_text (ControllerClientError m) = m"
| "error_text (CtlValueError m) = m"
| "error_text (CtlSystemExit m) = m"
| "error_text (CtlException e) = []"

definition client_errors :: "ctl_error \<Rightarrow> bool" where
  "client_errors e \<longleftrightarrow> (\<exists>m. e = ControllerClientError m)"

definition client_or_value_errors :: "ctl_error \<Rightarrow> bool" where
  "client_or_value_errors e \<longleftrightarrow> (\<exists>m. e = ControllerClientError m \<or> e = CtlValueError m)"

text \<open>
  \<open>try: payload = call() except <caught> as exc: stderr.write(...); return 1\<close>, then the report, a
  newline and 0.
\<close>

definition run_command ::
  "(ctl_error \<Rightarrow> bool) \<Rightarrow> ('s \<Rightarrow> (ctl_error + 'm) \<times> 's) \<Rightarrow> ('m \<Rightarrow> ctl_error + string) \<Rightarrow> 's \<Rightarrow> cli_run \<times> 's" where
  "run_command caught call render s =
     (case call s of
        (Inl e, s') \<Rightarrow>
          ((if caught e then
              \<lparr>cli_exit = Inr 1, cli_stdout = [], cli_stderr = ''pktlabctl: '' @ error_text e @ [CHR 0x0A]\<rparr>
            else \<lparr>cli_exit = Inl e, cli_stdout = [], cli_stderr = []\<rparr>), s')
      | (Inr payload, s') \<Rightarrow>
          (case render payload of
             Inl e \<Rightarrow> (\<lparr>cli_exit = Inl e, cli_stdout = [], cli_stderr = []\<rparr>, s')
           | Inr report \<Rightarrow>
               (\<lparr>cli_exit = Inr 0, cli_stdout = report @ [CHR 0x0A], cli_stderr = []\<rparr>, s')))"

text \<open>\<open>ControllerClient(controller_url).method(...)\<close>.\<close>

definition with_client ::
  "string \<Rightarrow> (ControllerClient \<Rightarrow> 's \<Rightarrow> (ctl_error + 'm) \<times> 's) \<Rightarrow> 's \<Rightarrow> (ctl_error + 'm) \<times> 's" where
  "with_client controller_url call s =
     (case ControllerClient_init controller_url DEFAULT_TIMEOUT of
        Inl e \<Rightarrow> (Inl e, s)
      | Inr client \<Rightarrow> call client s)"

section \<open>Commands\<close>

definition run_status :: "'s ctl_env \<Rightarrow> string \<Rightarrow> bool \<Rightarrow> 's \<Rightarrow> cli_run \<times> 's" where
  "run_status env controller_url json_output =
     run_command client_errors (with_client controller_url (ctl_get_datapath_status env))
       (render_status (ctl_float_repr env) json_output)"

definition run_stats_show :: "'s ctl_env \<Rightarrow> string \<Rightarrow> bool \<Rightarrow> 's \<Rightarrow> cli_run \<times> 's" where
  "run_stats_show env controller_url json_output =
     run_command client_errors (with_client controller_url (ctl_get_datapath_stats env))
       (render_stats (ctl_float_repr env) json_output)"

definition run_stats_reset :: "'s ctl_env \<Rightarrow> string \<Rightarrow> bool \<Rightarrow> 's \<Rightarrow> cli_run \<times> 's" where
  "run_stats_reset env controller_url json_output =
     run_command client_errors (with_client controller_url (ctl_reset_datapath_stats env))
       (render_stats_reset (ctl_float_repr env) json_output)"

definition run_datapath_pause :: "'s ctl_env \<Rightarrow> string \<Rightarrow> bool \<Rightarrow> 's \<Rightarrow> cli_run \<times> 's" where
  "run_datapath_pause env controller_url json_output =
     run_command client_errors (with_client controller_url (ctl_pause_datapath env))
       (render_datapath_control (ctl_float_repr env) ''pause'' json_output)"

definition run_datapath_resume :: "'s ctl_env \<Rightarrow> string \<Rightarrow> bool \<Rightarrow> 's \<Rightarrow> cli_run \<times> 's" where
  "run_datapath_resume env controller_url json_output =
     run_command client_errors (with_client controller_url (ctl_resume_datapath env))
       (render_datapath_control (ctl_float_repr env) ''resume'' json_output)"

definition run_topology_apply :: "'s ctl_env \<Rightarrow> string \<Rightarrow> string \<Rightarrow> bool \<Rightarrow> 's \<Rightarrow> cli_run \<times> 's" where
  "run_topology_apply env controller_url config_path json_output =
     run_command client_or_value_errors
       (with_client controller_url (\<lambda>client. ctl_apply_topology env client config_path))
       (render_topology_result (ctl_float_repr env) json_output)"

definition run_topology_destroy :: "'s ctl_env \<Rightarrow> string \<Rightarrow> bool \<Rightarrow> 's \<Rightarrow> cli_run \<times> 's" where
  "run_topology_destroy env controller_url json_output =
     run_command client_errors (with_client controller_url (ctl_destroy_topology env))
       (render_topology_result (ctl_float_repr env) json_output)"

section \<open>Dispatch\<close>

text \<open>The namespace \<open>parse_args\<close> returns; an attribute a subcommand does not define is \<open>None\<close>.\<close>

record args =
  ag_controller_url :: string
  ag_json_output :: bool
  ag_command :: string
  ag_stats_command :: "string option"
  ag_datapath_command :: "string option"
  ag_topology_command :: "string option"
  ag_config_path :: string

definition cli_main :: "'s ctl_env \<Rightarrow> args \<Rightarrow> 's \<Rightarrow> cli_run \<times> 's" where
  "cli_main env a s =
     (let url = ag_controller_url a; json = ag_json_output a;
          unsupported = (\<lparr>cli_exit = Inl (CtlSystemExit (''unsupported command: '' @ ag_command a)),
             cli_stdout = [], cli_stderr = []\<rparr>, s)
      in if ag_command a = ''status'' then run_status env url json s
         else if ag_command a = ''stats'' then
           (if ag_stats_command a = Some ''show'' then run_stats_show env url json s
            else if ag_stats_command a = Some ''reset'' then run_stats_reset env url json s
            else unsupported)
         else if ag_command a = ''datapath'' then
           (if ag_datapath_command a = Some ''pause'' then run_datapath_pause env url json s
            else if ag_datapath_command a = Some ''resume'' then run_datapath_resume env url json s
            else unsupported)
         else if ag_command a = ''topology'' then
           (if ag_topology_command a = Some ''apply'' then run_topology_apply env url (ag_config_path a) json s
            else if ag_topology_command a = Some ''destroy'' then run_topology_destroy env url json s
            else unsupported)
         else unsupported)"

text \<open>What the parser accepts: one of the declared commands with one of its subcommands.\<close>

definition parsed :: "args \<Rightarrow> bool" where
  "parsed a \<longleftrightarrow>
     ag_command a = ''status'' \<or>
     ag_command a = ''stats'' \<and> ag_stats_command a \<in> {Some ''show'', Some ''reset''} \<or>
     ag_command a = ''datapath'' \<and> ag_datapath_command a \<in> {Some ''pause'', Some ''resume''} \<or>
     ag_command a = ''topology'' \<and> ag_topology_command a \<in> {Some ''apply'', Some ''destroy''}"

section \<open>Properties\<close>

text \<open>A run that reported, one that complained, and one that an exception ended before it wrote anything.\<close>

definition clean_run :: "cli_run \<Rightarrow> bool" where
  "clean_run r \<longleftrightarrow>
     (case cli_exit r of
        Inl e \<Rightarrow> cli_stdout r = [] \<and> cli_stderr r = []
      | Inr code \<Rightarrow>
          code = 0 \<and> (\<exists>report. cli_stdout r = report @ [CHR 0x0A]) \<and> cli_stderr r = [] \<or>
          code = 1 \<and> cli_stdout r = [] \<and> (\<exists>m. cli_stderr r = ''pktlabctl: '' @ m @ [CHR 0x0A]))"

lemma run_command_clean: "clean_run (fst (run_command caught call render s))"
  by (simp add: run_command_def clean_run_def split: prod.split sum.split)

lemma run_command_raises:
  assumes "cli_exit (fst (run_command caught call render s)) = Inl e"
  shows "fst (call s) = Inl e \<and> \<not> caught e \<or> (\<exists>m. fst (call s) = Inr m \<and> render m = Inl e)"
  using assms by (auto simp: run_command_def split: prod.splits sum.splits if_splits)

lemma request_json_error: "fst (request_json env client verb path body s) = Inl e \<Longrightarrow>
    (\<exists>m. e = ControllerClientError m) \<or> (\<exists>x. e = CtlException x)"
  by (auto simp: request_json_def split: prod.splits http_outcome.splits if_splits response_json.splits pyval.splits)

lemma typed_request_error: "fst (typed_request env client verb path body validate what s) = Inl e \<Longrightarrow>
    (\<exists>m. e = ControllerClientError m) \<or> (\<exists>x. e = CtlException x)"
  using request_json_error [of env client verb path body s e]
  by (auto simp: typed_request_def split: prod.splits sum.splits option.splits)

lemma with_client_error:
  assumes "fst (with_client url call s) = Inl e" and "\<And>client. fst (call client s) = Inl e \<Longrightarrow> P"
    and "str_strip url = [] \<Longrightarrow> e = CtlValueError ''base_url must be a non-empty string'' \<Longrightarrow> P"
  shows P
  using assms by (auto simp: with_client_def ControllerClient_init_def DEFAULT_TIMEOUT_def split: if_splits)

lemma stats_render_error:
  "render_stats f json p = Inl e \<Longrightarrow> \<not> json \<and> (\<exists>m. e = CtlValueError m)"
  "render_stats_reset f json q = Inl e \<Longrightarrow> \<not> json \<and> (\<exists>m. e = CtlValueError m)"
  by (auto simp: render_stats_def render_stats_reset_def render_human_stats_def render_human_stats_reset_def
      render_human_stats_lines_def stats_lines_def Let_def map_sum_def split: if_splits sum.splits)

lemmas command_defs = run_status_def run_stats_show_def run_stats_reset_def run_datapath_pause_def
  run_datapath_resume_def run_topology_apply_def run_topology_destroy_def

lemmas call_defs = ctl_get_datapath_status_def ctl_get_datapath_stats_def ctl_reset_datapath_stats_def
  ctl_pause_datapath_def ctl_resume_datapath_def ctl_destroy_topology_def

lemmas plain_renders = render_status_def render_datapath_control_def render_topology_result_def

text \<open>Which exceptions may leave a command.\<close>

definition may_escape :: "args \<Rightarrow> ctl_error \<Rightarrow> bool" where
  "may_escape a e \<longleftrightarrow>
     (\<exists>x. e = CtlException x) \<or>
     (\<exists>m. e = CtlValueError m) \<and>
       (str_strip (ag_controller_url a) = [] \<and>
          \<not> (ag_command a = ''topology'' \<and> ag_topology_command a = Some ''apply'') \<or>
        ag_command a = ''stats'' \<and> \<not> ag_json_output a)"

lemma plain_command_raises:
  assumes "cli_exit (fst (run_command client_errors (with_client url call) render s)) = Inl e"
    and "\<And>client. fst (call client s) = Inl e \<Longrightarrow> (\<exists>m. e = ControllerClientError m) \<or> (\<exists>x. e = CtlException x)"
    and "\<And>m. render m = Inl e \<Longrightarrow> P"
    and "\<exists>x. e = CtlException x \<Longrightarrow> P"
    and "str_strip url = [] \<Longrightarrow> \<exists>m. e = CtlValueError m \<Longrightarrow> P"
  shows P
  using run_command_raises [OF assms(1)]
proof (elim disjE conjE exE)
  assume "fst (with_client url call s) = Inl e" and "\<not> client_errors e"
  then show P using assms(2,4,5) by (elim with_client_error) (auto simp: client_errors_def)
qed (use assms(3) in blast)

lemma apply_raises:
  assumes "cli_exit (fst (run_topology_apply env url path json s)) = Inl e"
  shows "\<exists>x. e = CtlException x"
  using run_command_raises [OF assms [unfolded run_topology_apply_def]]
proof (elim disjE conjE exE)
  assume "fst (with_client url (\<lambda>client. ctl_apply_topology env client path) s) = Inl e"
    and "\<not> client_or_value_errors e"
  then show ?thesis
    by (elim with_client_error)
      (auto simp: ctl_apply_topology_def client_or_value_errors_def split: if_splits dest!: typed_request_error)
qed (simp add: plain_renders)

text \<open>The exceptions of the commands that catch the client's errors only.\<close>

definition plain_escape :: "string \<Rightarrow> ctl_error \<Rightarrow> bool" where
  "plain_escape url e \<longleftrightarrow> (\<exists>x. e = CtlException x) \<or> str_strip url = [] \<and> (\<exists>m. e = CtlValueError m)"

lemma plain_commands_raise:
  "cli_exit (fst (run_status env url json s)) = Inl e \<Longrightarrow> plain_escape url e"
  "cli_exit (fst (run_datapath_pause env url json s)) = Inl e \<Longrightarrow> plain_escape url e"
  "cli_exit (fst (run_datapath_resume env url json s)) = Inl e \<Longrightarrow> plain_escape url e"
  "cli_exit (fst (run_topology_destroy env url json s)) = Inl e \<Longrightarrow> plain_escape url e"
  unfolding command_defs call_defs
  by (erule plain_command_raises; auto simp: plain_renders plain_escape_def dest: typed_request_error)+

lemma stats_commands_raise:
  "cli_exit (fst (run_stats_show env url json s)) = Inl e \<Longrightarrow>
     plain_escape url e \<or> \<not> json \<and> (\<exists>m. e = CtlValueError m)"
  "cli_exit (fst (run_stats_reset env url json s)) = Inl e \<Longrightarrow>
     plain_escape url e \<or> \<not> json \<and> (\<exists>m. e = CtlValueError m)"
  unfolding command_defs call_defs
  by (erule plain_command_raises; auto simp: plain_escape_def dest: typed_request_error stats_render_error)+

lemma main_raises:
  assumes "parsed a" and "cli_exit (fst (cli_main env a s)) = Inl e"
  shows "may_escape a e"
  using assms
  by (auto simp: parsed_def cli_main_def Let_def may_escape_def plain_escape_def
      dest!: plain_commands_raise stats_commands_raise apply_raises)

lemma cli_main_clean: "clean_run (fst (cli_main env a s))"
  by (simp add: cli_main_def command_defs run_command_clean Let_def) (simp add: clean_run_def)

text \<open>Every command line the parser accepts is dispatched, and its run is clean: the report on the
  standard output and exit code 0, or one line on the standard error and exit code 1, never both; an
  exception that ends it does so before anything is written. Only three kinds escape: what the HTTP
  library raises beside its own error class, a blank controller URL (except for \<open>topology apply\<close>),
  and a rule id that is no number in a report of counters for people.\<close>

theorem runs_are_clean:
  assumes "parsed a"
  shows "clean_run (fst (cli_main env a s)) \<and>
    (\<forall>e. cli_exit (fst (cli_main env a s)) = Inl e \<longrightarrow> may_escape a e)"
proof
  show "clean_run (fst (cli_main env a s))" by (rule cli_main_clean)
  show "\<forall>e. cli_exit (fst (cli_main env a s)) = Inl e \<longrightarrow> may_escape a e"
    by (intro allI impI) (rule main_raises [OF assms])
qed

text \<open>A controller that does not answer.\<close>

definition silent_env :: "unit ctl_env" where
  "silent_env =
     \<lparr>ctl_request = (\<lambda>call s. (Http_error ''timed out'', s)), ctl_raises_for_status = (\<lambda>status. status \<noteq> 200),
      ctl_pydantic = \<lparr>py_str = (\<lambda>_. None), py_int = (\<lambda>_. None), py_bool = (\<lambda>_. None), py_problem = (\<lambda>_ _. [])\<rparr>,
      ctl_float_repr = (\<lambda>_. ''0.0'')\<rparr>"

theorem runs_are_clean_witness:
  "let a = \<lparr>ag_controller_url = ''http://127.0.0.1:8080/'', ag_json_output = False, ag_command = ''datapath'',
         ag_stats_command = None, ag_datapath_command = Some ''pause'', ag_topology_command = None,
         ag_config_path = []\<rparr>;
       r = fst (cli_main silent_env a ())
   in clean_run r \<and> cli_exit r = Inr 1 \<and>
     cli_stderr r = ''pktlabctl: controller request failed for /datapath/pause: timed out'' @ [CHR 0x0A]"
proof -
  let ?a = "\<lparr>ag_controller_url = ''http://127.0.0.1:8080/'', ag_json_output = False, ag_command = ''datapath'',
         ag_stats_command = None, ag_datapath_command = Some ''pause'', ag_topology_command = None,
         ag_config_path = []\<rparr>"
  have "parsed ?a" by (simp add: parsed_def)
  from runs_are_clean [OF this, of silent_env "()"] show ?thesis
    by (simp add: Let_def cli_main_def run_datapath_pause_def run_command_def with_client_def
        ControllerClient_init_def DEFAULT_TIMEOUT_def str_strip_def char_isspace_def ctl_pause_datapath_def
        typed_request_def request_json_def silent_env_def client_errors_def)
qed

end
