(* ===== verification/Ctl_Api.thy ===== *)
theory Ctl_Api
  imports Api Ctl_Commands
begin

text \<open>
  The tool and the controller together: the client reads back exactly the responses the API sends, and
  a command run against the API tells in its exit code and on its streams what the operation did.
\<close>

section \<open>The client's view of the API models\<close>

definition controller_view :: "ControllerHealthModel \<Rightarrow> CtlControllerStatusModel" where
  "controller_view m =
     \<lparr>cs_service = chm_service m, cs_version = chm_version m, cs_state = ControllerState_value (chm_state m),
      cs_message = chm_message m\<rparr>"

definition datapath_view :: "DatapathHealthModel \<Rightarrow> CtlDatapathStatusModel" where
  "datapath_view m =
     \<lparr>cd_managed = dhm_managed m, cd_reachable = dhm_reachable m, cd_socket_path = dhm_socket_path m,
      cd_pid = dhm_pid m, cd_exit_code = dhm_exit_code m, cd_last_error = dhm_last_error m,
      cd_service = dhm_service m, cd_version = dhm_version m, cd_dpdk_version = dhm_dpdk_version m,
      cd_state = map_option DatapathState_value (dhm_state m), cd_message = dhm_message m,
      cd_applied_rule_version = dhm_applied_rule_version m, cd_ports_ready = dhm_ports_ready m,
      cd_paused = dhm_paused m\<rparr>"

definition port_view :: "DatapathPortModel \<Rightarrow> CtlDatapathPortModel" where
  "port_view p =
     \<lparr>cp_name = dpm_name p, cp_port_id = dpm_port_id p, cp_role = PortRole_value (dpm_role p),
      cp_state = DatapathPortState_value (dpm_state p)\<rparr>"

definition stats_view :: "DatapathStatsModel \<Rightarrow> CtlDatapathStatsModel" where
  "stats_view s =
     \<lparr>ct_rx_packets = st_rx_packets s, ct_tx_packets = st_tx_packets s, ct_drop_packets = st_drop_packets s,
      ct_drop_parse_errors = st_drop_parse_errors s, ct_drop_no_match = st_drop_no_match s,
      ct_rx_bursts = st_rx_bursts s, ct_tx_bursts = st_tx_bursts s, ct_unsent_packets = st_unsent_packets s,
      ct_rule_hits = st_rule_hits s\<rparr>"

definition status_view :: "DatapathStatusResponseModel \<Rightarrow> CtlDatapathStatusResponseModel" where
  "status_view m =
     \<lparr>cr_controller = controller_view (srm_controller m), cr_datapath = datapath_view (srm_datapath m),
      cr_ports = map port_view (srm_ports m)\<rparr>"

definition control_view :: "DatapathControlResponseModel \<Rightarrow> CtlDatapathControlResponseModel" where
  "control_view m = \<lparr>cx_datapath = datapath_view (xrm_datapath m), cx_message = xrm_message m\<rparr>"

definition operation_view :: "TopologyOperationResponseModel \<Rightarrow> CtlTopologyOperationResponseModel" where
  "operation_view m =
     \<lparr>co_operation = TopologyOperation_value (orm_operation m), co_topology_name = orm_topology_name m,
      co_config_path = orm_config_path m, co_applied = orm_applied m,
      co_datapath_namespace = orm_datapath_namespace m, co_datapath_running = orm_datapath_running m,
      co_message = orm_message m\<rparr>"

lemma state_value_not_Nil [simp]: "ControllerState_value c \<noteq> []"
  by (cases c) simp_all

lemma role_value_not_Nil [simp]: "PortRole_value r \<noteq> []"
  by (cases r) simp_all

lemma port_state_value_not_Nil [simp]: "DatapathPortState_value p \<noteq> []"
  by (cases p) simp_all

lemma operation_value_not_Nil [simp]: "TopologyOperation_value t \<noteq> []"
  by (cases t) simp_all

lemma json_opt_map: "json_opt (\<lambda>x. f (g x)) v = opt_value f (map_option g v)" "json_opt f v = opt_value f v"
  by (cases v; simp add: json_opt_def opt_value_def)+

text \<open>The views print as the models do.\<close>

lemma datapath_view_dump: "CtlDatapathStatus_dump (datapath_view m) = DatapathHealthModel_dump m"
  by (simp add: CtlDatapathStatus_dump_def datapath_view_def DatapathHealthModel_dump_def json_opt_map(2))
    (cases "dhm_state m"; simp add: opt_value_def)

lemma view_dumps:
  "CtlControllerStatus_dump (controller_view c) = ControllerHealthModel_dump c"
  "CtlDatapathPort_dump (port_view p) = DatapathPortModel_dump p"
  "CtlDatapathStats_dump (stats_view s) = DatapathStatsModel_dump s"
  "CtlTopologyOperationResponse_dump (operation_view t) = TopologyOperationResponseModel_dump t"
  by (simp_all add: CtlControllerStatus_dump_def controller_view_def ControllerHealthModel_dump_def
      CtlDatapathPort_dump_def port_view_def DatapathPortModel_dump_def CtlDatapathStats_dump_def stats_view_def
      DatapathStatsModel_dump_def CtlTopologyOperationResponse_dump_def operation_view_def
      TopologyOperationResponseModel_dump_def json_opt_map(2))

lemma response_dumps:
  "CtlDatapathStatusResponse_dump (status_view m) = DatapathStatusResponseModel_dump m"
  "CtlDatapathControlResponse_dump (control_view x) = DatapathControlResponseModel_dump x"
  by (simp_all add: CtlDatapathStatusResponse_dump_def status_view_def DatapathStatusResponseModel_dump_def
      view_dumps datapath_view_dump CtlDatapathControlResponse_dump_def control_view_def
      DatapathControlResponseModel_dump_def o_def)

section \<open>Reading responses\<close>

lemma port_models_valid: "sum_map port_model ps = Inr ms \<Longrightarrow> list_all DatapathPortModel_ok ms"
  by (induction ps arbitrary: ms)
    (auto simp: sum_bind_def port_model_def validated_def split: sum.splits if_splits)

text \<open>What is relied on of pydantic: a JSON string is read as itself by a \<open>str\<close> field, a number by an
  \<open>int\<close> field, a truth value by a \<open>bool\<close> field. What it makes of other values does not matter.\<close>

locale scalar_reader =
  fixes py :: pydantic
  assumes read_str [simp]: "py_str py (PStr s) = Some s"
    and read_int [simp]: "py_int py (PInt i) = Some i"
    and read_bool [simp]: "py_bool py (PBool b) = Some b"
begin

lemma read_opt [simp]:
  "nullable (py_str py) (json_opt PStr x) = Some x"
  "nullable (py_int py) (json_opt PInt i) = Some i"
  "nullable (py_str py) (json_opt (\<lambda>y. PStr (DatapathState_value y)) v) = Some (map_option DatapathState_value v)"
  by (simp_all add: nullable_def json_opt_def split: option.split)

lemma read_bounded [simp]:
  "(case i of None \<Rightarrow> True | Some n \<Rightarrow> P n) \<Longrightarrow> nullable (such_that P (py_int py)) (json_opt PInt i) = Some i"
  by (cases i) (simp_all add: nullable_def json_opt_def such_that_def)

lemma read_such_that [simp]:
  "such_that P (py_int py) (PInt i) = (if P i then Some i else None)"
  "such_that Q (py_str py) (PStr s) = (if Q s then Some s else None)"
  by (simp_all add: such_that_def)

lemma read_counts [simp]: "counts_of (py_int py) (PDict (map (\<lambda>(k, n). (k, PInt n)) hits)) = Some hits"
proof -
  have "those (map (\<lambda>(k, x). map_option (Pair k) (py_int py x)) (map (\<lambda>(k, n). (k, PInt n)) hits)) = Some hits"
    by (induction hits) auto
  then show ?thesis by (simp add: counts_of_def)
qed

lemma read_controller:
  assumes "chm_service m \<noteq> []" and "chm_version m \<noteq> []" and "chm_message m \<noteq> []"
  shows "ControllerStatusModel_validate py (ControllerHealthModel_dump m) = Some (controller_view m)"
  using assms
  by (simp add: ControllerStatusModel_validate_def ControllerHealthModel_dump_def fields_of_def field_def
      controller_view_def)

lemma read_datapath:
  assumes "DatapathHealthModel_ok m"
  shows "DatapathStatusModel_validate py (DatapathHealthModel_dump m) = Some (datapath_view m)"
  using assms
  by (simp add: DatapathStatusModel_validate_def DatapathHealthModel_dump_def fields_of_def field_def field_or_def
      datapath_view_def DatapathHealthModel_ok_def)

lemma read_stats:
  assumes "DatapathStatsModel_ok s"
  shows "CtlDatapathStats_validate py (DatapathStatsModel_dump s) = Some (stats_view s)"
  using assms
  by (simp add: CtlDatapathStats_validate_def DatapathStatsModel_dump_def fields_of_def field_def field_or_def
      stats_view_def DatapathStatsModel_ok_def)

lemma read_port:
  assumes "DatapathPortModel_ok p"
  shows "CtlDatapathPort_validate py (DatapathPortModel_dump p) = Some (port_view p)"
  using assms
  by (simp add: CtlDatapathPort_validate_def DatapathPortModel_dump_def fields_of_def field_def port_view_def
      DatapathPortModel_ok_def)

lemma read_operation:
  assumes "orm_message m \<noteq> []"
  shows "CtlTopologyOperationResponse_validate py (TopologyOperationResponseModel_dump m) = Some (operation_view m)"
  using assms
  by (simp add: CtlTopologyOperationResponse_validate_def TopologyOperationResponseModel_dump_def fields_of_def
      field_def field_or_def operation_view_def)

lemma read_ports: "list_all DatapathPortModel_ok ps \<Longrightarrow>
    list_of (CtlDatapathPort_validate py) (PList (map DatapathPortModel_dump ps)) = Some (map port_view ps)"
  by (induction ps) (simp_all add: list_of_def read_port)

lemma read_status:
  assumes "DatapathStatusResponse_from_snapshot x = Inr m"
  shows "CtlDatapathStatusResponse_validate py (DatapathStatusResponseModel_dump m) = Some (status_view m)"
proof -
  have ok: "chm_service (srm_controller m) \<noteq> []" "chm_version (srm_controller m) \<noteq> []"
    "chm_message (srm_controller m) \<noteq> []" "DatapathHealthModel_ok (srm_datapath m)"
    "list_all DatapathPortModel_ok (srm_ports m)"
    using assms port_models_valid [of "ds_ports x" "srm_ports m"]
    by (auto simp: DatapathStatusResponse_from_snapshot_def HealthResponse_from_snapshot_def sum_bind_def
        mk_ControllerHealthModel_def datapath_health_model_from_status_def validated_def
        split: sum.splits if_splits)
  show ?thesis
    by (simp add: CtlDatapathStatusResponse_validate_def DatapathStatusResponseModel_dump_def fields_of_def
        field_def read_controller read_datapath read_ports ok status_view_def)
qed

lemma read_control:
  assumes "DatapathControlResponse_from_result x = Inr m"
  shows "CtlDatapathControlResponse_validate py (DatapathControlResponseModel_dump m) = Some (control_view m)"
proof -
  have ok: "DatapathHealthModel_ok (xrm_datapath m)" "xrm_message m \<noteq> []"
    using assms by (auto simp: DatapathControlResponse_from_result_def sum_bind_def
        datapath_health_model_from_status_def validated_def split: sum.splits if_splits)
  then show ?thesis
    by (simp add: CtlDatapathControlResponse_validate_def DatapathControlResponseModel_dump_def fields_of_def
        field_def read_datapath control_view_def)
qed

lemma read_topology:
  "TopologyOperationResponse_from_result x = Inr m \<Longrightarrow>
     CtlTopologyOperationResponse_validate py (TopologyOperationResponseModel_dump m) = Some (operation_view m)"
  by (rule read_operation) (auto simp: TopologyOperationResponse_from_result_def validated_def split: if_splits)

lemma read_stats_response:
  assumes "DatapathStatsResponse_from_snapshot x = Inr m"
  shows "\<exists>c. CtlDatapathStatsResponse_validate py (DatapathStatsResponseModel_dump m) = Some c \<and>
    CtlDatapathStatsResponse_dump c = DatapathStatsResponseModel_dump m"
proof -
  have ok: "DatapathHealthModel_ok (trm_datapath m)" "DatapathStatsModel_ok (trm_stats m)"
    using assms by (auto simp: DatapathStatsResponse_from_snapshot_def sum_bind_def api_stats_def
        datapath_health_model_from_status_def validated_def split: sum.splits if_splits)
  then show ?thesis
    by (simp add: CtlDatapathStatsResponse_validate_def DatapathStatsResponseModel_dump_def fields_of_def
        field_def read_datapath read_stats CtlDatapathStatsResponse_dump_def datapath_view_dump view_dumps)
qed

lemma read_reset_response:
  assumes "DatapathStatsResetResponse_from_result x = Inr m"
  shows "\<exists>c. CtlDatapathStatsResetResponse_validate py (DatapathStatsResetResponseModel_dump m) = Some c \<and>
    CtlDatapathStatsResetResponse_dump c = DatapathStatsResetResponseModel_dump m"
proof -
  have ok: "DatapathHealthModel_ok (rrm_datapath m)" "DatapathStatsModel_ok (rrm_stats m)" "rrm_message m \<noteq> []"
    using assms by (auto simp: DatapathStatsResetResponse_from_result_def sum_bind_def api_stats_def
        datapath_health_model_from_status_def validated_def split: sum.splits if_splits)
  then show ?thesis
    by (simp add: CtlDatapathStatsResetResponse_validate_def DatapathStatsResetResponseModel_dump_def fields_of_def
        field_def read_datapath read_stats CtlDatapathStatsResetResponse_dump_def datapath_view_dump view_dumps)
qed

end

text \<open>A reader that takes values of the exact type only.\<close>

definition strict_pydantic :: pydantic where
  "strict_pydantic =
     \<lparr>py_str = (\<lambda>v. case v of PStr s \<Rightarrow> Some s | _ \<Rightarrow> None), py_int = (\<lambda>v. case v of PInt i \<Rightarrow> Some i | _ \<Rightarrow> None),
      py_bool = (\<lambda>v. case v of PBool b \<Rightarrow> Some b | _ \<Rightarrow> None), py_problem = (\<lambda>_ _. ''invalid'')\<rparr>"

interpretation strict: scalar_reader strict_pydantic
  by unfold_locales (simp_all add: strict_pydantic_def)

section \<open>Commands against the API\<close>

fun received :: "http_body \<Rightarrow> response_json" where
  "received (Json v) = Json_value v"
| "received (Text t) = Json_invalid"

text \<open>What a run tells about the operation behind it.\<close>

definition told ::
  "'s ctl_env \<Rightarrow> (PktlabError \<Rightarrow> HTTPException) \<Rightarrow> string \<Rightarrow> ('s, 'x) prog \<Rightarrow> ('s \<Rightarrow> cli_run \<times> 's) \<Rightarrow>
   's \<Rightarrow> bool" where
  "told tool to_http path operation run s \<longleftrightarrow>
     (\<forall>r s'. operation s = Some (r, s') \<longrightarrow>
        (case r of
           Inr x \<Rightarrow>
             \<exists>report. run s = (\<lparr>cli_exit = Inr 0, cli_stdout = report @ [CHR 0x0A], cli_stderr = []\<rparr>, s')
         | Inl e \<Rightarrow>
             \<exists>m. run s = (\<lparr>cli_exit = Inr 1, cli_stdout = [],
                 cli_stderr = ''pktlabctl: controller returned HTTP '' @ m @ [CHR 0x0A]\<rparr>, s') \<and>
               (\<forall>error. e = Pktlab error \<longrightarrow>
                  m = str_of_int (he_status_code (to_http error)) @ '' for '' @ path @ '': ''
                    @ py_repr (ctl_float_repr tool) (PDict (PktlabError_to_dict error)))))"

lemma told_error:
  "told tool to_http path operation run s \<Longrightarrow> operation s = Some (Inl (Pktlab error), s') \<Longrightarrow>
     run s = (\<lparr>cli_exit = Inr 1, cli_stdout = [],
       cli_stderr = ''pktlabctl: controller returned HTTP '' @ str_of_int (he_status_code (to_http error)) @ '' for ''
         @ path @ '': '' @ py_repr (ctl_float_repr tool) (PDict (PktlabError_to_dict error)) @ [CHR 0x0A]\<rparr>, s')"
  by (fastforce simp: told_def)

text \<open>
  What is relied on of FastAPI and httpx: a model is sent with status 200, an HTTP error with its status
  and its detail, any other exception as status 500; \<open>raise_for_status\<close> accepts the 2xx statuses; a
  request that is answered in time is the API's response, JSON bodies unchanged.
\<close>

locale tool_on_api = controller_world env cfg + scalar_reader "ctl_pydantic tool"
  for env :: "'w controller_env" and cfg and tool :: "(current \<times> ControllerRuntime \<times> 'w) ctl_env" +
  fixes fw :: framework
  assumes respond_model: "fw_respond fw (Inr (Inr v)) = \<lparr>rs_status = 200, rs_body = Json v\<rparr>"
    and respond_http: "fw_respond fw (Inr (Inl h)) =
      \<lparr>rs_status = he_status_code h, rs_body = Json (PDict [(''detail'', he_detail h)])\<rparr>"
    and respond_error: "rs_status (fw_respond fw (Inl e)) = 500"
    and refuses: "ctl_raises_for_status tool status \<longleftrightarrow> \<not> (200 \<le> status \<and> status < 300)"
    and delivered: "api_app fw env cfg verb path body s = Some (Inr r, s') \<Longrightarrow>
      ctl_request tool \<lparr>hc_base_url = url, hc_timeout = t, hc_method = verb, hc_path = path, hc_json = body\<rparr> s =
        (Http_response (rs_status r) (received (rs_body r)), s')"
begin

lemma refused_error:
  assumes "ctl_request tool \<lparr>hc_base_url = cc_base_url client, hc_timeout = cc_timeout_seconds client,
      hc_method = verb, hc_path = path, hc_json = body\<rparr> s = (Http_response status b, s')"
    and "300 \<le> status"
  shows "typed_request tool client verb path body validate what s =
    (Inl (ControllerClientError (''controller returned HTTP '' @ str_of_int status @ '' for '' @ path
       @ error_detail (ctl_float_repr tool) b)), s')"
  using assms by (simp add: typed_request_def request_json_def refuses)

lemma accepted_model:
  assumes "ctl_request tool \<lparr>hc_base_url = cc_base_url client, hc_timeout = cc_timeout_seconds client,
      hc_method = verb, hc_path = path, hc_json = body\<rparr> s = (Http_response 200 (Json_value (PDict d)), s')"
    and "validate (ctl_pydantic tool) (PDict d) = Some m"
  shows "typed_request tool client verb path body validate what s = (Inr m, s')"
  using assms by (simp add: typed_request_def request_json_def refuses)

lemma route_told:
  assumes route: "api_app fw env cfg verb path body s = serve fw dump (handler to_http from_result operation) s"
    and faith: "faithful to_http operation (handler to_http from_result operation) s"
    and status: "\<And>error. 300 \<le> he_status_code (to_http error)"
      "\<And>error. he_detail (to_http error) = PDict (PktlabError_to_dict error)"
    and dict: "\<And>m. \<exists>d. dump m = PDict d"
    and reads: "\<And>x m. from_result x = Inr m \<Longrightarrow> validate (ctl_pydantic tool) (dump m) = Some (view m)"
    and render: "\<And>m. \<exists>report. render m = Inr report"
    and caught: "\<And>m. caught (ControllerClientError m)"
  shows "told tool to_http path operation
    (run_command caught (\<lambda>s. typed_request tool client verb path body validate what s) render) s"
  unfolding told_def
proof (intro allI impI)
  fix r s' assume op: "operation s = Some (r, s')"
  show "case r of
      Inr x \<Rightarrow> \<exists>report. run_command caught (\<lambda>s. typed_request tool client verb path body validate what s) render s =
          (\<lparr>cli_exit = Inr 0, cli_stdout = report @ [CHR 0x0A], cli_stderr = []\<rparr>, s')
    | Inl e \<Rightarrow> \<exists>m. run_command caught (\<lambda>s. typed_request tool client verb path body validate what s) render s =
          (\<lparr>cli_exit = Inr 1, cli_stdout = [],
            cli_stderr = ''pktlabctl: controller returned HTTP '' @ m @ [CHR 0x0A]\<rparr>, s') \<and>
        (\<forall>error. e = Pktlab error \<longrightarrow>
           m = str_of_int (he_status_code (to_http error)) @ '' for '' @ path @ '': ''
             @ py_repr (ctl_float_repr tool) (PDict (PktlabError_to_dict error)))"
  proof (cases r)
    case (Inr x)
    with faith op obtain m where "handler to_http from_result operation s = Some (Inr (Inr m), s')"
      by (auto simp: faithful_def)
    moreover from this op Inr have m: "from_result x = Inr m"
      by (auto simp: handler_def bind_def attempt_def lift_sum_def ret_def split: sum.splits)
    moreover obtain d where d: "dump m = PDict d" using dict by blast
    ultimately have "api_app fw env cfg verb path body s = Some (Inr \<lparr>rs_status = 200, rs_body = Json (PDict d)\<rparr>, s')"
      by (simp add: route serve_def bind_def attempt_def ret_def respond_model)
    from delivered [OF this] have "typed_request tool client verb path body validate what s = (Inr (view m), s')"
      using reads [OF m] by (intro accepted_model) (simp_all add: d)
    with render [of "view m"] Inr show ?thesis by (auto simp: run_command_def)
  next
    case (Inl e)
    define resp where "resp = (case e of Pktlab error \<Rightarrow> fw_respond fw (Inr (Inl (to_http error))) | _ \<Rightarrow> fw_respond fw (Inl e))"
    have app: "api_app fw env cfg verb path body s = Some (Inr resp, s')"
      using faith op Inl by (auto simp: faithful_def route serve_def bind_def attempt_def ret_def resp_def
          split: exn.splits)
    have big: "300 \<le> rs_status resp" using status(1)
      by (simp add: resp_def respond_http respond_error split: exn.split)
    from refused_error [OF delivered [OF app] big, where validate = validate and what = what and client = client]
    show ?thesis
      using Inl status(2) caught
      by (auto simp: run_command_def resp_def respond_http error_detail_def str_of_value_def)
  qed
qed

lemma topology_errors:
  "300 \<le> he_status_code (topology_to_http_exception error)"
  "he_detail (topology_to_http_exception error) = PDict (PktlabError_to_dict error)"
  by (simp_all add: topology_to_http_exception_def)

lemma datapath_errors:
  "300 \<le> he_status_code (datapath_to_http_exception error)"
  "he_detail (datapath_to_http_exception error) = PDict (PktlabError_to_dict error)"
  by (simp_all add: datapath_to_http_exception_def)

lemma caught_client: "client_errors (ControllerClientError m)" "client_or_value_errors (ControllerClientError m)"
  by (simp_all add: client_errors_def client_or_value_errors_def)

lemma with_client_ok: "str_strip url \<noteq> [] \<Longrightarrow> with_client url call =
    call \<lparr>cc_base_url = rstrip_slash url, cc_timeout_seconds = DEFAULT_TIMEOUT\<rparr>"
  by (rule ext) (simp add: with_client_def ControllerClient_init_def DEFAULT_TIMEOUT_def)

lemma commands_told:
  assumes "controller_inv s" and "str_strip url \<noteq> []"
  shows "told tool datapath_to_http_exception ''/datapath/status'' (on_snd (datapath_status_snapshot env cfg))
      (run_status tool url json) s"
    and "told tool datapath_to_http_exception ''/datapath/pause'' (on_snd (pause_datapath_runtime env cfg))
      (run_datapath_pause tool url json) s"
    and "told tool datapath_to_http_exception ''/datapath/resume'' (on_snd (resume_datapath_runtime env cfg))
      (run_datapath_resume tool url json) s"
    and "told tool topology_to_http_exception ''/topology/destroy'' (destroy_topology env cfg)
      (run_topology_destroy tool url json) s"
    and "str_strip path \<noteq> [] \<Longrightarrow> told tool topology_to_http_exception ''/topology/apply''
      (apply_topology env cfg path) (run_topology_apply tool url path json) s"
proof -
  note faith = routes_shown [OF assms(1), unfolded get_datapath_status_route_def pause_datapath_route_def
      resume_datapath_route_def]
  have topology: "faithful topology_to_http_exception operation
      (handler topology_to_http_exception TopologyOperationResponse_from_result operation) s"
    if "yields (\<lambda>r. tr_message r \<noteq> []) operation" for operation
    using that by (intro handler_faithful topology_message_ok) (auto dest: yieldsD)
  show "told tool datapath_to_http_exception ''/datapath/status'' (on_snd (datapath_status_snapshot env cfg))
      (run_status tool url json) s"
    unfolding run_status_def with_client_ok [OF assms(2)] ctl_get_datapath_status_def
    by (rule route_told [where dump = DatapathStatusResponseModel_dump and view = status_view and validate = CtlDatapathStatusResponse_validate,
        OF _ faith(1) datapath_errors _ read_status])
      (simp_all add: api_app_def get_datapath_status_route_def DatapathStatusResponseModel_dump_def
        render_status_def caught_client)
  show "told tool datapath_to_http_exception ''/datapath/pause'' (on_snd (pause_datapath_runtime env cfg))
      (run_datapath_pause tool url json) s"
    unfolding run_datapath_pause_def with_client_ok [OF assms(2)] ctl_pause_datapath_def
    by (rule route_told [where dump = DatapathControlResponseModel_dump and view = control_view and validate = CtlDatapathControlResponse_validate,
        OF _ faith(2) datapath_errors _ read_control])
      (simp_all add: api_app_def pause_datapath_route_def DatapathControlResponseModel_dump_def
        render_datapath_control_def caught_client)
  show "told tool datapath_to_http_exception ''/datapath/resume'' (on_snd (resume_datapath_runtime env cfg))
      (run_datapath_resume tool url json) s"
    unfolding run_datapath_resume_def with_client_ok [OF assms(2)] ctl_resume_datapath_def
    by (rule route_told [where dump = DatapathControlResponseModel_dump and view = control_view and validate = CtlDatapathControlResponse_validate,
        OF _ faith(3) datapath_errors _ read_control])
      (simp_all add: api_app_def resume_datapath_route_def DatapathControlResponseModel_dump_def
        render_datapath_control_def caught_client)
  show "told tool topology_to_http_exception ''/topology/destroy'' (destroy_topology env cfg)
      (run_topology_destroy tool url json) s"
    unfolding run_topology_destroy_def with_client_ok [OF assms(2)] ctl_destroy_topology_def
    by (rule route_told [where dump = TopologyOperationResponseModel_dump and view = operation_view and validate = CtlTopologyOperationResponse_validate,
        OF _ topology [OF yields_topology(2)] topology_errors _ read_topology])
      (simp_all add: api_app_def destroy_topology_route_def TopologyOperationResponseModel_dump_def
        render_topology_result_def caught_client)
  assume path: "str_strip path \<noteq> []"
  then have "path \<noteq> []" by (auto simp: str_strip_def)
  with path have applied: "ctl_apply_topology tool client path = typed_request tool client ''POST'' ''/topology/apply''
      (Some (PDict [(''config_path'', PStr path)])) CtlTopologyOperationResponse_validate ''topology apply''" for client
    by (intro ext) (simp add: ctl_apply_topology_def)
  show "told tool topology_to_http_exception ''/topology/apply'' (apply_topology env cfg path)
      (run_topology_apply tool url path json) s"
    unfolding run_topology_apply_def with_client_ok [OF assms(2)] applied
    by (rule route_told [where dump = TopologyOperationResponseModel_dump and view = operation_view and validate = CtlTopologyOperationResponse_validate,
        OF _ topology [OF yields_topology(1)] topology_errors _ read_topology])
      (use \<open>path \<noteq> []\<close> in \<open>simp_all add: api_app_def TopologyApplyRequest_validate_def apply_topology_route_def
        TopologyOperationResponseModel_dump_def render_topology_result_def caught_client\<close>)
qed

end

section \<open>A tool wired to the API\<close>

definition direct_tool ::
  "'w controller_env \<Rightarrow> ControllerConfig \<Rightarrow> (current \<times> ControllerRuntime \<times> 'w) ctl_env" where
  "direct_tool env cfg =
     \<lparr>ctl_request = (\<lambda>call s.
        case api_app plain_framework env cfg (hc_method call) (hc_path call) (hc_json call) s of
          Some (Inr r, s') \<Rightarrow> (Http_response (rs_status r) (received (rs_body r)), s')
        | _ \<Rightarrow> (Http_error ''timed out'', s)),
      ctl_raises_for_status = (\<lambda>status. \<not> (200 \<le> status \<and> status < 300)),
      ctl_pydantic = strict_pydantic, ctl_float_repr = (\<lambda>_. ''0.0'')\<rparr>"

interpretation direct: tool_on_api bare_env lab_config "direct_tool bare_env lab_config" plain_framework
proof -
  have "ctl_pydantic (direct_tool bare_env lab_config) = strict_pydantic" by (simp add: direct_tool_def)
  then show "tool_on_api bare_env lab_config (direct_tool bare_env lab_config) plain_framework"
    by (intro tool_on_api.intro bare.controller_world_axioms tool_on_api_axioms.intro)
      (simp_all add: strict.scalar_reader_axioms, simp_all add: plain_framework_def direct_tool_def)
qed

lemma bare_apply_error:
  "\<exists>rt s'. controller_init lab_config None = Inr rt \<and>
     apply_topology bare_env lab_config ''lab.yaml'' (None, rt, w) =
       Some (Inl (Pktlab (mk_ConfigParseError ''unable to read topology config'' None)), s')"
  by (simp add: controller_init_def lab_config_def build_supervisor_config_def SupervisorConfig_post_init_def
      str_strip_def char_isspace_def apply_topology_def then_do_def bind_def on_snd_def modify_def get_fst_def
      put_fst_def begin_operation_def set_health_def attempt_def manager_apply_def controller_manager_def
      bare_env_def raise_def apply_rejected_def current_datapath_status_def ret_def has_applied_topology_def
      observe_def lift_sum_def observed_from_datapath_def unmanaged_datapath_status_def default_status_def
      ObservedState_post_init_def validate_optional_non_negative_def validate_optional_positive_def
      set_override_def recompute_def recompute_controller_health_def Let_def)

section \<open>Properties\<close>





end
