(* ===== verification/Argparse.thy ===== *)
theory Argparse
  imports Py_Number
begin

text \<open>
  The part of the standard library's \<open>argparse\<close> the two entry points use: options with no argument or
  with one, long and short spellings, \<open>--option=value\<close>, unique prefixes of long options, the help option,
  defaults, required options, and one layer of subcommands in another. The texts it prints are not modelled,
  only which of its endings a command line leads to.
\<close>

section \<open>Parsers\<close>

datatype arg_value = Arg_str string | Arg_int int | Arg_float py_float | Arg_bool bool | Arg_none

text \<open>\<open>action="store"\<close>, \<open>action="store_true"\<close> and the help option every parser has.\<close>

datatype action_kind = Store | Store_true | Show_help

text \<open>The type function of an option gives no value when the conversion raises \<open>ValueError\<close>. A help option
  has no attribute of the namespace, so it has no destination.\<close>

record arg_option =
  op_strings :: "string list"
  op_dest :: "string option"
  op_action :: action_kind
  op_type :: "string \<Rightarrow> arg_value option"
  op_choices :: "string list option"
  op_required :: bool
  op_default :: arg_value

text \<open>\<open>add_subparsers(dest=..., required=True)\<close> and the parsers added to it.\<close>

datatype arg_parser =
  Parser (ap_options: "arg_option list") (ap_subparsers: "(string \<times> (string \<times> arg_parser) list) option")

definition help_option :: arg_option where
  "help_option =
     \<lparr>op_strings = [''-h'', ''--help''], op_dest = None, op_action = Show_help, op_type = \<lambda>s. Some (Arg_str s),
      op_choices = None, op_required = False, op_default = Arg_none\<rparr>"

lemma help_fields [simp]:
  "op_strings help_option = [''-h'', ''--help'']" "op_dest help_option = None" "op_action help_option = Show_help"
  "op_required help_option = False"
  by (simp_all add: help_option_def)

type_synonym namespace = "string \<rightharpoonup> arg_value"

text \<open>The ways a parser ends the program: the help option, with status 0, and its errors, with status 2.\<close>

datatype usage_error =
    Ambiguous_option string
  | Expected_one_argument string
  | Ignored_explicit_argument string
  | Invalid_value string
  | Invalid_choice string
  | Arguments_required "string list"
  | Unrecognized_arguments "string list"

datatype parser_exit = Help_shown | Usage_error usage_error

fun exit_status :: "parser_exit \<Rightarrow> int" where
  "exit_status Help_shown = 0"
| "exit_status (Usage_error e) = 2"

text \<open>\<open>os.getenv(name, default)\<close>, where the defaults of some options come from.\<close>

definition getenv :: "(string \<rightharpoonup> string) \<Rightarrow> string \<Rightarrow> string \<Rightarrow> string" where
  "getenv environ name value = (case environ name of None \<Rightarrow> value | Some v \<Rightarrow> v)"

section \<open>What an argument may be\<close>

text \<open>\<open>_option_string_actions\<close>, in the order of the declarations.\<close>

definition option_string_actions :: "arg_option list \<Rightarrow> (string \<times> arg_option) list" where
  "option_string_actions opts = concat (map (\<lambda>opt. map (\<lambda>name. (name, opt)) (op_strings opt)) opts)"

text \<open>The option an argument names, how it is spelled there, and the text attached to it with the separator
  before it.\<close>

type_synonym option_tuple = "arg_option option \<times> string \<times> (string \<times> string) option"

definition starts_with :: "string \<Rightarrow> string \<Rightarrow> bool" where
  "starts_with s prefix \<longleftrightarrow> take (length prefix) s = prefix"

definition get_option_tuples :: "arg_option list \<Rightarrow> string \<Rightarrow> option_tuple list" where
  "get_option_tuples opts s =
     (if starts_with s ''--'' then
        (case str_partition (CHR ''='') s of
           (prefix, sep, explicit) \<Rightarrow>
             map (\<lambda>(name, opt). (Some opt, name, if sep then Some (''='', explicit) else None))
               (filter (\<lambda>(name, opt). starts_with name prefix) (option_string_actions opts)))
      else
        concat (map (\<lambda>(name, opt).
            if name = take 2 s then [(Some opt, name, Some ('''', drop 2 s))]
            else if starts_with name s then [(Some opt, name, None)] else [])
          (option_string_actions opts)))"

text \<open>\<open>^-\d+$|^-\d*\.\d+$\<close>, where the dollar sign also matches before a final newline.\<close>

definition looks_negative :: "string \<Rightarrow> bool" where
  "looks_negative s =
     (let t = (if s \<noteq> [] \<and> last s = CHR 0x0A then butlast s else s) in
      case t of
        [] \<Rightarrow> False
      | c # body \<Rightarrow>
          c = CHR ''-'' \<and>
          (case str_partition (CHR ''.'') body of
             (whole, point, fraction) \<Rightarrow>
               if point then list_all char_isdecimal whole \<and> str_isdecimal fraction else str_isdecimal body))"

text \<open>\<open>_parse_optional\<close>: no value for what is a positional argument.\<close>

definition parse_optional :: "arg_option list \<Rightarrow> string \<Rightarrow> usage_error + option_tuple option" where
  "parse_optional opts s =
     (if s = [] \<or> hd s \<noteq> CHR ''-'' then Inr None
      else
        case map_of (option_string_actions opts) s of
          Some opt \<Rightarrow> Inr (Some (Some opt, s, None))
        | None \<Rightarrow>
            if length s = 1 then Inr None
            else
              (case str_partition (CHR ''='') s of
                 (name, sep, explicit) \<Rightarrow>
                   (case (if sep then map_of (option_string_actions opts) name else None) of
                      Some opt \<Rightarrow> Inr (Some (Some opt, name, Some (''='', explicit)))
                    | None \<Rightarrow>
                        (case get_option_tuples opts s of
                           [] \<Rightarrow>
                             if looks_negative s \<or> CHR '' '' \<in> set s then Inr None else Inr (Some (None, s, None))
                         | [t] \<Rightarrow> Inr (Some t)
                         | _ \<Rightarrow> Inl (Ambiguous_option s)))))"

text \<open>The letters \<open>A\<close>, \<open>-\<close> and \<open>O\<close> of the pattern; everything after \<open>--\<close> is an argument.\<close>

datatype arg_class = Argument | Dashes | Option option_tuple

fun classify :: "arg_option list \<Rightarrow> string list \<Rightarrow> usage_error + (string \<times> arg_class) list" where
  "classify opts [] = Inr []"
| "classify opts (s # rest) =
     (if s = ''--'' then Inr ((s, Dashes) # map (\<lambda>a. (a, Argument)) rest)
      else
        case parse_optional opts s of
          Inl e \<Rightarrow> Inl e
        | Inr t \<Rightarrow>
            map_sum id (Cons (s, case t of None \<Rightarrow> Argument | Some t \<Rightarrow> Option t)) (classify opts rest))"

section \<open>Consuming arguments\<close>

definition single_dash :: "string \<Rightarrow> bool" where
  "single_dash s \<longleftrightarrow> \<not> starts_with s ''--''"

text \<open>The loop of \<open>consume_optional\<close>: the options one argument stands for, each with its argument, the
  text that belongs to none, and what is left. A short option without argument may be followed by others
  in the same argument.\<close>

type_synonym consumed = "(arg_option \<times> string option) list \<times> string list \<times> (string \<times> arg_class) list"

fun attached :: "string \<Rightarrow> (string \<times> string) option" where
  "attached [] = None"
| "attached (c # cs) = Some (if c = CHR ''='' then (''='', cs) else ('''', c # cs))"

lemma attached_shorter:
  "s \<noteq> [] \<Longrightarrow> (case attached (tl s) of None \<Rightarrow> 0 | Some (sep, e) \<Rightarrow> Suc (length e)) < Suc (length s)"
  by (cases s; cases "tl s") auto

function match_option ::
  "arg_option list \<Rightarrow> arg_option \<Rightarrow> string \<Rightarrow> (string \<times> string) option \<Rightarrow> (string \<times> arg_class) list \<Rightarrow>
   usage_error + consumed" where
  "match_option opts opt name None rest =
     (if op_action opt \<noteq> Store then Inr ([(opt, None)], [], rest)
      else
        case rest of
          (v, Argument) # rest' \<Rightarrow> Inr ([(opt, Some v)], [], rest')
        | _ \<Rightarrow> Inl (Expected_one_argument name))"
| "match_option opts opt name (Some (sep, explicit)) rest =
     (if op_action opt = Store then Inr ([(opt, Some explicit)], [], rest)
      else if single_dash name \<and> explicit \<noteq> [] then
        (if sep \<noteq> [] \<or> hd explicit = CHR ''-'' then Inl (Ignored_explicit_argument explicit)
         else
           let name' = [hd name, hd explicit] in
           case map_of (option_string_actions opts) name' of
             None \<Rightarrow> Inr ([(opt, None)], [hd name # explicit], rest)
           | Some opt' \<Rightarrow>
               map_sum id (\<lambda>(taken, extras, rest'). ((opt, None) # taken, extras, rest'))
                 (match_option opts opt' name' (attached (tl explicit)) rest))
      else Inl (Ignored_explicit_argument explicit))"
  by pat_completeness auto

termination
  by (relation "measure (\<lambda>(opts, opt, name, a, rest). case a of None \<Rightarrow> 0 | Some (sep, e) \<Rightarrow> Suc (length e))")
    (use attached_shorter in auto)

text \<open>\<open>take_action\<close>, on the namespace and the destinations seen so far.\<close>

fun take_action ::
  "arg_option \<times> string option \<Rightarrow> namespace \<times> string list \<Rightarrow> parser_exit + namespace \<times> string list" where
  "take_action (opt, v) (ns, seen) =
     (case op_action opt of
        Show_help \<Rightarrow> Inl Help_shown
      | Store_true \<Rightarrow> Inr (ns(the (op_dest opt) \<mapsto> Arg_bool True), the (op_dest opt) # seen)
      | Store \<Rightarrow>
          (case op_type opt (the v) of
             None \<Rightarrow> Inl (Usage_error (Invalid_value (the v)))
           | Some x \<Rightarrow>
               if (case op_choices opt of None \<Rightarrow> False | Some choices \<Rightarrow> x \<notin> Arg_str ` set choices) then
                 Inl (Usage_error (Invalid_choice (the v)))
               else Inr (ns(the (op_dest opt) \<mapsto> x), the (op_dest opt) # seen)))"

fun take_actions ::
  "(arg_option \<times> string option) list \<Rightarrow> namespace \<times> string list \<Rightarrow> parser_exit + namespace \<times> string list" where
  "take_actions [] st = Inr st"
| "take_actions (t # ts) st = (case take_action t st of Inl e \<Rightarrow> Inl e | Inr st' \<Rightarrow> take_actions ts st')"

text \<open>The first string of a positional argument is not an option; a subcommand takes everything after it.\<close>

fun at_subcommand :: "(string \<times> arg_class) list \<Rightarrow> bool" where
  "at_subcommand [] = False"
| "at_subcommand ((s, Dashes) # rest) = at_subcommand rest"
| "at_subcommand ((s, Argument) # rest) = True"
| "at_subcommand ((s, Option t) # rest) = False"

text \<open>The arguments before the next option, that option, and what follows it.\<close>

fun next_option ::
  "(string \<times> arg_class) list \<Rightarrow> (string list \<times> string \<times> option_tuple \<times> (string \<times> arg_class) list) option" where
  "next_option [] = None"
| "next_option ((s, Option t) # rest) = Some ([], s, t, rest)"
| "next_option ((s, c) # rest) = map_option (\<lambda>(skipped, found). (s # skipped, found)) (next_option rest)"

text \<open>
  The main loop: options are taken as they come, and the first positional argument takes the rest of the line
  for the subcommand, where the parser has subcommands; otherwise it is left over. The result is the
  namespace, the destinations seen, what is left over, and the line of the subcommand.
\<close>

lemma match_option_shorter:
  "match_option opts opt name a rest = Inr (taken, extras, rest') \<Longrightarrow> length rest' \<le> length rest"
  by (induction opts opt name a rest arbitrary: taken extras rest' rule: match_option.induct)
    (auto split: if_splits list.splits prod.splits arg_class.splits option.splits simp: Let_def map_sum_def split: sum.splits)

lemma next_option_shorter: "next_option items = Some (skipped, s, t, rest) \<Longrightarrow> length rest < length items"
  by (induction items arbitrary: skipped rule: next_option.induct) auto

function scan ::
  "arg_option list \<Rightarrow> bool \<Rightarrow> (string \<times> arg_class) list \<Rightarrow> namespace \<times> string list \<Rightarrow> string list \<Rightarrow>
   parser_exit + (namespace \<times> string list) \<times> string list \<times> (string \<times> string list) option" where
  "scan opts sub items st extras =
     (if sub \<and> at_subcommand items then Inr (st, extras, Some (fst (hd items), map fst (tl items)))
      else
        case next_option items of
          None \<Rightarrow> Inr (st, extras @ map fst items, None)
        | Some (skipped, s, (None, name, a), rest) \<Rightarrow> scan opts sub rest st (extras @ skipped @ [s])
        | Some (skipped, s, (Some opt, name, a), rest) \<Rightarrow>
            (case match_option opts opt name a rest of
               Inl e \<Rightarrow> Inl (Usage_error e)
             | Inr (taken, unmatched, rest') \<Rightarrow>
                 (case take_actions taken st of
                    Inl e \<Rightarrow> Inl e
                  | Inr st' \<Rightarrow> scan opts sub rest' st' (extras @ skipped @ unmatched))))"
  by pat_completeness auto

termination
proof (relation "measure (\<lambda>(opts, sub, items, st, extras). length items)", goal_cases)
  case 2
  then show ?case by (auto dest: next_option_shorter)
next
  case 3
  then show ?case by (auto dest!: next_option_shorter match_option_shorter)
qed simp

declare scan.simps [simp del]

text \<open>What a round of the loop does, by the argument it finds.\<close>

lemma scan_cases:
  assumes "scan opts sub items st extras = Inr result"
  obtains (subcommand) "sub" "at_subcommand items" "result = (st, extras, Some (fst (hd items), map fst (tl items)))"
  | (finished) "\<not> (sub \<and> at_subcommand items)" "next_option items = None" "result = (st, extras @ map fst items, None)"
  | (unknown) skipped s name a rest where "next_option items = Some (skipped, s, (None, name, a), rest)"
      "scan opts sub rest st (extras @ skipped @ [s]) = Inr result"
  | (known) skipped s opt name a rest taken unmatched rest' st' where
      "next_option items = Some (skipped, s, (Some opt, name, a), rest)"
      "match_option opts opt name a rest = Inr (taken, unmatched, rest')" "take_actions taken st = Inr st'"
      "scan opts sub rest' st' (extras @ skipped @ unmatched) = Inr result"
  using assms
  by (subst (asm) scan.simps) (auto split: if_splits option.splits sum.splits prod.splits)

lemma scan_shorter:
  "scan opts sub items st extras = Inr (st', extras', Some (name, rest)) \<Longrightarrow> length rest < length items"
proof (induction "length items" arbitrary: items st extras rule: less_induct)
  case less
  from less.prems show ?case
  proof (cases rule: scan_cases)
    case subcommand
    then show ?thesis by (cases items) auto
  next
    case (unknown skipped s name a rest1)
    from next_option_shorter [OF unknown(1)] less.hyps [OF _ unknown(2)] show ?thesis by linarith
  next
    case (known skipped s opt name a rest1 taken unmatched rest2 st2)
    from next_option_shorter [OF known(1)] match_option_shorter [OF known(2)] less.hyps [OF _ known(4)]
    show ?thesis by linarith
  qed simp
qed

lemma classify_length: "classify opts args = Inr items \<Longrightarrow> length items = length args"
  by (induction opts args arbitrary: items rule: classify.induct)
    (auto split: if_splits sum.splits simp: map_sum_def)

section \<open>Parsing a command line\<close>

definition action_name :: "arg_option \<Rightarrow> string" where
  "action_name opt = str_join ''/'' (op_strings opt)"

text \<open>The attributes an option has before the line is read.\<close>

definition default_namespace :: "arg_parser \<Rightarrow> namespace" where
  "default_namespace p =
     map_of (concat (map (\<lambda>opt. case op_dest opt of None \<Rightarrow> [] | Some dest \<Rightarrow> [(dest, op_default opt)]) (ap_options p)) @
       (case ap_subparsers p of None \<Rightarrow> [] | Some (dest, _) \<Rightarrow> [(dest, Arg_none)]))"

text \<open>At the end a default that is a string goes through the type function too, unlike the choices.\<close>

fun convert_defaults :: "arg_option list \<Rightarrow> string list \<Rightarrow> namespace \<Rightarrow> parser_exit + namespace" where
  "convert_defaults [] seen ns = Inr ns"
| "convert_defaults (opt # opts) seen ns =
     (case (op_dest opt, op_default opt) of
        (Some dest, Arg_str s) \<Rightarrow>
          if dest \<in> set seen \<or> op_required opt then convert_defaults opts seen ns
          else
            (case op_type opt s of
               None \<Rightarrow> Inl (Usage_error (Invalid_value s))
             | Some v \<Rightarrow> convert_defaults opts seen (ns(dest \<mapsto> v)))
      | _ \<Rightarrow> convert_defaults opts seen ns)"

definition missing :: "arg_parser \<Rightarrow> string list \<Rightarrow> string list" where
  "missing p seen =
     map action_name (filter (\<lambda>opt. op_required opt \<and> (\<forall>d \<in> set_option (op_dest opt). d \<notin> set seen)) (ap_options p)) @
     (case ap_subparsers p of None \<Rightarrow> [] | Some (dest, _) \<Rightarrow> if dest \<in> set seen then [] else [dest])"

definition finish_parse ::
  "arg_parser \<Rightarrow> namespace \<times> string list \<Rightarrow> string list \<Rightarrow> parser_exit + namespace \<times> string list" where
  "finish_parse p st extras =
     (case convert_defaults (ap_options p) (snd st) (fst st) of
        Inl e \<Rightarrow> Inl e
      | Inr ns \<Rightarrow>
          if missing p (snd st) \<noteq> [] then Inl (Usage_error (Arguments_required (missing p (snd st))))
          else Inr (ns, extras))"

text \<open>A subcommand's parser starts with a namespace of its own, whose attributes are then copied over; what it
  leaves over is left over by the parser above it.\<close>

function parse_known_args :: "arg_parser \<Rightarrow> string list \<Rightarrow> parser_exit + namespace \<times> string list" where
  "parse_known_args p args =
     (case classify (ap_options p) args of
        Inl e \<Rightarrow> Inl (Usage_error e)
      | Inr items \<Rightarrow>
          (case scan (ap_options p) (ap_subparsers p \<noteq> None) items (default_namespace p, []) [] of
             Inl e \<Rightarrow> Inl e
           | Inr (st, extras, None) \<Rightarrow> finish_parse p st extras
           | Inr ((ns, seen), extras, Some (name, rest)) \<Rightarrow>
               (case ap_subparsers p of
                  None \<Rightarrow> finish_parse p (ns, seen) extras
                | Some (dest, parsers) \<Rightarrow>
                    (case map_of parsers name of
                       None \<Rightarrow> Inl (Usage_error (Invalid_choice name))
                     | Some q \<Rightarrow>
                         (case parse_known_args q rest of
                            Inl e \<Rightarrow> Inl e
                          | Inr (sub_ns, sub_extras) \<Rightarrow>
                              finish_parse p (ns(dest \<mapsto> Arg_str name) ++ sub_ns, dest # seen)
                                (extras @ sub_extras))))))"
  by pat_completeness auto

termination
proof (relation "measure (\<lambda>(p, args). length args)", goal_cases)
  case 2
  then show ?case by (auto dest!: classify_length scan_shorter)
qed simp

declare parse_known_args.simps [simp del]

definition parse_args :: "arg_parser \<Rightarrow> string list \<Rightarrow> parser_exit + namespace" where
  "parse_args p args =
     (case parse_known_args p args of
        Inl e \<Rightarrow> Inl e
      | Inr (ns, extras) \<Rightarrow>
          if extras \<noteq> [] then Inl (Usage_error (Unrecognized_arguments extras)) else Inr ns)"

section \<open>What a parser accepts\<close>

text \<open>The values the options of a parser may leave under a destination.\<close>

definition stored :: "arg_option list \<Rightarrow> string \<Rightarrow> arg_value \<Rightarrow> bool" where
  "stored opts dest v \<longleftrightarrow> (\<exists>opt \<in> set opts. op_dest opt = Some dest \<and>
     (op_action opt = Store_true \<and> v = Arg_bool True \<or>
      op_action opt = Store \<and> (\<exists>s. op_type opt s = Some v) \<and>
        (\<forall>cs. op_choices opt = Some cs \<longrightarrow> v \<in> Arg_str ` set cs)))"

text \<open>Every option but help has a destination.\<close>

definition destined :: "arg_option list \<Rightarrow> bool" where
  "destined opts \<longleftrightarrow> (\<forall>opt \<in> set opts. op_action opt \<noteq> Show_help \<longrightarrow> op_dest opt \<noteq> None)"

definition state_ok :: "arg_option list \<Rightarrow> namespace \<Rightarrow> namespace \<times> string list \<Rightarrow> bool" where
  "state_ok opts ns0 st \<longleftrightarrow>
     (\<forall>d. (d \<in> set (snd st) \<longrightarrow> (\<exists>v. fst st d = Some v \<and> stored opts d v)) \<and> (d \<notin> set (snd st) \<longrightarrow> fst st d = ns0 d))"

lemma take_action_ok:
  assumes "take_action (opt, v) st = Inr st'" and "opt \<in> set opts" and "destined opts" and "state_ok opts ns0 st"
  shows "state_ok opts ns0 st'"
proof -
  obtain ns seen where st: "st = (ns, seen)" by (cases st)
  from assms(1) have "op_action opt \<noteq> Show_help" by (auto simp: st split: action_kind.splits)
  with assms(2,3) obtain d where d: "op_dest opt = Some d" by (auto simp: destined_def)
  from assms(1) d obtain x where st': "st' = (ns(d \<mapsto> x), d # seen)"
    and x: "op_action opt = Store_true \<and> x = Arg_bool True \<or> op_action opt = Store \<and> (\<exists>s. op_type opt s = Some x) \<and>
        (\<forall>cs. op_choices opt = Some cs \<longrightarrow> x \<in> Arg_str ` set cs)"
    by (auto simp: st split: action_kind.splits option.splits if_splits)
  with assms(2) d have "stored opts d x" by (auto simp: stored_def)
  with assms(4) show ?thesis by (auto simp: state_ok_def st st')
qed

lemma take_actions_ok:
  "take_actions ts st = Inr st' \<Longrightarrow> fst ` set ts \<subseteq> set opts \<Longrightarrow> destined opts \<Longrightarrow> state_ok opts ns0 st \<Longrightarrow>
     state_ok opts ns0 st'"
  by (induction ts arbitrary: st) (auto split: sum.splits dest: take_action_ok)

lemma option_actions_in: "(name, opt) \<in> set (option_string_actions opts) \<Longrightarrow> opt \<in> set opts"
  by (auto simp: option_string_actions_def)

lemma match_option_in:
  "match_option opts opt name a rest = Inr (taken, unmatched, rest') \<Longrightarrow> opt \<in> set opts \<Longrightarrow>
     fst ` set taken \<subseteq> set opts \<and> set rest' \<subseteq> set rest"
proof (induction opts opt name a rest arbitrary: taken unmatched rest' rule: match_option.induct)
  case (1 opts opt name rest)
  then show ?case by (auto split: if_splits list.splits prod.splits arg_class.splits)
next
  case (2 opts opt name sep explicit rest)
  show ?case
  proof (cases "op_action opt = Store \<or> map_of (option_string_actions opts) [hd name, hd explicit] = None")
    case True
    with 2(2,3) show ?thesis by (auto simp: Let_def split: if_splits)
  next
    case False
    then obtain opt' where opt': "map_of (option_string_actions opts) [hd name, hd explicit] = Some opt'" by auto
    with 2(2) False obtain taken' where
      run: "match_option opts opt' [hd name, hd explicit] (attached (tl explicit)) rest = Inr (taken', unmatched, rest')"
      and taken: "taken = (opt, None) # taken'"
      and go: "single_dash name \<and> explicit \<noteq> []" "\<not> (sep \<noteq> [] \<or> hd explicit = CHR ''-'')"
      by (auto simp: Let_def map_sum_def split: if_splits sum.splits)
    from 2(1) [OF _ go refl opt' run option_actions_in [OF map_of_SomeD [OF opt']]] False 2(3) show ?thesis
      by (auto simp: taken)
  qed
qed

lemma get_option_tuples_in: "(Some opt, name, a) \<in> set (get_option_tuples opts s) \<Longrightarrow> opt \<in> set opts"
  by (auto simp: get_option_tuples_def split: if_splits prod.splits dest!: option_actions_in)

lemma parse_optional_in: "parse_optional opts s = Inr (Some (Some opt, name, a)) \<Longrightarrow> opt \<in> set opts"
  using get_option_tuples_in [of opt name a opts s]
  by (auto simp: parse_optional_def split: if_splits option.splits prod.splits list.splits
      dest!: map_of_SomeD option_actions_in)

definition from_options :: "arg_option list \<Rightarrow> (string \<times> arg_class) set \<Rightarrow> bool" where
  "from_options opts items \<longleftrightarrow> (\<forall>item \<in> items. \<forall>opt name a. snd item = Option (Some opt, name, a) \<longrightarrow> opt \<in> set opts)"

lemma from_options_subset: "from_options opts items \<Longrightarrow> items' \<subseteq> items \<Longrightarrow> from_options opts items'"
  by (auto simp: from_options_def)

lemma classify_from: "classify opts args = Inr items \<Longrightarrow> from_options opts (set items)"
proof (induction opts args arbitrary: items rule: classify.induct)
  case (2 opts s rest)
  show ?case
  proof (cases "s = ''--''")
    case True
    with 2(2) show ?thesis by (auto simp: from_options_def)
  next
    case False
    with 2(2) obtain t its where t: "parse_optional opts s = Inr t" and its: "classify opts rest = Inr its"
      and items: "items = (s, case t of None \<Rightarrow> Argument | Some t \<Rightarrow> Option t) # its"
      by (auto simp: map_sum_def split: sum.splits)
    from 2(1) [OF False t its] t show ?thesis
      by (auto simp: from_options_def items split: option.splits dest: parse_optional_in)
  qed
qed (simp add: from_options_def)

lemma next_option_from:
  "next_option items = Some (skipped, s, t, rest) \<Longrightarrow> (s, Option t) \<in> set items \<and> set rest \<subseteq> set items"
  by (induction items arbitrary: skipped rule: next_option.induct) auto

lemma scan_ok:
  "scan opts sub items st extras = Inr (st', extras', line) \<Longrightarrow> from_options opts (set items) \<Longrightarrow> destined opts \<Longrightarrow>
     state_ok opts ns0 st \<Longrightarrow> state_ok opts ns0 st'"
proof (induction "length items" arbitrary: items st extras rule: less_induct)
  case less
  from less.prems(1) show ?case
  proof (cases rule: scan_cases)
    case (unknown skipped s name a rest1)
    note from_options_subset [OF less.prems(2)] next_option_from [OF unknown(1)]
    with less.hyps [OF next_option_shorter [OF unknown(1)] unknown(2)] less.prems show ?thesis by blast
  next
    case (known skipped s opt name a rest1 taken unmatched rest2 st2)
    from next_option_from [OF known(1)] less.prems(2) have opt: "opt \<in> set opts" "set rest1 \<subseteq> set items"
      by (auto simp: from_options_def)
    from match_option_in [OF known(2) opt(1)] opt(2) have "set rest2 \<subseteq> set items" "fst ` set taken \<subseteq> set opts" by auto
    with take_actions_ok [OF known(3)] less.prems from_options_subset [OF less.prems(2)]
      less.hyps [OF le_less_trans [OF match_option_shorter [OF known(2)] next_option_shorter [OF known(1)]] known(4)]
    show ?thesis by blast
  qed (use less.prems in simp_all)
qed

text \<open>A line a parser accepts: what its options hold, and the line its subcommand has accepted.\<close>

lemma parse_known_args_accepts:
  assumes "parse_known_args p args = Inr (ns, extras)" and "destined (ap_options p)"
  obtains st where "state_ok (ap_options p) (default_namespace p) st" and "ap_subparsers p = None"
      and "finish_parse p st extras = Inr (ns, extras)"
  | st dest parsers name q rest sub_ns sub_extras where
      "state_ok (ap_options p) (default_namespace p) st" and "ap_subparsers p = Some (dest, parsers)"
      and "map_of parsers name = Some q" and "parse_known_args q rest = Inr (sub_ns, sub_extras)"
      and "finish_parse p ((fst st)(dest \<mapsto> Arg_str name) ++ sub_ns, dest # snd st) extras = Inr (ns, extras)"
  | st dest parsers where
      "state_ok (ap_options p) (default_namespace p) st" and "ap_subparsers p = Some (dest, parsers)"
      and "finish_parse p st extras = Inr (ns, extras)"
proof -
  obtain items where items: "classify (ap_options p) args = Inr items"
    using assms(1) by (subst (asm) parse_known_args.simps) (auto split: sum.splits)
  obtain ns0 seen0 left line where
    run: "scan (ap_options p) (ap_subparsers p \<noteq> None) items (default_namespace p, []) [] = Inr ((ns0, seen0), left, line)"
    using assms(1) by (subst (asm) parse_known_args.simps) (auto simp: items split: sum.splits)
  have ok: "state_ok (ap_options p) (default_namespace p) (ns0, seen0)"
    by (rule scan_ok [OF run classify_from [OF items] assms(2)]) (simp add: state_ok_def)
  have finish: "extras' = extras" if "finish_parse p st' extras' = Inr (ns, extras)" for st' extras'
    using that by (auto simp: finish_parse_def split: sum.splits if_splits)
  note found = assms(1) [unfolded parse_known_args.simps [of p] items run sum.case prod.case]
  show thesis
  proof (cases line)
    case None
    with found have "finish_parse p (ns0, seen0) left = Inr (ns, extras)" by simp
    with finish [OF this] that(1,3) [OF ok] show ?thesis by (cases "ap_subparsers p") auto
  next
    case (Some l)
    obtain name rest where line: "line = Some (name, rest)" using Some by (cases l) auto
    show ?thesis
    proof (cases "ap_subparsers p")
      case None
      with found line have "finish_parse p (ns0, seen0) left = Inr (ns, extras)" by simp
      with finish [OF this] that(1) [OF ok] None show ?thesis by simp
    next
      case (Some sub)
      obtain dest parsers where sub: "ap_subparsers p = Some (dest, parsers)" using Some by (cases sub) auto
      with found line obtain q sub_ns sub_extras where "map_of parsers name = Some q"
        "parse_known_args q rest = Inr (sub_ns, sub_extras)"
        "finish_parse p (ns0(dest \<mapsto> Arg_str name) ++ sub_ns, dest # seen0) (left @ sub_extras) = Inr (ns, extras)"
        by (auto split: option.splits sum.splits)
      with finish [OF this(3)] that(2) [OF ok sub] show ?thesis by simp
    qed
  qed
qed

lemma accepts_subcommand:
  assumes "parse_known_args p args = Inr (ns, extras)" and "ap_subparsers p = Some (dest, parsers)"
    and "destined (ap_options p)" and "\<forall>opt \<in> set (ap_options p). op_dest opt \<noteq> Some dest"
  obtains st name q rest sub_ns sub_extras where
      "state_ok (ap_options p) (default_namespace p) st" and "map_of parsers name = Some q"
      and "parse_known_args q rest = Inr (sub_ns, sub_extras)"
      and "finish_parse p ((fst st)(dest \<mapsto> Arg_str name) ++ sub_ns, dest # snd st) extras = Inr (ns, extras)"
  using assms(1,3)
proof (cases rule: parse_known_args_accepts)
  case (3 st d ps)
  with assms(2) have "dest \<in> set (snd st)"
    by (auto simp: finish_parse_def missing_def split: sum.splits if_splits)
  with 3(1) assms(4) show ?thesis by (auto simp: state_ok_def stored_def)
qed (use assms(2) that in auto)

lemma finish_parse_iff:
  "finish_parse p st extras = Inr (ns, extras') \<longleftrightarrow>
     convert_defaults (ap_options p) (snd st) (fst st) = Inr ns \<and> missing p (snd st) = [] \<and> extras' = extras"
  by (auto simp: finish_parse_def split: sum.splits)

text \<open>What a parser without subcommands leaves under the destination of one of its options.\<close>

definition dests :: "arg_option list \<Rightarrow> string list" where
  "dests opts = concat (map (\<lambda>opt. case op_dest opt of None \<Rightarrow> [] | Some d \<Rightarrow> [d]) opts)"

lemma dests_Cons: "dests (opt # opts) = (case op_dest opt of None \<Rightarrow> dests opts | Some d \<Rightarrow> d # dests opts)"
  by (simp add: dests_def split: option.split)

lemma dests_in: "opt \<in> set opts \<Longrightarrow> op_dest opt = Some d \<Longrightarrow> d \<in> set (dests opts)"
  by (force simp: dests_def)

lemma dests_unique:
  "distinct (dests opts) \<Longrightarrow> opt \<in> set opts \<Longrightarrow> opt' \<in> set opts \<Longrightarrow> op_dest opt = Some d \<Longrightarrow> op_dest opt' = Some d \<Longrightarrow>
     opt = opt'"
  by (induction opts) (auto simp: dests_Cons split: option.splits dest: dests_in)

lemma convert_defaults_other:
  "convert_defaults opts seen ns = Inr ns' \<Longrightarrow> d \<notin> set (dests opts) \<Longrightarrow> ns' d = ns d"
  by (induction opts seen ns rule: convert_defaults.induct)
    (auto simp: dests_Cons split: option.splits arg_value.splits if_splits)

lemma convert_defaults_at:
  "convert_defaults opts seen ns = Inr ns' \<Longrightarrow> distinct (dests opts) \<Longrightarrow> opt \<in> set opts \<Longrightarrow> op_dest opt = Some d \<Longrightarrow>
     ns' d = (case op_default opt of
        Arg_str s \<Rightarrow> if d \<in> set seen \<or> op_required opt then ns d else op_type opt s
      | _ \<Rightarrow> ns d)"
proof (induction opts arbitrary: ns)
  case (Cons o1 opts)
  show ?case
  proof (cases "opt = o1")
    case True
    with Cons.prems convert_defaults_other [of opts seen _ ns' d] show ?thesis
      by (auto simp: dests_Cons split: arg_value.splits if_splits option.splits)
  next
    case False
    with Cons.prems have opt: "opt \<in> set opts" and "op_dest o1 \<noteq> Some d"
      by (auto simp: dests_Cons split: option.splits dest: dests_in)
    with Cons.prems obtain ns1 where "convert_defaults opts seen ns1 = Inr ns'" "ns1 d = ns d"
      by (auto split: option.splits arg_value.splits if_splits)
    moreover have "distinct (dests opts)" using Cons.prems(2) by (auto simp: dests_Cons split: option.splits)
    ultimately show ?thesis using Cons.IH [OF _ _ opt Cons.prems(4)] by (simp split: arg_value.splits)
  qed
qed simp

lemma convert_defaults_total:
  "convert_defaults opts seen ns = Inr ns' \<Longrightarrow> opt \<in> set opts \<Longrightarrow> op_dest opt = Some d \<Longrightarrow> d \<notin> set seen \<Longrightarrow>
     \<not> op_required opt \<Longrightarrow> op_default opt = Arg_str s \<Longrightarrow> \<exists>v. op_type opt s = Some v"
  by (induction opts seen ns rule: convert_defaults.induct)
    (auto split: option.splits arg_value.splits if_splits)

lemma default_at:
  "distinct (dests opts) \<Longrightarrow> opt \<in> set opts \<Longrightarrow> op_dest opt = Some d \<Longrightarrow>
     map_of (concat (map (\<lambda>opt. case op_dest opt of None \<Rightarrow> [] | Some dest \<Rightarrow> [(dest, op_default opt)]) opts)) d =
       Some (op_default opt)"
proof (induction opts)
  case (Cons o1 opts)
  then show ?case
    by (cases "op_dest o1") (auto simp: dests_Cons map_add_def split: option.splits dest: dests_in)
qed simp

lemma accepted_attribute:
  assumes "parse_known_args p args = Inr (ns, extras)" and "ap_subparsers p = None"
    and "destined (ap_options p)" and "distinct (dests (ap_options p))"
    and "opt \<in> set (ap_options p)" and "op_dest opt = Some d" and "\<not> op_required opt"
  shows "\<exists>v. ns d = Some v \<and>
    (stored [opt] d v \<or> (case op_default opt of Arg_str s \<Rightarrow> op_type opt s = Some v | x \<Rightarrow> v = x))"
  using assms(1,3)
proof (cases rule: parse_known_args_accepts)
  case (1 st)
  then have fin: "convert_defaults (ap_options p) (snd st) (fst st) = Inr ns" by (simp add: finish_parse_iff)
  note at = convert_defaults_at [OF fin assms(4,5,6)]
  show ?thesis
  proof (cases "d \<in> set (snd st)")
    case True
    with 1(1) obtain v where v: "fst st d = Some v" "stored (ap_options p) d v" by (auto simp: state_ok_def)
    then have "stored [opt] d v"
      using dests_unique [OF assms(4,5) _ assms(6)] assms(6) by (auto simp: stored_def)
    with True v at show ?thesis by (auto split: arg_value.splits)
  next
    case False
    with 1(1) have "fst st d = default_namespace p d" by (simp add: state_ok_def)
    then have "fst st d = Some (op_default opt)"
      using default_at [OF assms(4-6)] assms(2) by (simp add: default_namespace_def)
    with False at assms(7) convert_defaults_total [OF fin assms(5,6) False assms(7)] show ?thesis
      by (auto split: arg_value.splits)
  qed
qed (use assms(2) in simp_all)

section \<open>Lines that are taken apart as they were put together\<close>

lemma classify_fst: "classify opts args = Inr items \<Longrightarrow> map fst items = args"
  by (induction opts args arbitrary: items rule: classify.induct)
    (auto split: if_splits sum.splits simp: map_sum_def comp_def)

lemma scan_subcommand: "scan opts True ((s, Argument) # items) st extras = Inr (st, extras, Some (s, map fst items))"
  by (simp add: scan.simps)

lemma scan_end: "scan opts sub [] st extras = Inr (st, extras, None)"
  by (simp add: scan.simps)

lemma scan_option:
  "scan opts sub ((s, Option (Some opt, name, a)) # rest) st extras =
     (case match_option opts opt name a rest of
        Inl e \<Rightarrow> Inl (Usage_error e)
      | Inr (taken, unmatched, rest') \<Rightarrow>
          (case take_actions taken st of
             Inl e \<Rightarrow> Inl e
           | Inr st' \<Rightarrow> scan opts sub rest' st' (extras @ unmatched)))"
  by (subst scan.simps) (simp split: sum.split prod.split)

lemmas scan_steps = scan_subcommand scan_end scan_option

text \<open>A subcommand right at the beginning.\<close>

lemma parse_subcommand:
  assumes "s \<noteq> []" and "hd s \<noteq> CHR ''-''" and "classify (ap_options p) rest = Inr items"
    and "ap_subparsers p = Some (dest, parsers)" and "map_of parsers s = Some q"
    and "parse_known_args q rest = Inr (sub_ns, sub_extras)"
  shows "parse_known_args p (s # rest) =
    finish_parse p ((default_namespace p)(dest \<mapsto> Arg_str s) ++ sub_ns, [dest]) sub_extras"
proof -
  from assms(1,2) have "parse_optional (ap_options p) s = Inr None" "s \<noteq> ''--''" by (auto simp: parse_optional_def)
  with assms(3) have "classify (ap_options p) (s # rest) = Inr ((s, Argument) # items)" by simp
  with assms(4-6) classify_fst [OF assms(3)] show ?thesis
    by (simp add: parse_known_args.simps [of p "s # rest"] scan_subcommand)
qed

lemma not_negative: "\<not> looks_negative (CHR ''-'' # CHR ''-'' # s)"
  by (auto simp: looks_negative_def Let_def str_partition_def str_isdecimal_def char_isdecimal_def split: list.splits if_splits)

lemma partition_at: "c \<notin> set name \<Longrightarrow> str_partition c (name @ c # v) = (name, True, v)"
  by (induction name) (auto simp: str_partition_def)

text \<open>\<open>--name=text\<close>, whatever the text.\<close>

lemma parse_optional_explicit:
  assumes "map_of (option_string_actions opts) (''--'' @ name) = Some opt" and "CHR ''='' \<notin> set name"
    and "\<forall>(n, x) \<in> set (option_string_actions opts). CHR ''='' \<notin> set n"
  shows "parse_optional opts (''--'' @ name @ ''='' @ v) = Inr (Some (Some opt, ''--'' @ name, Some (''='', v)))"
proof -
  have "map_of (option_string_actions opts) (''--'' @ name @ ''='' @ v) = None"
    using assms(3) by (fastforce simp: map_of_eq_None_iff)
  moreover have "str_partition (CHR ''='') (''--'' @ name @ ''='' @ v) = (''--'' @ name, True, v)"
    using partition_at [of "CHR ''=''" "''--'' @ name" v] assms(2) by simp
  ultimately show ?thesis using assms(1) by (simp add: parse_optional_def)
qed

lemma parse_optional_unknown:
  assumes "\<forall>(n, x) \<in> set (option_string_actions opts). \<not> starts_with n (''--'' @ name) \<and> CHR ''='' \<notin> set n"
    and "CHR ''='' \<notin> set name"
  shows "parse_optional opts (''--'' @ name @ ''='' @ v) =
    Inr (if CHR '' '' \<in> set (name @ v) then None else Some (None, ''--'' @ name @ ''='' @ v, None))"
proof -
  have "map_of (option_string_actions opts) (''--'' @ name @ ''='' @ v) = None"
    "map_of (option_string_actions opts) (''--'' @ name) = None"
    using assms(1) by (fastforce simp: map_of_eq_None_iff starts_with_def)+
  moreover have "str_partition (CHR ''='') (''--'' @ name @ ''='' @ v) = (''--'' @ name, True, v)"
    using partition_at [of "CHR ''=''" "''--'' @ name" v] assms(2) by simp
  moreover from this have "get_option_tuples opts (''--'' @ name @ ''='' @ v) = []"
    using assms(1) by (auto simp: get_option_tuples_def starts_with_def filter_empty_conv)
  ultimately show ?thesis by (simp add: parse_optional_def not_negative)
qed

text \<open>A line of such arguments: the options are taken in their order.\<close>

type_synonym explicit_arg = "string \<times> arg_option \<times> string"

fun explicit_text :: "explicit_arg \<Rightarrow> string" where
  "explicit_text (name, opt, v) = ''--'' @ name @ ''='' @ v"

definition explicit_ok :: "arg_option list \<Rightarrow> explicit_arg list \<Rightarrow> bool" where
  "explicit_ok opts xs \<longleftrightarrow>
     (\<forall>(n, x) \<in> set (option_string_actions opts). CHR ''='' \<notin> set n) \<and>
     (\<forall>(name, opt, v) \<in> set xs. map_of (option_string_actions opts) (''--'' @ name) = Some opt \<and>
        CHR ''='' \<notin> set name \<and> name \<noteq> [] \<and> op_action opt = Store)"

lemma classify_explicit:
  "explicit_ok opts xs \<Longrightarrow> classify opts rest = Inr items \<Longrightarrow>
     classify opts (map explicit_text xs @ rest) =
       Inr (map (\<lambda>(name, opt, v). (explicit_text (name, opt, v), Option (Some opt, ''--'' @ name, Some (''='', v)))) xs @ items)"
proof (induction xs)
  case (Cons x xs)
  obtain name opt v where x: "x = (name, opt, v)" by (cases x)
  with Cons.prems have "parse_optional opts (explicit_text x) = Inr (Some (Some opt, ''--'' @ name, Some (''='', v)))"
    unfolding x explicit_text.simps by (intro parse_optional_explicit) (auto simp: explicit_ok_def)
  moreover have "explicit_text x \<noteq> ''--''" using Cons.prems(1) by (auto simp: explicit_ok_def x)
  moreover have "explicit_ok opts xs" using Cons.prems(1) by (auto simp: explicit_ok_def)
  ultimately show ?case using Cons x by (simp del: explicit_text.simps)
qed simp

lemma scan_explicit:
  "explicit_ok opts xs \<Longrightarrow>
     scan opts sub (map (\<lambda>(name, opt, v). (explicit_text (name, opt, v), Option (Some opt, ''--'' @ name, Some (''='', v)))) xs @ items)
       st extras =
     (case take_actions (map (\<lambda>(name, opt, v). (opt, Some v)) xs) st of
        Inl e \<Rightarrow> Inl e
      | Inr st' \<Rightarrow> scan opts sub items st' extras)"
proof (induction xs arbitrary: st)
  case (Cons x xs)
  obtain name opt v where x: "x = (name, opt, v)" by (cases x)
  have "explicit_ok opts xs" "op_action opt = Store" using Cons.prems by (auto simp: explicit_ok_def x)
  with Cons.IH show ?case by (simp add: x scan_option split: sum.split)
qed simp

end
