(* ===== verification/Ctl_Cli.thy ===== *)
theory Ctl_Cli
  imports Argparse Ctl_Commands
begin

text \<open>
  The entry point of the tool (\<open>ctl/pktlabctl/cli.py\<close>, \<open>main.py\<close>): its parser, and the whole run from the
  command line to the exit status.
\<close>

section \<open>The parser\<close>

definition DEFAULT_CONTROLLER_URL :: string where
  "DEFAULT_CONTROLLER_URL = ''http://127.0.0.1:8080''"

definition bare_parser :: arg_parser where
  "bare_parser = Parser [help_option] None"

definition group_parser :: "string \<Rightarrow> (string \<times> arg_parser) list \<Rightarrow> arg_parser" where
  "group_parser dest parsers = Parser [help_option] (Some (dest, parsers))"

definition controller_url_option :: "(string \<rightharpoonup> string) \<Rightarrow> arg_option" where
  "controller_url_option environ =
     \<lparr>op_strings = [''--controller-url''], op_dest = Some ''controller_url'', op_action = Store,
      op_type = (\<lambda>s. Some (Arg_str s)), op_choices = None, op_required = False,
      op_default = Arg_str (getenv environ ''PKTLAB_CTRLD_URL'' DEFAULT_CONTROLLER_URL)\<rparr>"

definition json_option :: arg_option where
  "json_option =
     \<lparr>op_strings = [''--json''], op_dest = Some ''json_output'', op_action = Store_true,
      op_type = (\<lambda>s. Some (Arg_str s)), op_choices = None, op_required = False, op_default = Arg_bool False\<rparr>"

definition file_option :: arg_option where
  "file_option =
     \<lparr>op_strings = [''-f'', ''--file''], op_dest = Some ''config_path'', op_action = Store,
      op_type = (\<lambda>s. Some (Arg_str s)), op_choices = None, op_required = True, op_default = Arg_none\<rparr>"

definition ctl_subparsers :: "(string \<times> arg_parser) list" where
  "ctl_subparsers =
     [(''status'', bare_parser),
      (''stats'', group_parser ''stats_command'' [(''show'', bare_parser), (''reset'', bare_parser)]),
      (''datapath'', group_parser ''datapath_command'' [(''pause'', bare_parser), (''resume'', bare_parser)]),
      (''topology'', group_parser ''topology_command''
         [(''apply'', Parser [help_option, file_option] None), (''destroy'', bare_parser)])]"

definition ctl_build_parser :: "(string \<rightharpoonup> string) \<Rightarrow> arg_parser" where
  "ctl_build_parser environ =
     Parser [help_option, controller_url_option environ, json_option] (Some (''command'', ctl_subparsers))"

text \<open>The attributes of the namespace the dispatch reads.\<close>

fun str_value :: "arg_value option \<Rightarrow> string option" where
  "str_value (Some (Arg_str s)) = Some s"
| "str_value _ = None"

definition args_of :: "namespace \<Rightarrow> args" where
  "args_of ns =
     \<lparr>ag_controller_url = (case str_value (ns ''controller_url'') of None \<Rightarrow> [] | Some s \<Rightarrow> s),
      ag_json_output = (ns ''json_output'' = Some (Arg_bool True)),
      ag_command = (case str_value (ns ''command'') of None \<Rightarrow> [] | Some s \<Rightarrow> s),
      ag_stats_command = str_value (ns ''stats_command''),
      ag_datapath_command = str_value (ns ''datapath_command''),
      ag_topology_command = str_value (ns ''topology_command''),
      ag_config_path = (case str_value (ns ''config_path'') of None \<Rightarrow> [] | Some s \<Rightarrow> s)\<rparr>"

section \<open>A run\<close>

text \<open>What the parser does instead of returning, or the run of a command; the first leaves the world as it was.\<close>

definition pktlabctl_main ::
  "'s ctl_env \<Rightarrow> (string \<rightharpoonup> string) \<Rightarrow> string list \<Rightarrow> 's \<Rightarrow> (parser_exit + cli_run) \<times> 's" where
  "pktlabctl_main env environ argv s =
     (case parse_args (ctl_build_parser environ) argv of
        Inl e \<Rightarrow> (Inl e, s)
      | Inr ns \<Rightarrow> map_prod Inr id (cli_main env (args_of ns) s))"

section \<open>What the parser accepts\<close>

lemma file_fields [simp]:
  "op_strings file_option = [''-f'', ''--file'']" "op_dest file_option = Some ''config_path''" "op_action file_option = Store"
  "op_type file_option s = Some (Arg_str s)" "op_choices file_option = None" "op_required file_option = True"
  "op_default file_option = Arg_none"
  by (simp_all add: file_option_def)

lemma url_fields [simp]:
  "op_strings (controller_url_option environ) = [''--controller-url'']"
  "op_dest (controller_url_option environ) = Some ''controller_url''"
  "op_action (controller_url_option environ) = Store" "op_type (controller_url_option environ) s = Some (Arg_str s)"
  "op_choices (controller_url_option environ) = None" "op_required (controller_url_option environ) = False"
  "op_default (controller_url_option environ) = Arg_str (getenv environ ''PKTLAB_CTRLD_URL'' DEFAULT_CONTROLLER_URL)"
  by (simp_all add: controller_url_option_def)

lemma json_fields [simp]:
  "op_strings json_option = [''--json'']" "op_dest json_option = Some ''json_output''"
  "op_action json_option = Store_true" "op_required json_option = False" "op_default json_option = Arg_bool False"
  by (simp_all add: json_option_def)

text \<open>A parser whose only option is help.\<close>

lemma help_only:
  assumes "state_ok [help_option] ns0 st"
  shows "fst st = ns0 \<and> snd st = []"
proof -
  have "snd st = []" using assms by (cases "snd st") (auto simp: state_ok_def stored_def)
  with assms show ?thesis by (auto simp: state_ok_def)
qed

lemma bare_accepts:
  assumes "parse_known_args bare_parser args = Inr (ns, extras)"
  shows "ns = Map.empty"
proof (rule parse_known_args_accepts [OF assms], goal_cases)
  case (2 st)
  with help_only [of "default_namespace bare_parser" st] show ?case
    by (simp add: bare_parser_def finish_parse_iff default_namespace_def)
qed (simp_all add: bare_parser_def destined_def)

lemma group_accepts:
  assumes "parse_known_args (group_parser dest parsers) args = Inr (ns, extras)"
  shows "\<exists>name q rest sub_ns sub_extras. map_of parsers name = Some q \<and>
    parse_known_args q rest = Inr (sub_ns, sub_extras) \<and> ns = [dest \<mapsto> Arg_str name] ++ sub_ns"
proof (rule accepts_subcommand [OF assms, of dest parsers], goal_cases)
  case (4 st name q rest sub_ns sub_extras)
  with help_only [of "default_namespace (group_parser dest parsers)" st]
  have "ns = [dest \<mapsto> Arg_str name] ++ sub_ns"
    by (simp add: group_parser_def finish_parse_iff default_namespace_def)
  with 4 show ?case by blast
qed (simp_all add: group_parser_def destined_def)

lemma apply_accepts:
  assumes "parse_known_args (Parser [help_option, file_option] None) args = Inr (ns, extras)"
  shows "\<exists>path. ns = [''config_path'' \<mapsto> Arg_str path]"
proof (rule parse_known_args_accepts [OF assms], goal_cases)
  case (2 st)
  then have ns: "ns = fst st" and seen: "''config_path'' \<in> set (snd st)"
    by (auto simp: finish_parse_iff missing_def split: if_splits)
  from 2(1) have ok: "state_ok [help_option, file_option] [''config_path'' \<mapsto> Arg_none] st"
    by (simp add: default_namespace_def)
  from ok seen obtain path where "fst st ''config_path'' = Some (Arg_str path)"
    by (auto simp: state_ok_def stored_def)
  moreover have "fst st d = None" if "d \<noteq> ''config_path''" for d
  proof (cases "d \<in> set (snd st)")
    case True
    with ok have "\<exists>v. stored [help_option, file_option] d v" unfolding state_ok_def by blast
    with that show ?thesis by (auto simp: stored_def)
  next
    case False
    with ok that show ?thesis unfolding state_ok_def by simp
  qed
  ultimately show ?case unfolding ns by (intro exI [of _ path] ext) simp
qed (simp_all add: destined_def)

lemma pair_accepts:
  assumes "parse_known_args (group_parser dest [(a, bare_parser), (b, bare_parser)]) args = Inr (ns, extras)"
  shows "ns = [dest \<mapsto> Arg_str a] \<or> ns = [dest \<mapsto> Arg_str b]"
  using group_accepts [OF assms] by (auto split: if_splits dest!: bare_accepts)

lemma topology_accepts:
  assumes "parse_known_args (group_parser dest [(a, Parser [help_option, file_option] None), (b, bare_parser)]) args =
      Inr (ns, extras)"
  shows "(\<exists>path. ns = [dest \<mapsto> Arg_str a] ++ [''config_path'' \<mapsto> Arg_str path]) \<or> ns = [dest \<mapsto> Arg_str b]"
  using group_accepts [OF assms] by (auto split: if_splits dest!: bare_accepts apply_accepts)

text \<open>The options of the tool itself, with the namespace of the subcommand.\<close>

lemma ctl_accepts:
  assumes "parse_known_args (ctl_build_parser environ) argv = Inr (ns, extras)"
  obtains name q rest sub_ns sub_extras where "map_of ctl_subparsers name = Some q"
    and "parse_known_args q rest = Inr (sub_ns, sub_extras)"
    and "sub_ns ''command'' = None \<longrightarrow> ns ''command'' = Some (Arg_str name)"
    and "sub_ns ''controller_url'' = None \<longrightarrow> (\<exists>url. ns ''controller_url'' = Some (Arg_str url))"
    and "sub_ns ''json_output'' = None \<longrightarrow> (\<exists>b. ns ''json_output'' = Some (Arg_bool b))"
    and "\<And>k. k \<notin> {''command'', ''controller_url'', ''json_output''} \<Longrightarrow> ns k = sub_ns k"
proof -
  let ?p = "ctl_build_parser environ"
  have opts: "ap_options ?p = [help_option, controller_url_option environ, json_option]"
    and subparsers: "ap_subparsers ?p = Some (''command'', ctl_subparsers)"
    by (simp_all add: ctl_build_parser_def)
  from assms subparsers obtain st name q rest sub_ns sub_extras where st: "state_ok (ap_options ?p) (default_namespace ?p) st"
    and sub: "map_of ctl_subparsers name = Some q" "parse_known_args q rest = Inr (sub_ns, sub_extras)"
    and fin: "finish_parse ?p ((fst st)(''command'' \<mapsto> Arg_str name) ++ sub_ns, ''command'' # snd st) extras = Inr (ns, extras)"
    by (rule accepts_subcommand) (simp_all add: opts destined_def)
  let ?ns = "(fst st)(''command'' \<mapsto> Arg_str name) ++ sub_ns"
  have start: "default_namespace ?p ''controller_url'' = Some (op_default (controller_url_option environ))"
    "default_namespace ?p ''json_output'' = Some (Arg_bool False)"
    "\<And>k. k \<notin> {''command'', ''controller_url'', ''json_output''} \<Longrightarrow> default_namespace ?p k = None"
    by (simp_all add: default_namespace_def opts subparsers)
  have seen: "fst st k = Some v \<longrightarrow> stored (ap_options ?p) k v" "\<exists>v. fst st k = Some v" if "k \<in> set (snd st)" for k v
    using st that by (auto simp: state_ok_def)
  have unseen: "fst st k = default_namespace ?p k" if "k \<notin> set (snd st)" for k
    using st that by (auto simp: state_ok_def)
  from fin have ns: "ns = (if ''controller_url'' \<in> set (snd st) then ?ns
      else ?ns(''controller_url'' \<mapsto> op_default (controller_url_option environ)))"
    by (auto simp: finish_parse_iff opts)
  have url: "\<exists>url. ?ns ''controller_url'' = Some (Arg_str url)"
    if "''controller_url'' \<in> set (snd st)" "sub_ns ''controller_url'' = None"
    using seen [OF that(1)] that(2) by (auto simp: stored_def opts map_add_def)
  have json: "\<exists>b. fst st ''json_output'' = Some (Arg_bool b)"
    using seen [of "''json_output''"] unseen [of "''json_output''"] start(2)
    by (cases "''json_output'' \<in> set (snd st)") (auto simp: stored_def opts)
  have other: "fst st k = None" if "k \<notin> {''command'', ''controller_url'', ''json_output''}" for k
    using seen [of k] unseen [of k] start(3) [OF that] that
    by (cases "k \<in> set (snd st)") (auto simp: stored_def opts)
  show thesis
    by (rule that [OF sub]) (use url json other in \<open>auto simp: ns map_add_def split: option.splits\<close>)
qed

lemma accepted_line:
  assumes "parse_args (ctl_build_parser environ) argv = Inr ns"
  shows "parsed (args_of ns) \<and> (\<exists>url. ns ''controller_url'' = Some (Arg_str url)) \<and>
    (\<exists>b. ns ''json_output'' = Some (Arg_bool b)) \<and>
    (ag_topology_command (args_of ns) = Some ''apply'' \<longrightarrow> (\<exists>path. ns ''config_path'' = Some (Arg_str path)))"
proof -
  from assms obtain extras where "parse_known_args (ctl_build_parser environ) argv = Inr (ns, extras)"
    by (auto simp: parse_args_def split: sum.splits if_splits)
  then show ?thesis
  proof (rule ctl_accepts, goal_cases)
    case (1 name q rest sub_ns sub_extras)
    note sub = 1
    then consider "name = ''status''" "q = bare_parser"
      | "name = ''stats''" "q = group_parser ''stats_command'' [(''show'', bare_parser), (''reset'', bare_parser)]"
      | "name = ''datapath''" "q = group_parser ''datapath_command'' [(''pause'', bare_parser), (''resume'', bare_parser)]"
      | "name = ''topology''" "q = group_parser ''topology_command''
          [(''apply'', Parser [help_option, file_option] None), (''destroy'', bare_parser)]"
      by (auto simp: ctl_subparsers_def split: if_splits)
    then show ?case
    proof cases
      case 1
      with sub bare_accepts [of rest sub_ns] show ?thesis by (simp add: args_of_def parsed_def)
    next
      case 2
      from pair_accepts [OF sub(2) [unfolded 2]] sub 2 show ?thesis by (elim disjE) (simp_all add: args_of_def parsed_def)
    next
      case 3
      from pair_accepts [OF sub(2) [unfolded 3]] sub 3 show ?thesis by (elim disjE) (simp_all add: args_of_def parsed_def)
    next
      case 4
      from topology_accepts [OF sub(2) [unfolded 4]] sub 4 show ?thesis
        by (elim disjE exE) (simp_all add: args_of_def parsed_def)
    qed
  qed
qed

section \<open>Command lines for every request\<close>

text \<open>The line that asks for what the dispatch is to do.\<close>

definition argv_of :: "args \<Rightarrow> string list" where
  "argv_of a =
     [''--controller-url='' @ ag_controller_url a] @ (if ag_json_output a then [''--json''] else []) @
     [ag_command a] @
     (case ag_stats_command a of None \<Rightarrow> [] | Some c \<Rightarrow> [c]) @
     (case ag_datapath_command a of None \<Rightarrow> [] | Some c \<Rightarrow> [c]) @
     (case ag_topology_command a of
        None \<Rightarrow> []
      | Some c \<Rightarrow> if c = ''apply'' then [c, ''--file='' @ ag_config_path a] else [c])"

text \<open>Requests: nothing is set but what the command has.\<close>

definition request_args :: "args \<Rightarrow> bool" where
  "request_args a \<longleftrightarrow> parsed a \<and>
     (ag_stats_command a \<noteq> None \<longrightarrow> ag_command a = ''stats'') \<and>
     (ag_datapath_command a \<noteq> None \<longrightarrow> ag_command a = ''datapath'') \<and>
     (ag_topology_command a \<noteq> None \<longrightarrow> ag_command a = ''topology'') \<and>
     (ag_config_path a \<noteq> [] \<longrightarrow> ag_topology_command a = Some ''apply'')"

lemma bare_line: "parse_known_args bare_parser [] = Inr (Map.empty, [])"
  by (simp add: parse_known_args.simps bare_parser_def scan_end default_namespace_def finish_parse_def missing_def)

lemma actions_of:
  "option_string_actions [help_option] = [(''-h'', help_option), (''--help'', help_option)]"
  "option_string_actions [help_option, file_option] =
     [(''-h'', help_option), (''--help'', help_option), (''-f'', file_option), (''--file'', file_option)]"
  "option_string_actions [help_option, controller_url_option environ, json_option] =
     [(''-h'', help_option), (''--help'', help_option), (''--controller-url'', controller_url_option environ),
      (''--json'', json_option)]"
  by (simp_all add: option_string_actions_def)

lemma apply_line:
  "parse_known_args (Parser [help_option, file_option] None) [''--file='' @ path] =
     Inr ([''config_path'' \<mapsto> Arg_str path], [])"
proof -
  have "parse_optional [help_option, file_option] (''--file='' @ path) =
      Inr (Some (Some file_option, ''--file'', Some (''='', path)))"
    using parse_optional_explicit [of "[help_option, file_option]" "''file''" file_option path] by (simp add: actions_of)
  then show ?thesis
    by (simp add: parse_known_args.simps scan_steps default_namespace_def finish_parse_def missing_def)
qed

text \<open>The last argument of the longest line, for the parsers it only passes through.\<close>

lemma file_passes:
  assumes "opts = [help_option] \<or> opts = [help_option, controller_url_option environ, json_option]"
  shows "\<exists>items. classify opts [''--file='' @ path] = Inr items"
proof -
  have "\<forall>(n, x) \<in> set (option_string_actions opts). \<not> starts_with n (''--'' @ ''file'') \<and> CHR ''='' \<notin> set n"
    using assms by (auto simp: actions_of starts_with_def)
  from parse_optional_unknown [OF this, of path] show ?thesis by (auto simp: map_sum_def)
qed

lemma pair_line:
  assumes "a \<noteq> []" "hd a \<noteq> CHR ''-''" and "map_of parsers a = Some bare_parser"
  shows "parse_known_args (group_parser dest parsers) [a] = Inr ([dest \<mapsto> Arg_str a], [])"
  using parse_subcommand [where p = "group_parser dest parsers" and s = a and rest = "[]" and items = "[]",
      OF assms(1,2) _ _ assms(3) bare_line]
  by (simp add: group_parser_def finish_parse_def missing_def default_namespace_def)

lemma topology_line:
  "parse_known_args (group_parser ''topology_command''
      [(''apply'', Parser [help_option, file_option] None), (''destroy'', bare_parser)]) [''apply'', ''--file='' @ path] =
     Inr ([''topology_command'' \<mapsto> Arg_str ''apply'', ''config_path'' \<mapsto> Arg_str path], [])"
proof -
  let ?p = "group_parser ''topology_command'' [(''apply'', Parser [help_option, file_option] None), (''destroy'', bare_parser)]"
  obtain items where "classify (ap_options ?p) [''--file='' @ path] = Inr items"
    using file_passes [of "[help_option]"] by (auto simp: group_parser_def)
  from parse_subcommand [where p = ?p and s = "''apply''", OF _ _ this _ _ apply_line] show ?thesis
    by (simp add: group_parser_def finish_parse_def missing_def default_namespace_def)
qed

lemma ctl_line:
  assumes "c \<noteq> []" and "hd c \<noteq> CHR ''-''" and "map_of ctl_subparsers c = Some q"
    and "classify [help_option, controller_url_option environ, json_option] rest = Inr items"
    and "parse_known_args q rest = Inr (sub_ns, [])"
  shows "parse_args (ctl_build_parser environ)
      ([''--controller-url='' @ url] @ (if json then [''--json''] else []) @ c # rest) =
    Inr ([''controller_url'' \<mapsto> Arg_str url, ''json_output'' \<mapsto> Arg_bool json, ''command'' \<mapsto> Arg_str c] ++ sub_ns)"
proof -
  let ?opts = "[help_option, controller_url_option environ, json_option]" and ?p = "ctl_build_parser environ"
  define u where "u = ''--controller-url='' @ url"
  define line where "line = [u] @ (if json then [''--json''] else []) @ c # rest"
  have u: "parse_optional ?opts u = Inr (Some (Some (controller_url_option environ), ''--controller-url'', Some (''='', url)))"
    "u \<noteq> ''--''"
    using parse_optional_explicit [of ?opts "''controller-url''" "controller_url_option environ" url]
    by (simp_all add: actions_of u_def)
  have json: "parse_optional ?opts ''--json'' = Inr (Some (Some json_option, ''--json'', None))"
    by (simp add: parse_optional_def actions_of)
  have c: "parse_optional ?opts c = Inr None" "c \<noteq> ''--''" using assms(1,2) by (auto simp: parse_optional_def)
  obtain items' where items': "classify ?opts line = Inr items'"
    using assms(4) by (cases json) (auto simp: u json c line_def)
  define ns where "ns = (let n = (default_namespace ?p)(''controller_url'' \<mapsto> Arg_str url)
      in if json then n(''json_output'' \<mapsto> Arg_bool True) else n)"
  define seen where "seen = (if json then [''json_output'', ''controller_url''] else [''controller_url''])"
  have scan: "scan ?opts True items' (default_namespace ?p, []) [] = Inr ((ns, seen), [], Some (c, rest))"
    using items' assms(4) classify_fst [OF assms(4)]
    by (cases json) (auto simp: u json c line_def scan_steps ns_def seen_def Let_def)
  have ns: "ns = [''controller_url'' \<mapsto> Arg_str url, ''json_output'' \<mapsto> Arg_bool json, ''command'' \<mapsto> Arg_none]"
    by (auto simp: ns_def Let_def default_namespace_def ctl_build_parser_def fun_eq_iff)
  have "parse_known_args ?p line =
      finish_parse ?p (ns(''command'' \<mapsto> Arg_str c) ++ sub_ns, ''command'' # seen) []"
    unfolding parse_known_args.simps [of ?p] using items' scan assms(3,5) by (simp add: ctl_build_parser_def)
  moreover have "''controller_url'' \<in> set seen" by (simp add: seen_def)
  ultimately show ?thesis
    unfolding u_def [symmetric] line_def [symmetric]
    by (simp add: parse_args_def finish_parse_def missing_def ctl_build_parser_def ns)
qed

lemma request_line:
  assumes "request_args a"
  shows "\<exists>ns. parse_args (ctl_build_parser environ) (argv_of a) = Inr ns \<and> args_of ns = a"
proof -
  obtain url json c st dp tp path where a: "a = \<lparr>ag_controller_url = url, ag_json_output = json, ag_command = c,
      ag_stats_command = st, ag_datapath_command = dp, ag_topology_command = tp, ag_config_path = path\<rparr>"
    by (cases a) auto
  have subs: "map_of ctl_subparsers ''status'' = Some bare_parser"
    "map_of ctl_subparsers ''stats'' = Some (group_parser ''stats_command'' [(''show'', bare_parser), (''reset'', bare_parser)])"
    "map_of ctl_subparsers ''datapath'' = Some (group_parser ''datapath_command'' [(''pause'', bare_parser), (''resume'', bare_parser)])"
    "map_of ctl_subparsers ''topology'' = Some (group_parser ''topology_command''
       [(''apply'', Parser [help_option, file_option] None), (''destroy'', bare_parser)])"
    by (simp_all add: ctl_subparsers_def)
  obtain items where passes: "classify [help_option, controller_url_option environ, json_option] [''--file='' @ path] = Inr items"
    using file_passes by blast
  note line = ctl_line [where url = url and json = json and environ = environ]
  from assms consider "c = ''status''" "st = None" "dp = None" "tp = None" "path = []"
    | n where "c = ''stats''" "st = Some n" "n \<in> {''show'', ''reset''}" "dp = None" "tp = None" "path = []"
    | n where "c = ''datapath''" "dp = Some n" "n \<in> {''pause'', ''resume''}" "st = None" "tp = None" "path = []"
    | "c = ''topology''" "tp = Some ''destroy''" "st = None" "dp = None" "path = []"
    | "c = ''topology''" "tp = Some ''apply''" "st = None" "dp = None"
    by (auto simp: a request_args_def parsed_def)
  then show ?thesis
  proof cases
    case 1
    with line [of c, OF _ _ _ _ bare_line] subs show ?thesis by (simp add: a argv_of_def args_of_def)
  next
    case (2 n)
    with line [of c, OF _ _ _ _ pair_line [of n]] subs show ?thesis
      by (auto simp: a argv_of_def args_of_def parse_optional_def)
  next
    case (3 n)
    with line [of c, OF _ _ _ _ pair_line [of n]] subs show ?thesis
      by (auto simp: a argv_of_def args_of_def parse_optional_def)
  next
    case 4
    with line [of c, OF _ _ _ _ pair_line [of "''destroy''"]] subs show ?thesis
      by (simp add: a argv_of_def args_of_def parse_optional_def)
  next
    case 5
    have "parse_optional [help_option, controller_url_option environ, json_option] ''apply'' = Inr None"
      by (simp add: parse_optional_def)
    with 5 line [of c, OF _ _ _ _ topology_line] passes subs show ?thesis by (simp add: a argv_of_def args_of_def)
  qed
qed

section \<open>Properties\<close>

text \<open>C25. Every command line of the tool is handled, whatever the environment variables: the parser ends
  the run, with the status of its help or of a usage error, before anything is sent to the controller; or it
  hands over a command with its subcommand, the controller's address, the form of the output and, to apply a
  topology, a path, and then the run of that command is clean and only the exceptions of
  \<open>may_escape\<close> leave it. The \<open>unsupported command\<close> at the end of the dispatch is never reached.\<close>

theorem every_line_is_handled:
  "case parse_args (ctl_build_parser environ) argv of
     Inl e \<Rightarrow> pktlabctl_main env environ argv s = (Inl e, s)
   | Inr ns \<Rightarrow>
       \<exists>r s'. pktlabctl_main env environ argv s = (Inr r, s') \<and> parsed (args_of ns) \<and> clean_run r \<and>
         (\<forall>e. cli_exit r = Inl e \<longrightarrow> may_escape (args_of ns) e) \<and> (\<forall>m. cli_exit r \<noteq> Inl (CtlSystemExit m)) \<and>
         (\<exists>url. ns ''controller_url'' = Some (Arg_str url)) \<and> (\<exists>b. ns ''json_output'' = Some (Arg_bool b)) \<and>
         (ag_topology_command (args_of ns) = Some ''apply'' \<longrightarrow> (\<exists>path. ns ''config_path'' = Some (Arg_str path)))"
proof (cases "parse_args (ctl_build_parser environ) argv")
  case (Inl e)
  then show ?thesis by (simp add: pktlabctl_main_def)
next
  case (Inr ns)
  note line = accepted_line [OF Inr]
  let ?run = "cli_main env (args_of ns) s"
  have "clean_run (fst ?run)" by (rule cli_main_clean)
  moreover have escape: "may_escape (args_of ns) e" if "cli_exit (fst ?run) = Inl e" for e
    by (rule main_raises [OF _ that]) (use line in blast)
  moreover have "cli_exit (fst ?run) \<noteq> Inl (CtlSystemExit m)" for m
    using escape [of "CtlSystemExit m"] by (auto simp: may_escape_def)
  moreover have "pktlabctl_main env environ argv s = (Inr (fst ?run), snd ?run)"
    by (simp add: pktlabctl_main_def Inr map_prod_def case_prod_beta)
  ultimately show ?thesis using line unfolding Inr sum.case by blast
qed

theorem every_line_is_handled_witness:
  "pktlabctl_main silent_env (\<lambda>_. None) [''datapath'', ''stop''] () = (Inl (Usage_error (Invalid_choice ''stop'')), ()) \<and>
   (\<exists>r. pktlabctl_main silent_env (\<lambda>_. None) [''datapath'', ''pause''] () = (Inr r, ()) \<and> clean_run r)"
proof -
  have "parse_args (ctl_build_parser (\<lambda>_. None)) [''datapath'', ''stop''] = Inl (Usage_error (Invalid_choice ''stop''))"
    by (simp add: parse_args_def parse_known_args.simps ctl_build_parser_def ctl_subparsers_def group_parser_def
        parse_optional_def scan_subcommand default_namespace_def)
  moreover have "\<exists>ns. parse_args (ctl_build_parser (\<lambda>_. None)) [''datapath'', ''pause''] = Inr ns"
    by (simp add: parse_args_def parse_known_args.simps ctl_build_parser_def ctl_subparsers_def group_parser_def bare_parser_def
        parse_optional_def scan_steps default_namespace_def finish_parse_def missing_def)
  ultimately show ?thesis
    using every_line_is_handled [where environ = "\<lambda>_. None" and argv = "[''datapath'', ''stop'']" and env = silent_env and s = "()"]
      every_line_is_handled [where environ = "\<lambda>_. None" and argv = "[''datapath'', ''pause'']" and env = silent_env and s = "()"]
    by auto
qed

text \<open>C26. Every request can be asked for: the command line \<open>argv_of\<close> writes for a request, with any
  address and any path, blank ones and ones that look like options included, is parsed back to that
  request.\<close>

theorem command_line_round_trip:
  assumes "request_args a"
  shows "\<exists>ns. parse_args (ctl_build_parser environ) (argv_of a) = Inr ns \<and> args_of ns = a"
  by (rule request_line [OF assms])

theorem command_line_round_trip_witness:
  "\<exists>ns. parse_args (ctl_build_parser [''PKTLAB_CTRLD_URL'' \<mapsto> ''http://lab:1''])
       [''--controller-url='', ''--json'', ''topology'', ''apply'', ''--file=-f --json''] = Inr ns \<and>
     args_of ns = \<lparr>ag_controller_url = [], ag_json_output = True, ag_command = ''topology'', ag_stats_command = None,
       ag_datapath_command = None, ag_topology_command = Some ''apply'', ag_config_path = ''-f --json''\<rparr>"
proof -
  let ?a = "\<lparr>ag_controller_url = [], ag_json_output = True, ag_command = ''topology'', ag_stats_command = None,
       ag_datapath_command = None, ag_topology_command = Some ''apply'', ag_config_path = ''-f --json''\<rparr>"
  have "request_args ?a" by (simp add: request_args_def parsed_def)
  moreover have "argv_of ?a = [''--controller-url='', ''--json'', ''topology'', ''apply'', ''--file=-f --json'']"
    by (simp add: argv_of_def)
  ultimately show ?thesis using command_line_round_trip [of ?a "[''PKTLAB_CTRLD_URL'' \<mapsto> ''http://lab:1'']"] by metis
qed

end
