(* ===== verification/Ctrld_Main.thy ===== *)
theory Ctrld_Main
  imports Argparse Controller_Inv "HOL-Library.Monad_Syntax"
begin

text \<open>
  The entry point of the controller (\<open>ctrld/pktlab_ctrld/main.py\<close>): its parser with the defaults from the
  environment, the configuration and the controller it builds, and the call of uvicorn, which is a parameter.
\<close>

section \<open>The parser\<close>

definition DEFAULT_CONTROLLER_HOST :: string where
  "DEFAULT_CONTROLLER_HOST = ''127.0.0.1''"

definition DEFAULT_CONTROLLER_PORT :: int where
  "DEFAULT_CONTROLLER_PORT = 8080"

definition DEFAULT_DPDKD_BINARY :: string where
  "DEFAULT_DPDKD_BINARY = ''build/dpdkd/pktlab-dpdkd''"

definition DEFAULT_DPDKD_SOCKET_PATH :: string where
  "DEFAULT_DPDKD_SOCKET_PATH = ''/run/pktlab/dpdkd.sock''"

definition log_levels :: "string list" where
  "log_levels = [''critical'', ''error'', ''warning'', ''info'', ''debug'', ''trace'']"

definition text_option :: "string \<Rightarrow> string \<Rightarrow> string list option \<Rightarrow> string \<Rightarrow> arg_option" where
  "text_option name dest choices value =
     \<lparr>op_strings = [name], op_dest = Some dest, op_action = Store, op_type = (\<lambda>s. Some (Arg_str s)),
      op_choices = choices, op_required = False, op_default = Arg_str value\<rparr>"

definition port_option :: "int \<Rightarrow> arg_option" where
  "port_option value =
     \<lparr>op_strings = [''--port''], op_dest = Some ''port'', op_action = Store,
      op_type = (\<lambda>s. case py_int s of Inl e \<Rightarrow> None | Inr n \<Rightarrow> Some (Arg_int n)), op_choices = None,
      op_required = False, op_default = Arg_int value\<rparr>"

definition timeout_option :: "py_float \<Rightarrow> arg_option" where
  "timeout_option value =
     \<lparr>op_strings = [''--startup-timeout-seconds''], op_dest = Some ''startup_timeout_seconds'', op_action = Store,
      op_type = (\<lambda>s. map_option Arg_float (py_float_of s)), op_choices = None, op_required = False,
      op_default = Arg_float value\<rparr>"

definition no_supervise_option :: arg_option where
  "no_supervise_option =
     \<lparr>op_strings = [''--no-supervise-datapath''], op_dest = Some ''no_supervise_datapath'', op_action = Store_true,
      op_type = (\<lambda>s. Some (Arg_str s)), op_choices = None, op_required = False, op_default = Arg_bool False\<rparr>"

definition float_of_str :: "string \<Rightarrow> exn + py_float" where
  "float_of_str s =
     (case py_float_of s of
        None \<Rightarrow> Inl (PyValueError (''could not convert string to float: '' @ repr_str s))
      | Some x \<Rightarrow> Inr x)"

definition ctrld_options :: "(string \<rightharpoonup> string) \<Rightarrow> int \<Rightarrow> py_float \<Rightarrow> arg_option list" where
  "ctrld_options environ port timeout =
     [help_option,
      text_option ''--host'' ''host'' None (getenv environ ''PKTLAB_CTRLD_HOST'' DEFAULT_CONTROLLER_HOST),
      port_option port,
      text_option ''--dpdkd-bin'' ''dpdkd_bin'' None (getenv environ ''PKTLAB_DPDKD_BIN'' DEFAULT_DPDKD_BINARY),
      text_option ''--dpdkd-socket-path'' ''dpdkd_socket_path'' None
        (getenv environ ''PKTLAB_DPDKD_SOCKET_PATH'' DEFAULT_DPDKD_SOCKET_PATH),
      timeout_option timeout, no_supervise_option,
      text_option ''--log-level'' ''log_level'' (Some log_levels) (getenv environ ''PKTLAB_CTRLD_LOG_LEVEL'' ''warning'')]"

text \<open>The two defaults that are numbers are converted while the parser is built.\<close>

definition ctrld_build_parser :: "(string \<rightharpoonup> string) \<Rightarrow> exn + arg_parser" where
  "ctrld_build_parser environ =
     (case int_of_str (getenv environ ''PKTLAB_CTRLD_PORT'' (str_of_int DEFAULT_CONTROLLER_PORT)) of
        Inl message \<Rightarrow> Inl (PyValueError message)
      | Inr port \<Rightarrow>
          (case float_of_str (getenv environ ''PKTLAB_DPDKD_STARTUP_TIMEOUT'' ''5.0'') of
             Inl e \<Rightarrow> Inl e
           | Inr timeout \<Rightarrow> Inr (Parser (ctrld_options environ port timeout) None)))"

section \<open>Running the service\<close>

text \<open>The call of uvicorn: the application serves the controller with its configuration.\<close>

record uvicorn_call =
  uc_config :: ControllerConfig
  uc_controller :: ControllerRuntime
  uc_host :: string
  uc_port :: int
  uc_log_level :: string

text \<open>How the program gets there or ends before. The controller's model has a finite timeout; the code also
  takes infinity and \<open>nan\<close>, which compare as not at most zero.\<close>

datatype main_step =
    Parser_exits parser_exit
  | Raises exn
  | Unbounded_timeout
  | Serves uvicorn_call

definition start_service :: "string \<Rightarrow> int \<Rightarrow> string \<Rightarrow> ControllerConfig \<Rightarrow> main_step" where
  "start_service host port log_level candidate =
     (case ControllerConfig_post_init candidate of
        Inl e \<Rightarrow> Raises e
      | Inr config \<Rightarrow>
          (case controller_init config None of
             Inl e \<Rightarrow> Raises e
           | Inr controller \<Rightarrow>
               Serves \<lparr>uc_config = config, uc_controller = controller, uc_host = host, uc_port = port,
                 uc_log_level = log_level\<rparr>))"

text \<open>The configuration from the attributes; a negative infinity is refused like every number that is not
  positive.\<close>

definition serve_arguments ::
  "string \<Rightarrow> int \<Rightarrow> string \<Rightarrow> string \<Rightarrow> py_float \<Rightarrow> bool \<Rightarrow> string \<Rightarrow> main_step" where
  "serve_arguments host port dpdkd_bin dpdkd_socket_path timeout no_supervise log_level =
     (let candidate = \<lambda>seconds. \<lparr>cc_datapath_binary = dpdkd_bin, cc_datapath_socket_path = dpdkd_socket_path,
        cc_datapath_startup_timeout_seconds = seconds, cc_supervise_datapath = \<not> no_supervise\<rparr>
      in case timeout of
           Finite seconds \<Rightarrow> start_service host port log_level (candidate seconds)
         | Infinite True \<Rightarrow> start_service host port log_level (candidate (- 1))
         | _ \<Rightarrow>
             if str_strip dpdkd_bin = [] \<or> str_strip dpdkd_socket_path = [] then
               start_service host port log_level (candidate 1)
             else Unbounded_timeout)"

text \<open>Attributes of the namespace by type; the parser leaves a value of its type under each destination.\<close>

definition str_attr :: "namespace \<Rightarrow> string \<Rightarrow> string option" where
  "str_attr ns d = (case ns d of Some (Arg_str s) \<Rightarrow> Some s | _ \<Rightarrow> None)"

definition int_attr :: "namespace \<Rightarrow> string \<Rightarrow> int option" where
  "int_attr ns d = (case ns d of Some (Arg_int n) \<Rightarrow> Some n | _ \<Rightarrow> None)"

definition float_attr :: "namespace \<Rightarrow> string \<Rightarrow> py_float option" where
  "float_attr ns d = (case ns d of Some (Arg_float x) \<Rightarrow> Some x | _ \<Rightarrow> None)"

definition bool_attr :: "namespace \<Rightarrow> string \<Rightarrow> bool option" where
  "bool_attr ns d = (case ns d of Some (Arg_bool b) \<Rightarrow> Some b | _ \<Rightarrow> None)"

definition serve_namespace :: "namespace \<Rightarrow> main_step option" where
  "serve_namespace args =
     do {
       dpdkd_bin \<leftarrow> str_attr args ''dpdkd_bin'';
       dpdkd_socket_path \<leftarrow> str_attr args ''dpdkd_socket_path'';
       timeout \<leftarrow> float_attr args ''startup_timeout_seconds'';
       no_supervise \<leftarrow> bool_attr args ''no_supervise_datapath'';
       host \<leftarrow> str_attr args ''host'';
       port \<leftarrow> int_attr args ''port'';
       log_level \<leftarrow> str_attr args ''log_level'';
       Some (serve_arguments host port dpdkd_bin dpdkd_socket_path timeout no_supervise log_level)
     }"

text \<open>\<open>main\<close> up to the call of uvicorn.\<close>

definition main_steps :: "(string \<rightharpoonup> string) \<Rightarrow> string list \<Rightarrow> main_step" where
  "main_steps environ argv =
     (case ctrld_build_parser environ of
        Inl e \<Rightarrow> Raises e
      | Inr parser \<Rightarrow>
          (case parse_args parser argv of
             Inl e \<Rightarrow> Parser_exits e
           | Inr args \<Rightarrow>
               (case serve_namespace args of
                  None \<Rightarrow> Raises (PyTypeError ''arguments'')
                | Some ending \<Rightarrow> ending)))"

text \<open>The whole of \<open>main\<close>: its value is 0 when uvicorn returns.\<close>

definition ctrld_main ::
  "(uvicorn_call \<Rightarrow> 'w \<Rightarrow> (exn + unit) \<times> 'w) \<Rightarrow> (string \<rightharpoonup> string) \<Rightarrow> string list \<Rightarrow> 'w \<Rightarrow> (main_step + int) \<times> 'w" where
  "ctrld_main uvicorn_run environ argv w =
     (case main_steps environ argv of
        Serves call \<Rightarrow>
          (case uvicorn_run call w of (Inl e, w') \<Rightarrow> (Inl (Raises e), w') | (Inr u, w') \<Rightarrow> (Inr 0, w'))
      | other \<Rightarrow> (Inl other, w))"

section \<open>What reaches the controller\<close>

lemma text_fields [simp]:
  "op_strings (text_option name dest choices v) = [name]" "op_dest (text_option name dest choices v) = Some dest"
  "op_action (text_option name dest choices v) = Store" "op_type (text_option name dest choices v) s = Some (Arg_str s)"
  "op_choices (text_option name dest choices v) = choices" "op_required (text_option name dest choices v) = False"
  "op_default (text_option name dest choices v) = Arg_str v"
  by (simp_all add: text_option_def)

lemma port_fields [simp]:
  "op_strings (port_option v) = [''--port'']" "op_dest (port_option v) = Some ''port''" "op_action (port_option v) = Store"
  "op_choices (port_option v) = None" "op_required (port_option v) = False" "op_default (port_option v) = Arg_int v"
  by (simp_all add: port_option_def)

lemma port_type [simp]: "op_type (port_option v) s = Some x \<longleftrightarrow> (\<exists>n. py_int s = Inr n \<and> x = Arg_int n)"
  by (auto simp: port_option_def split: sum.splits)

lemma timeout_fields [simp]:
  "op_strings (timeout_option v) = [''--startup-timeout-seconds'']"
  "op_dest (timeout_option v) = Some ''startup_timeout_seconds''" "op_action (timeout_option v) = Store"
  "op_type (timeout_option v) s = map_option Arg_float (py_float_of s)"
  "op_choices (timeout_option v) = None" "op_required (timeout_option v) = False"
  "op_default (timeout_option v) = Arg_float v"
  by (simp_all add: timeout_option_def)

lemma no_supervise_fields [simp]:
  "op_strings no_supervise_option = [''--no-supervise-datapath'']"
  "op_dest no_supervise_option = Some ''no_supervise_datapath''" "op_action no_supervise_option = Store_true"
  "op_required no_supervise_option = False" "op_default no_supervise_option = Arg_bool False"
  by (simp_all add: no_supervise_option_def)

lemma ctrld_parser_fine:
  "destined (ctrld_options environ port timeout)" "distinct (dests (ctrld_options environ port timeout))"
  by (simp_all add: ctrld_options_def destined_def dests_def)

lemma arguments_typed:
  assumes "parse_args (Parser (ctrld_options environ port timeout) None) argv = Inr ns"
  shows "\<exists>h. ns ''host'' = Some (Arg_str h)" "\<exists>n. ns ''port'' = Some (Arg_int n)"
    "\<exists>b. ns ''dpdkd_bin'' = Some (Arg_str b)" "\<exists>s. ns ''dpdkd_socket_path'' = Some (Arg_str s)"
    "\<exists>t. ns ''startup_timeout_seconds'' = Some (Arg_float t)" "\<exists>b. ns ''no_supervise_datapath'' = Some (Arg_bool b)"
    "\<exists>l. ns ''log_level'' = Some (Arg_str l) \<and>
       (l \<in> set log_levels \<or> l = getenv environ ''PKTLAB_CTRLD_LOG_LEVEL'' ''warning'')"
proof -
  let ?p = "Parser (ctrld_options environ port timeout) None"
  from assms obtain extras where run: "parse_known_args ?p argv = Inr (ns, extras)"
    by (auto simp: parse_args_def split: sum.splits if_splits)
  note at = accepted_attribute [OF run, simplified, OF ctrld_parser_fine]
  show "\<exists>h. ns ''host'' = Some (Arg_str h)"
    using at [of "ctrld_options environ port timeout ! 1"] by (auto simp: ctrld_options_def stored_def)
  show "\<exists>n. ns ''port'' = Some (Arg_int n)"
    using at [of "port_option port"] by (auto simp: ctrld_options_def stored_def split: sum.splits)
  show "\<exists>b. ns ''dpdkd_bin'' = Some (Arg_str b)"
    using at [of "ctrld_options environ port timeout ! 3"] by (auto simp: ctrld_options_def stored_def)
  show "\<exists>s. ns ''dpdkd_socket_path'' = Some (Arg_str s)"
    using at [of "ctrld_options environ port timeout ! 4"] by (auto simp: ctrld_options_def stored_def)
  show "\<exists>t. ns ''startup_timeout_seconds'' = Some (Arg_float t)"
    using at [of "timeout_option timeout"] by (auto simp: ctrld_options_def stored_def)
  show "\<exists>b. ns ''no_supervise_datapath'' = Some (Arg_bool b)"
    using at [of no_supervise_option] by (auto simp: ctrld_options_def stored_def)
  show "\<exists>l. ns ''log_level'' = Some (Arg_str l) \<and>
      (l \<in> set log_levels \<or> l = getenv environ ''PKTLAB_CTRLD_LOG_LEVEL'' ''warning'')"
    using at [of "ctrld_options environ port timeout ! 7"] by (auto simp: ctrld_options_def stored_def)
qed

lemma controller_init_accepts:
  assumes "ControllerConfig_post_init cfg = Inr cfg"
  shows "\<exists>rt. controller_init cfg None = Inr rt"
  using assms
  by (auto simp: controller_init_def Let_def build_supervisor_config_def SupervisorConfig_post_init_def
      ControllerConfig_post_init_def split: if_splits sum.splits)

lemma start_service_cases:
  "(\<exists>m. start_service host port level cfg = Raises (PyValueError m)) \<or>
   (\<exists>rt. start_service host port level cfg =
      Serves \<lparr>uc_config = cfg, uc_controller = rt, uc_host = host, uc_port = port, uc_log_level = level\<rparr> \<and>
      ControllerConfig_post_init cfg = Inr cfg \<and> controller_init cfg None = Inr rt)"
proof (cases "ControllerConfig_post_init cfg")
  case (Inl e)
  then show ?thesis by (auto simp: start_service_def ControllerConfig_post_init_def split: if_splits)
next
  case (Inr c)
  then have "c = cfg" by (auto simp: ControllerConfig_post_init_def split: if_splits)
  with Inr controller_init_accepts [of cfg] show ?thesis by (auto simp: start_service_def)
qed

lemma serve_arguments_cases:
  "(\<exists>m. serve_arguments host port b s t n level = Raises (PyValueError m)) \<or>
   serve_arguments host port b s t n level = Unbounded_timeout \<or>
   (\<exists>cfg rt. serve_arguments host port b s t n level =
      Serves \<lparr>uc_config = cfg, uc_controller = rt, uc_host = host, uc_port = port, uc_log_level = level\<rparr> \<and>
      ControllerConfig_post_init cfg = Inr cfg \<and> controller_init cfg None = Inr rt)"
  using start_service_cases unfolding serve_arguments_def Let_def
  by (cases t) (force split: bool.split)+

lemma main_steps_cases:
  "(\<exists>m. main_steps environ argv = Raises (PyValueError m)) \<or> (\<exists>e. main_steps environ argv = Parser_exits e) \<or>
   main_steps environ argv = Unbounded_timeout \<or>
   (\<exists>cfg rt host port level. main_steps environ argv =
      Serves \<lparr>uc_config = cfg, uc_controller = rt, uc_host = host, uc_port = port, uc_log_level = level\<rparr> \<and>
      ControllerConfig_post_init cfg = Inr cfg \<and> controller_init cfg None = Inr rt \<and>
      (level \<in> set log_levels \<or> environ ''PKTLAB_CTRLD_LOG_LEVEL'' = Some level))"
proof (cases "ctrld_build_parser environ")
  case (Inl e)
  then show ?thesis
    by (auto simp: main_steps_def ctrld_build_parser_def float_of_str_def split: sum.splits option.splits)
next
  case (Inr p)
  then obtain port timeout where p: "p = Parser (ctrld_options environ port timeout) None"
    by (auto simp: ctrld_build_parser_def split: sum.splits)
  show ?thesis
  proof (cases "parse_args p argv")
    case (Inl e)
    with Inr show ?thesis by (simp add: main_steps_def)
  next
    case (Inr ns)
    note typed = arguments_typed [OF Inr [unfolded p]]
    from typed(1-6) obtain host pt b s t n where "ns ''host'' = Some (Arg_str host)" "ns ''port'' = Some (Arg_int pt)"
      "ns ''dpdkd_bin'' = Some (Arg_str b)" "ns ''dpdkd_socket_path'' = Some (Arg_str s)"
      "ns ''startup_timeout_seconds'' = Some (Arg_float t)" "ns ''no_supervise_datapath'' = Some (Arg_bool n)"
      by blast
    moreover have "''warning'' \<in> set log_levels" by (simp add: log_levels_def)
    then have "getenv environ ''PKTLAB_CTRLD_LOG_LEVEL'' ''warning'' \<in> set log_levels \<or>
        environ ''PKTLAB_CTRLD_LOG_LEVEL'' = Some (getenv environ ''PKTLAB_CTRLD_LOG_LEVEL'' ''warning'')"
      by (cases "environ ''PKTLAB_CTRLD_LOG_LEVEL''") (simp_all add: getenv_def)
    with typed(7) obtain level where level: "ns ''log_level'' = Some (Arg_str level)"
      "level \<in> set log_levels \<or> environ ''PKTLAB_CTRLD_LOG_LEVEL'' = Some level" by blast
    ultimately have "main_steps environ argv = serve_arguments host pt b s t n level"
      using level(1) Inr \<open>ctrld_build_parser environ = Inr p\<close>
      by (simp add: main_steps_def serve_namespace_def str_attr_def int_attr_def float_attr_def bool_attr_def)
    with serve_arguments_cases [of host pt b s t n level] level(2) show ?thesis by metis
  qed
qed

lemma main_steps_exits:
  assumes "main_steps environ argv = Parser_exits e"
  shows "\<exists>p. ctrld_build_parser environ = Inr p \<and> parse_args p argv = Inl e"
proof -
  have "serve_arguments h n b s t sup l \<noteq> Parser_exits e" for h n b s t sup l
    using serve_arguments_cases [of h n b s t sup l] by auto
  with assms show ?thesis
    by (auto simp: main_steps_def serve_namespace_def split: sum.splits option.splits bind_splits)
qed

lemma default_numbers:
  "int_of_str (str_of_int DEFAULT_CONTROLLER_PORT) = Inr 8080" "py_float_of ''5.0'' = Some (Finite 5)"
proof -
  show "int_of_str (str_of_int DEFAULT_CONTROLLER_PORT) = Inr 8080"
    using int_of_str_str_of_nat [OF small_below_digit_limit, of 8080] by (simp add: str_of_int_def DEFAULT_CONTROLLER_PORT_def)
  show "py_float_of ''5.0'' = Some (Finite 5)" by (simp add: number_defs)
qed

lemma default_parser: "\<exists>p. ctrld_build_parser (\<lambda>_. None) = Inr p"
  using default_numbers by (simp add: ctrld_build_parser_def getenv_def float_of_str_def)

section \<open>Lines with every flag\<close>

definition ctrld_argv :: "string \<Rightarrow> string \<Rightarrow> string \<Rightarrow> string \<Rightarrow> string \<Rightarrow> string \<Rightarrow> bool \<Rightarrow> string list" where
  "ctrld_argv host port dpdkd_bin dpdkd_socket_path timeout log_level no_supervise =
     [''--host='' @ host, ''--port='' @ port, ''--dpdkd-bin='' @ dpdkd_bin,
      ''--dpdkd-socket-path='' @ dpdkd_socket_path, ''--startup-timeout-seconds='' @ timeout,
      ''--log-level='' @ log_level] @ (if no_supervise then [''--no-supervise-datapath''] else [])"

lemma ctrld_actions: "option_string_actions (ctrld_options environ p t) =
    [(''-h'', help_option), (''--help'', help_option), (''--host'', ctrld_options environ p t ! 1), (''--port'', port_option p),
     (''--dpdkd-bin'', ctrld_options environ p t ! 3), (''--dpdkd-socket-path'', ctrld_options environ p t ! 4),
     (''--startup-timeout-seconds'', timeout_option t), (''--no-supervise-datapath'', no_supervise_option),
     (''--log-level'', ctrld_options environ p t ! 7)]"
  by (simp add: option_string_actions_def ctrld_options_def)

lemma ctrld_line:
  assumes "py_int pt = Inr n" and "py_float_of tt = Some x" and "level \<in> set log_levels"
  shows "\<exists>ns. parse_args (Parser (ctrld_options environ p t) None) (ctrld_argv h pt b s tt level no_supervise) = Inr ns \<and>
    serve_namespace ns = Some (serve_arguments h n b s x no_supervise level)"
proof -
  let ?opts = "ctrld_options environ p t"
  define xs where "xs = [(''host'', ?opts ! 1, h), (''port'', port_option p, pt), (''dpdkd-bin'', ?opts ! 3, b),
    (''dpdkd-socket-path'', ?opts ! 4, s), (''startup-timeout-seconds'', timeout_option t, tt), (''log-level'', ?opts ! 7, level)]"
  define flags where "flags = (if no_supervise then [''--no-supervise-datapath''] else [])"
  define items where "items = (if no_supervise
    then [(''--no-supervise-datapath'', Option (Some no_supervise_option, ''--no-supervise-datapath'', None))] else [])"
  have argv: "ctrld_argv h pt b s tt level no_supervise = map explicit_text xs @ flags"
    by (simp add: ctrld_argv_def xs_def flags_def)
  have ok: "explicit_ok ?opts xs"
    unfolding explicit_ok_def ctrld_actions xs_def by (simp add: ctrld_options_def)
  have cl: "classify ?opts flags = Inr items"
    by (simp add: flags_def items_def parse_optional_def ctrld_actions)
  let ?p = "Parser ?opts None"
  define ns1 where "ns1 = (default_namespace ?p)(''host'' \<mapsto> Arg_str h, ''port'' \<mapsto> Arg_int n, ''dpdkd_bin'' \<mapsto> Arg_str b,
    ''dpdkd_socket_path'' \<mapsto> Arg_str s, ''startup_timeout_seconds'' \<mapsto> Arg_float x, ''log_level'' \<mapsto> Arg_str level)"
  define seen where "seen = [''log_level'', ''startup_timeout_seconds'', ''dpdkd_socket_path'', ''dpdkd_bin'', ''port'', ''host'']"
  define ns where "ns = (if no_supervise then ns1(''no_supervise_datapath'' \<mapsto> Arg_bool True) else ns1)"
  have none_missing: "missing ?p l = []" for l by (simp add: missing_def ctrld_options_def)
  have port: "op_type (port_option p) pt = Some (Arg_int n)" using assms(1) by simp
  have "take_actions (map (\<lambda>(name, opt, v). (opt, Some v)) xs) (default_namespace ?p, []) = Inr (ns1, seen)"
    using assms(2,3) by (simp add: xs_def ns1_def seen_def ctrld_options_def port)
  then have scan: "scan ?opts False (map (\<lambda>(name, opt, v). (explicit_text (name, opt, v), Option (Some opt, ''--'' @ name, Some (''='', v)))) xs @ items)
      (default_namespace ?p, []) [] = Inr ((ns, (if no_supervise then [''no_supervise_datapath''] else []) @ seen), [], None)"
    unfolding scan_explicit [OF ok] by (simp add: items_def scan_steps ns_def)
  have "parse_known_args ?p (map explicit_text xs @ flags) =
      finish_parse ?p (ns, (if no_supervise then [''no_supervise_datapath''] else []) @ seen) []"
    unfolding parse_known_args.simps [of ?p] using classify_explicit [OF ok cl] scan by simp
  also have "\<dots> = Inr (ns, [])"
    using none_missing by (simp add: finish_parse_def seen_def) (simp add: ctrld_options_def)
  finally have "parse_args ?p (ctrld_argv h pt b s tt level no_supervise) = Inr ns" by (simp add: parse_args_def argv)
  moreover have "default_namespace ?p ''no_supervise_datapath'' = Some (Arg_bool False)"
    by (simp add: default_namespace_def ctrld_options_def)
  then have "serve_namespace ns = Some (serve_arguments h n b s x no_supervise level)"
    by (simp add: serve_namespace_def ns_def ns1_def str_attr_def int_attr_def float_attr_def bool_attr_def)
  ultimately show ?thesis by blast
qed

section \<open>Properties\<close>


text \<open>C27. The flags reach the controller: with every flag given, as \<open>--flag=value\<close>, a port that is a
  number, a positive timeout and one of the declared log levels, uvicorn is called with that host, port and
  log level for a controller of exactly the given binary, socket path, timeout and supervision, whatever valid
  values the environment variables have.\<close>

theorem flags_reach_controller:
  assumes "ctrld_build_parser environ = Inr p" and "n < 10 ^ int_max_str_digits"
    and "py_float_of timeout = Some (Finite seconds)" and "0 < seconds" and "level \<in> set log_levels"
    and "str_strip dpdkd_bin \<noteq> []" and "str_strip socket_path \<noteq> []"
  shows "\<exists>rt. main_steps environ (ctrld_argv host (str_of_nat n) dpdkd_bin socket_path timeout level no_supervise) =
    Serves \<lparr>uc_config = \<lparr>cc_datapath_binary = dpdkd_bin, cc_datapath_socket_path = socket_path,
        cc_datapath_startup_timeout_seconds = seconds, cc_supervise_datapath = \<not> no_supervise\<rparr>,
      uc_controller = rt, uc_host = host, uc_port = int n, uc_log_level = level\<rparr> \<and>
    (rt_supervisor rt = None) = no_supervise \<and> \<not> rt_started rt"
proof -
  let ?cfg = "\<lparr>cc_datapath_binary = dpdkd_bin, cc_datapath_socket_path = socket_path,
        cc_datapath_startup_timeout_seconds = seconds, cc_supervise_datapath = \<not> no_supervise\<rparr>"
  have ok: "ControllerConfig_post_init ?cfg = Inr ?cfg" using assms(4,6,7) by (simp add: ControllerConfig_post_init_def)
  then obtain rt where rt: "controller_init ?cfg None = Inr rt" using controller_init_accepts by blast
  from assms(1) obtain port t where p: "p = Parser (ctrld_options environ port t) None"
    by (auto simp: ctrld_build_parser_def split: sum.splits)
  from ctrld_line [OF py_int_decimal [OF assms(2)] assms(3,5)] obtain ns where
    "parse_args p (ctrld_argv host (str_of_nat n) dpdkd_bin socket_path timeout level no_supervise) = Inr ns"
    "serve_namespace ns = Some (serve_arguments host (int n) dpdkd_bin socket_path (Finite seconds) no_supervise level)"
    unfolding p by blast
  with assms(1) have "main_steps environ (ctrld_argv host (str_of_nat n) dpdkd_bin socket_path timeout level no_supervise) =
      serve_arguments host (int n) dpdkd_bin socket_path (Finite seconds) no_supervise level"
    by (simp add: main_steps_def)
  also have "\<dots> = Serves \<lparr>uc_config = ?cfg, uc_controller = rt, uc_host = host, uc_port = int n, uc_log_level = level\<rparr>"
    using ok rt by (simp add: serve_arguments_def start_service_def)
  finally show ?thesis
    using rt by (auto simp: controller_init_def Let_def split: if_splits sum.splits)
qed

theorem flags_reach_controller_witness:
  "\<exists>rt. main_steps (\<lambda>_. None) [''--host=::1'', ''--port=9090'', ''--dpdkd-bin=dpdkd'', ''--dpdkd-socket-path=/run/s'',
       ''--startup-timeout-seconds=2.5'', ''--log-level=debug'', ''--no-supervise-datapath''] =
    Serves \<lparr>uc_config = \<lparr>cc_datapath_binary = ''dpdkd'', cc_datapath_socket_path = ''/run/s'',
        cc_datapath_startup_timeout_seconds = 5 / 2, cc_supervise_datapath = False\<rparr>,
      uc_controller = rt, uc_host = ''::1'', uc_port = 9090, uc_log_level = ''debug''\<rparr> \<and> rt_supervisor rt = None"
proof -
  obtain p where p: "ctrld_build_parser (\<lambda>_. None) = Inr p" using default_parser by blast
  have timeout: "py_float_of ''2.5'' = Some (Finite (5 / 2))" by (simp add: number_defs)
  have level: "''debug'' \<in> set log_levels" by (simp add: log_levels_def)
  have strip: "str_strip ''dpdkd'' \<noteq> []" "str_strip ''/run/s'' \<noteq> []" by (simp_all add: str_strip_def char_isspace_def)
  have argv: "ctrld_argv ''::1'' (str_of_nat 9090) ''dpdkd'' ''/run/s'' ''2.5'' ''debug'' True =
      [''--host=::1'', ''--port=9090'', ''--dpdkd-bin=dpdkd'', ''--dpdkd-socket-path=/run/s'',
       ''--startup-timeout-seconds=2.5'', ''--log-level=debug'', ''--no-supervise-datapath'']"
    by (simp add: ctrld_argv_def str_of_nat.simps)
  have "(0 :: rat) < 5 / 2" by simp
  from flags_reach_controller [OF p small_below_digit_limit timeout this level strip, of 9090 "''::1''" True] show ?thesis
    unfolding argv by auto
qed

text \<open>A level that is not declared is refused on the command line, but not in the variable for it: the choices
  are checked for arguments only.\<close>

theorem log_level_variable_unchecked:
  assumes "level \<notin> set log_levels"
  shows "main_steps (\<lambda>_. None) [''--log-level='' @ level] = Parser_exits (Usage_error (Invalid_choice level)) \<and>
    (\<exists>call. main_steps [''PKTLAB_CTRLD_LOG_LEVEL'' \<mapsto> level] [] = Serves call \<and> uc_log_level call = level)"
proof (rule conjI)
  let ?opts = "\<lambda>environ. ctrld_options environ 8080 (Finite 5)"
  have parser: "ctrld_build_parser environ = Inr (Parser (?opts environ) None)"
    if "environ ''PKTLAB_CTRLD_PORT'' = None" "environ ''PKTLAB_DPDKD_STARTUP_TIMEOUT'' = None" for environ
    using that default_numbers by (simp add: ctrld_build_parser_def getenv_def float_of_str_def)
  let ?none = "\<lambda>_. None :: string option"
  have ok: "explicit_ok (?opts ?none) [(''log-level'', ?opts ?none ! 7, level)]"
    unfolding explicit_ok_def ctrld_actions by (simp add: ctrld_options_def)
  have "classify (?opts ?none) [''--log-level='' @ level] =
      Inr [(''--log-level='' @ level, Option (Some (?opts ?none ! 7), ''--log-level'', Some (''='', level)))]"
    using classify_explicit [OF ok, of "[]" "[]"] by simp
  then have "parse_args (Parser (?opts ?none) None) [''--log-level='' @ level] = Inl (Usage_error (Invalid_choice level))"
    using assms unfolding parse_args_def parse_known_args.simps [of "Parser (?opts ?none) None"]
    by (auto simp: scan_option ctrld_options_def)
  then show "main_steps (\<lambda>_. None) [''--log-level='' @ level] = Parser_exits (Usage_error (Invalid_choice level))"
    by (simp add: main_steps_def parser)
  let ?e = "[''PKTLAB_CTRLD_LOG_LEVEL'' \<mapsto> level]" and ?p = "Parser (?opts [''PKTLAB_CTRLD_LOG_LEVEL'' \<mapsto> level]) None"
  have no_line: "parse_known_args ?p [] = finish_parse ?p (default_namespace ?p, []) []"
    by (simp add: parse_known_args.simps [of ?p] scan_end)
  have none_missing: "missing ?p [] = []" by (simp add: missing_def ctrld_options_def)
  have "\<exists>ns. parse_args ?p [] = Inr ns \<and> serve_namespace ns = Some (serve_arguments DEFAULT_CONTROLLER_HOST 8080
      DEFAULT_DPDKD_BINARY DEFAULT_DPDKD_SOCKET_PATH (Finite 5) False level)"
    unfolding parse_args_def no_line finish_parse_def using none_missing
    by (simp add: default_namespace_def ctrld_options_def getenv_def serve_namespace_def str_attr_def int_attr_def
        float_attr_def bool_attr_def)
  then have "main_steps ?e [] = serve_arguments DEFAULT_CONTROLLER_HOST 8080 DEFAULT_DPDKD_BINARY DEFAULT_DPDKD_SOCKET_PATH
      (Finite 5) False level"
    by (auto simp: main_steps_def parser)
  let ?cfg = "\<lparr>cc_datapath_binary = DEFAULT_DPDKD_BINARY, cc_datapath_socket_path = DEFAULT_DPDKD_SOCKET_PATH,
      cc_datapath_startup_timeout_seconds = 5, cc_supervise_datapath = True\<rparr>"
  have "ControllerConfig_post_init ?cfg = Inr ?cfg"
    by (simp add: ControllerConfig_post_init_def DEFAULT_DPDKD_BINARY_def DEFAULT_DPDKD_SOCKET_PATH_def str_strip_def
        char_isspace_def)
  moreover from controller_init_accepts [OF this] obtain rt where "controller_init ?cfg None = Inr rt" by blast
  moreover note \<open>main_steps ?e [] = _\<close>
  ultimately show "\<exists>call. main_steps ?e [] = Serves call \<and> uc_log_level call = level"
    by (simp add: serve_arguments_def start_service_def)
qed

text \<open>A timeout that is no number passes the check that it is greater than zero.\<close>

theorem nan_timeout_accepted:
  assumes "ctrld_build_parser environ = Inr p" and "n < 10 ^ int_max_str_digits" and "level \<in> set log_levels"
    and "str_strip dpdkd_bin \<noteq> []" and "str_strip socket_path \<noteq> []"
  shows "main_steps environ (ctrld_argv host (str_of_nat n) dpdkd_bin socket_path ''nan'' level no_supervise) = Unbounded_timeout"
proof -
  have nan: "py_float_of ''nan'' = Some Not_a_number" by (simp add: number_defs)
  from assms(1) obtain port t where p: "p = Parser (ctrld_options environ port t) None"
    by (auto simp: ctrld_build_parser_def split: sum.splits)
  from ctrld_line [OF py_int_decimal [OF assms(2)] nan assms(3)] obtain ns where
    "parse_args p (ctrld_argv host (str_of_nat n) dpdkd_bin socket_path ''nan'' level no_supervise) = Inr ns"
    "serve_namespace ns = Some (serve_arguments host (int n) dpdkd_bin socket_path Not_a_number no_supervise level)"
    unfolding p by blast
  with assms show ?thesis by (simp add: main_steps_def serve_arguments_def)
qed

end
