(* ===== verification/Launch.thy ===== *)
theory Launch
  imports Controller_Inv
begin

text \<open>
  The command line of the datapath: what \<open>_start_topology_datapath\<close> of \<open>ctrld/pktlab_ctrld/app.py\<close>
  passes to the supervisor for a validated topology, read back as the daemon's option parser reads it.
\<close>

section \<open>Reading a command line\<close>

fun options :: "string list \<Rightarrow> (string \<times> string) list" where
  "options (flag # token # rest) = (flag, token) # options rest"
| "options _ = []"

text \<open>The command the controller gives the supervisor, as \<open>_start_topology_datapath\<close> computes it.\<close>

definition configured :: "ControllerConfig \<Rightarrow> ValidatedTopologyConfig \<Rightarrow> exn + SupervisorConfig" where
  "configured cfg validated =
     (case build_dpdk_runtime_args validated of
        Inl e \<Rightarrow> Inl e
      | Inr extra_args \<Rightarrow>
          build_supervisor_config cfg (Some (dc_namespace (vt_requested_dpdk_config validated))) extra_args)"

lemma start_topology_datapath_configured:
  fixes env :: "'w controller_env"
  shows "start_topology_datapath env cfg validated =
     (if \<not> cc_supervise_datapath cfg then
        raise (Pktlab (mk_PktlabError STATE_CONFLICT
          ''controller was started without datapath supervision, so topology apply cannot launch pktlab-dpdkd''
          None))
      else
        then_do (stop_supervisor env)
       (bind (lift_sum (configured cfg validated)) (\<lambda>config.
        let su = \<lparr>su_config = config, su_state = initial_supervisor\<rparr> in
        then_do (modify (\<lambda>rt. rt\<lparr>rt_supervisor := Some su\<rparr>))
          (on_supervisor (supervisor_start (ce_process env)) su))))"
proof -
  have "bind (lift_sum (build_dpdk_runtime_args validated)) (\<lambda>extra_args.
      bind (lift_sum (build_supervisor_config cfg
              (Some (dc_namespace (vt_requested_dpdk_config validated))) extra_args)) k) =
    bind (lift_sum (configured cfg validated)) k" for k :: "SupervisorConfig \<Rightarrow> ('w, DatapathProcessStatus) cprog"
    by (rule ext) (simp add: bind_def lift_sum_def configured_def split: sum.split)
  then show ?thesis unfolding start_topology_datapath_def by simp
qed

section \<open>The parts of the command line\<close>

lemma role_found:
  assumes "count_list (map dp_role ports) role = 1"
  obtains port where "filter (\<lambda>p. dp_role p = role) ports = [port]"
proof -
  have "length (filter (\<lambda>p. dp_role p = role) ports) = count_list (map dp_role ports) role"
    by (induction ports) auto
  with assms that show ?thesis by (cases "filter (\<lambda>p. dp_role p = role) ports") auto
qed

lemma blank_has_no_tokens:
  assumes "str_strip s = []"
  shows "lcore_tokens s = []"
proof -
  from assms have "CHR '','' \<notin> set s"
    by (auto simp: str_strip_Nil_iff list_all_iff char_isspace_def)
  with assms show ?thesis by (simp add: lcore_tokens_def str_split_no_sep)
qed

lemma core_list_not_blank: "lcore_set s = Some ids \<Longrightarrow> str_strip s \<noteq> []"
  using blank_has_no_tokens [of s] by (auto simp: lcore_set_def split: option.splits if_splits)

lemma number_not_blank:
  assumes "0 \<le> i"
  shows "str_strip (str_of_int i) \<noteq> []"
proof
  assume "str_strip (str_of_int i) = []"
  with assms have "list_all char_isspace (str_of_nat (nat i))" by (simp add: str_strip_Nil_iff str_of_int_def)
  with str_of_nat_decimal [of "nat i"] str_of_nat_not_Nil [of "nat i"] show False
    by (cases "str_of_nat (nat i)") (auto simp: char_isspace_def char_isdecimal_def Let_def)
qed

lemma accepted_roles:
  assumes "topology_ok config"
  obtains ingress egress where "filter (\<lambda>p. dp_role p = Role_ingress) (tc_dpdk_ports config) = [ingress]"
    and "filter (\<lambda>p. dp_role p = Role_egress) (tc_dpdk_ports config) = [egress]"
proof -
  from assms have "count_list (map dp_role (tc_dpdk_ports config)) Role_ingress = 1"
    "count_list (map dp_role (tc_dpdk_ports config)) Role_egress = 1"
    by (simp_all add: topology_ok_def ports_ok_def)
  then show thesis by (elim role_found) (rule that)
qed

lemma profile_not_blank:
  assumes "derive_effective_dpdk_runtime requested n = Inr e"
  shows "str_strip (ef_lcores e) \<noteq> []" and "str_strip (str_of_int (ef_hugepages_mb e)) \<noteq> []"
    and "str_strip (str_of_int (ef_burst_size e)) \<noteq> []" and "str_strip (str_of_int (ef_rx_queue_size e)) \<noteq> []"
    and "str_strip (str_of_int (ef_tx_queue_size e)) \<noteq> []" and "str_strip (str_of_int (ef_mempool_size e)) \<noteq> []"
proof -
  from assms obtain ids h where set: "lcore_set (str_or (dc_lcores requested) DEFAULT_LCORES) = Some ids"
    and e: "e = resolve_runtime requested n (length ids) h" and ok: "runtime_profile_ok e"
    unfolding derive_effective_iff by blast
  show "str_strip (ef_lcores e) \<noteq> []"
    using core_list_not_blank [OF set] by (simp add: e resolve_runtime_def Let_def)
  from ok obtain m where m: "recommended_hugepages_mb (ef_mempool_size e) = Some m" "m \<le> ef_hugepages_mb e"
    by (auto simp: runtime_profile_ok_def split: option.splits)
  from m(2) recommended_hugepages_ge [OF m(1)] have "0 \<le> ef_hugepages_mb e"
    by (simp add: DEFAULT_HUGEPAGES_FLOOR_MB_def)
  moreover from ok recommended_mempool_ge [of "ef_port_count e" "ef_rx_queue_size e" "ef_tx_queue_size e"]
  have "0 \<le> ef_mempool_size e" by (simp add: runtime_profile_ok_def MIN_MEMPOOL_SIZE_def)
  ultimately show "str_strip (str_of_int (ef_hugepages_mb e)) \<noteq> []" "str_strip (str_of_int (ef_burst_size e)) \<noteq> []"
    "str_strip (str_of_int (ef_rx_queue_size e)) \<noteq> []" "str_strip (str_of_int (ef_tx_queue_size e)) \<noteq> []"
    "str_strip (str_of_int (ef_mempool_size e)) \<noteq> []"
    using ok by (simp_all add: number_not_blank runtime_profile_ok_def)
qed

text \<open>The flags are not blank either.\<close>

lemma flags_not_blank:
  "\<forall>flag \<in> {''ip'', ''netns'', ''exec'', ''--lcores'', ''--hugepages-mb'', ''--burst-size'', ''--rx-queue-size'',
     ''--tx-queue-size'', ''--mempool-size'', ''--ingress-port-name'', ''--egress-port-name''}. str_strip flag \<noteq> []"
  by (simp add: str_strip_def char_isspace_def)

lemma configured_accepted:
  assumes "validate_topology_config config = Inr v" and "ControllerConfig_post_init cfg = Inr cfg"
  shows "\<exists>ingress egress.
    filter (\<lambda>p. dp_role p = Role_ingress) (tc_dpdk_ports config) = [ingress] \<and>
    filter (\<lambda>p. dp_role p = Role_egress) (tc_dpdk_ports config) = [egress] \<and>
    (let names = [config_dpdk_namespace config, dp_name ingress, dp_name egress];
         effective = vt_effective_dpdk_config v
     in case configured cfg v of
          Inl e \<Rightarrow> (\<exists>m. e = PyValueError m) \<and> (\<exists>name \<in> set names. str_strip name = [])
        | Inr sc \<Rightarrow>
            (\<forall>name \<in> set names. str_strip name \<noteq> []) \<and>
            (\<exists>rest. launch_command sc =
                [''ip'', ''netns'', ''exec'', config_dpdk_namespace config, cc_datapath_binary cfg] @ rest \<and>
              options rest =
                [(''--socket-path'', cc_datapath_socket_path cfg), (''--lcores'', ef_lcores effective),
                 (''--hugepages-mb'', str_of_int (ef_hugepages_mb effective)),
                 (''--burst-size'', str_of_int (ef_burst_size effective)),
                 (''--rx-queue-size'', str_of_int (ef_rx_queue_size effective)),
                 (''--tx-queue-size'', str_of_int (ef_tx_queue_size effective)),
                 (''--mempool-size'', str_of_int (ef_mempool_size effective)),
                 (''--ingress-port-name'', dp_name ingress), (''--egress-port-name'', dp_name egress)]))"
proof -
  from assms(1) obtain e where ok: "topology_ok config" and v: "v = validated_view config e"
    and e: "derive_effective_dpdk_runtime (pr_dpdkd (tc_processes config)) (int (length (tc_dpdk_ports config))) = Inr e"
    unfolding validate_topology_iff by blast
  from ok obtain ingress egress where roles:
    "filter (\<lambda>p. dp_role p = Role_ingress) (tc_dpdk_ports config) = [ingress]"
    "filter (\<lambda>p. dp_role p = Role_egress) (tc_dpdk_ports config) = [egress]" by (rule accepted_roles)
  from assms(2) have cfg: "str_strip (cc_datapath_binary cfg) \<noteq> []" "str_strip (cc_datapath_socket_path cfg) \<noteq> []"
    "0 < cc_datapath_startup_timeout_seconds cfg"
    by (auto simp: ControllerConfig_post_init_def split: if_splits)
  show ?thesis
    by (intro exI [of _ ingress] exI [of _ egress] conjI roles)
      (use cfg profile_not_blank [OF e] flags_not_blank in
        \<open>simp add: v validated_view_def configured_def build_dpdk_runtime_args_def runtime_port_name_for_role_def roles
          build_supervisor_config_def SupervisorConfig_post_init_def launch_command_def config_dpdk_namespace_def\<close>)
qed

section \<open>Properties\<close>

text \<open>C38. The datapath is launched with the profile that was validated. An accepted topology has exactly
  one port of each role, and the command line is \<open>ip netns exec\<close> in the datapath's namespace, with the
  socket path, the core list, the sizes and the names of the two ports behind their flags. The command is
  refused exactly when the namespace or one of the two port names is blank, which validation lets pass.\<close>

theorem launch_carries_profile:
  assumes "validate_topology_config config = Inr v" and "ControllerConfig_post_init cfg = Inr cfg"
  shows "\<exists>ingress egress.
    filter (\<lambda>p. dp_role p = Role_ingress) (tc_dpdk_ports config) = [ingress] \<and>
    filter (\<lambda>p. dp_role p = Role_egress) (tc_dpdk_ports config) = [egress] \<and>
    (let names = [config_dpdk_namespace config, dp_name ingress, dp_name egress];
         effective = vt_effective_dpdk_config v
     in case configured cfg v of
          Inl e \<Rightarrow> (\<exists>m. e = PyValueError m) \<and> (\<exists>name \<in> set names. str_strip name = [])
        | Inr sc \<Rightarrow>
            (\<forall>name \<in> set names. str_strip name \<noteq> []) \<and>
            (\<exists>rest. launch_command sc =
                [''ip'', ''netns'', ''exec'', config_dpdk_namespace config, cc_datapath_binary cfg] @ rest \<and>
              options rest =
                [(''--socket-path'', cc_datapath_socket_path cfg), (''--lcores'', ef_lcores effective),
                 (''--hugepages-mb'', str_of_int (ef_hugepages_mb effective)),
                 (''--burst-size'', str_of_int (ef_burst_size effective)),
                 (''--rx-queue-size'', str_of_int (ef_rx_queue_size effective)),
                 (''--tx-queue-size'', str_of_int (ef_tx_queue_size effective)),
                 (''--mempool-size'', str_of_int (ef_mempool_size effective)),
                 (''--ingress-port-name'', dp_name ingress), (''--egress-port-name'', dp_name egress)]))"
  by (rule configured_accepted [OF assms])

theorem launch_carries_profile_witness:
  "\<exists>sc. configured lab_config (validated_view linear_lab (default_profile 2)) = Inr sc \<and>
     launch_command sc = [''ip'', ''netns'', ''exec'', ''dpdk-host'', ''pktlab-dpdkd''] @ drop 5 (launch_command sc) \<and>
     map_of (options (drop 5 (launch_command sc))) ''--ingress-port-name'' = Some ''dtap0''"
  using launch_carries_profile [OF linear_lab_valid lab_config_ok]
  by (auto simp: Let_def linear_lab_def lab_config_def config_dpdk_namespace_def default_request_def
      str_strip_def char_isspace_def split: sum.splits)

end
