(* ===== verification/Locking.thy ===== *)
theory Locking
  imports Controller_Inv
begin

text \<open>
  The locks of the service. The controller, the topology manager and every supervisor have a re-entrant
  lock each (\<open>ctrld/pktlab_ctrld/app.py\<close>, \<open>topology/manager.py\<close>, \<open>process/supervisor.py\<close>),
  and requests run in threads. The lock skeleton of an operation is a \<open>flow\<close>: its \<open>with\<close> blocks in
  their nesting, with a choice for every condition. Its traces are the sequences of acquisitions and releases
  the operation can perform, exceptions included; threads interleave by the steps of \<open>lock_step\<close>.
\<close>

section \<open>Skeletons and traces\<close>

datatype lock = Manager_lock | Controller_lock | Supervisor_lock nat

datatype flow =
    Skip
  | With "lock set" flow
  | Seq flow flow
  | Choice flow flow

datatype lock_action = Acquire lock | Release lock

text \<open>An exception in the first part of a sequence leaves out the second; a block releases its lock however it
  ends.\<close>

inductive trace :: "flow \<Rightarrow> lock_action list \<Rightarrow> bool" where
  skip: "trace Skip []"
| block: "l \<in> locks \<Longrightarrow> trace f body \<Longrightarrow> trace (With locks f) (Acquire l # body @ [Release l])"
| seq: "trace f first \<Longrightarrow> trace g second \<Longrightarrow> trace (Seq f g) (first @ second)"
| raised: "trace f first \<Longrightarrow> trace (Seq f g) first"
| left: "trace f body \<Longrightarrow> trace (Choice f g) body"
| right: "trace g body \<Longrightarrow> trace (Choice f g) body"

section \<open>The skeletons of the operations\<close>

text \<open>A method of a supervisor, whichever supervisor the controller has at that moment.\<close>

definition supervisor_locks :: flow where
  "supervisor_locks = With (range Supervisor_lock) Skip"

definition current_status_locks :: flow where
  "current_status_locks = Choice Skip supervisor_locks"

definition controller_block :: "flow \<Rightarrow> flow" where
  "controller_block body = With {Controller_lock} body"

definition manager_block :: "flow \<Rightarrow> flow" where
  "manager_block body = With {Manager_lock} body"

definition stop_datapath_locks :: flow where
  "stop_datapath_locks = controller_block (Choice Skip supervisor_locks)"

definition start_datapath_locks :: flow where
  "start_datapath_locks =
     Choice Skip (controller_block (Seq (Choice Skip supervisor_locks) supervisor_locks))"

definition manager_apply_locks :: flow where
  "manager_apply_locks =
     manager_block
       (Seq (Choice Skip stop_datapath_locks)
       (Seq (Choice Skip start_datapath_locks)
         (Choice Skip stop_datapath_locks)))"

definition manager_destroy_locks :: flow where
  "manager_destroy_locks = manager_block (Choice Skip stop_datapath_locks)"

definition health_locks :: flow where
  "health_locks = controller_block current_status_locks"

fun operation_locks :: "operation \<Rightarrow> flow" where
  "operation_locks Start = controller_block (Choice Skip supervisor_locks)"
| "operation_locks Stop =
     controller_block (Choice Skip (Choice manager_destroy_locks (Choice Skip supervisor_locks)))"
| "operation_locks (Apply path) =
     Choice Skip
       (Seq (controller_block Skip)
       (Seq manager_apply_locks
         (controller_block current_status_locks)))"
| "operation_locks Destroy =
     Seq (controller_block Skip)
    (Seq manager_destroy_locks
    (Seq (Choice Skip stop_datapath_locks)
      (controller_block current_status_locks)))"
| "operation_locks Health = health_locks"
| "operation_locks Status = controller_block (Seq health_locks (Choice Skip supervisor_locks))"
| "operation_locks Stats = controller_block (Seq current_status_locks supervisor_locks)"
| "operation_locks Reset =
     controller_block (Choice Skip (Seq supervisor_locks (Seq current_status_locks supervisor_locks)))"
| "operation_locks Pause = controller_block (Choice Skip (Seq supervisor_locks current_status_locks))"
| "operation_locks Resume = controller_block (Choice Skip (Seq supervisor_locks current_status_locks))"

section \<open>Threads\<close>

text \<open>A thread: the locks it holds, the last one first, and what it still has to do. A lock is free for a
  thread when no other thread holds it; holding it already is no obstacle, as the locks are re-entrant.\<close>

type_synonym thread = "lock list \<times> lock_action list"

definition free_for :: "thread list \<Rightarrow> nat \<Rightarrow> lock \<Rightarrow> bool" where
  "free_for ts i l \<longleftrightarrow> (\<forall>j < length ts. j \<noteq> i \<longrightarrow> l \<notin> set (fst (ts ! j)))"

inductive lock_step :: "thread list \<Rightarrow> thread list \<Rightarrow> bool" where
  acquire: "i < length ts \<Longrightarrow> ts ! i = (held, Acquire l # rest) \<Longrightarrow> free_for ts i l \<Longrightarrow>
     lock_step ts (ts[i := (l # held, rest)])"
| release: "i < length ts \<Longrightarrow> ts ! i = (l # held, Release l # rest) \<Longrightarrow>
     lock_step ts (ts[i := (held, rest)])"

definition fresh_threads :: "lock_action list list \<Rightarrow> thread list" where
  "fresh_threads traces = map (\<lambda>actions. ([], actions)) traces"

definition finished :: "thread list \<Rightarrow> bool" where
  "finished ts \<longleftrightarrow> (\<forall>t \<in> set ts. t = ([], []))"

section \<open>Work shrinks\<close>

definition work :: "thread list \<Rightarrow> nat" where
  "work ts = sum_list (map (\<lambda>t. length (snd t)) ts)"

lemma work_update:
  "i < length ts \<Longrightarrow> length (snd (ts ! i)) = Suc (length (snd t)) \<Longrightarrow> work ts = Suc (work (ts[i := t]))"
  unfolding work_def by (induction ts arbitrary: i) (auto simp: nth_Cons split: nat.split)

lemma step_work: "lock_step ts ts' \<Longrightarrow> work ts = Suc (work ts')"
  by (induction rule: lock_step.induct) (simp_all add: work_update)

section \<open>Two threads never hold one lock\<close>

definition exclusive :: "thread list \<Rightarrow> bool" where
  "exclusive ts \<longleftrightarrow>
     (\<forall>i < length ts. \<forall>j < length ts. i \<noteq> j \<longrightarrow> set (fst (ts ! i)) \<inter> set (fst (ts ! j)) = {})"

lemma step_exclusive: "lock_step ts ts' \<Longrightarrow> exclusive ts \<Longrightarrow> exclusive ts'"
proof (induction rule: lock_step.induct)
  case (acquire i ts held l rest)
  then show ?case by (fastforce simp: exclusive_def free_for_def nth_list_update)
next
  case (release i ts l held rest)
  then show ?case by (fastforce simp: exclusive_def nth_list_update)
qed

section \<open>A lock order\<close>

text \<open>A skeleton climbs when it takes a lock it does not hold yet only above all it holds; so does what a
  thread still has to do.\<close>

definition above :: "(lock \<Rightarrow> nat) \<Rightarrow> lock set \<Rightarrow> lock \<Rightarrow> bool" where
  "above rank held l \<longleftrightarrow> l \<in> held \<or> (\<forall>h \<in> held. rank h < rank l)"

fun climbs :: "(lock \<Rightarrow> nat) \<Rightarrow> lock set \<Rightarrow> flow \<Rightarrow> bool" where
  "climbs rank held Skip \<longleftrightarrow> True"
| "climbs rank held (With locks f) \<longleftrightarrow> (\<forall>l \<in> locks. above rank held l \<and> climbs rank (insert l held) f)"
| "climbs rank held (Seq f g) \<longleftrightarrow> climbs rank held f \<and> climbs rank held g"
| "climbs rank held (Choice f g) \<longleftrightarrow> climbs rank held f \<and> climbs rank held g"

fun orderly :: "(lock \<Rightarrow> nat) \<Rightarrow> lock list \<Rightarrow> lock_action list \<Rightarrow> bool" where
  "orderly rank held [] \<longleftrightarrow> held = []"
| "orderly rank held (Acquire l # rest) \<longleftrightarrow> above rank (set held) l \<and> orderly rank (l # held) rest"
| "orderly rank held (Release l # rest) \<longleftrightarrow> held \<noteq> [] \<and> hd held = l \<and> orderly rank (tl held) rest"

lemma climbs_orderly:
  "trace f actions \<Longrightarrow> climbs rank (set held) f \<Longrightarrow> orderly rank held rest \<Longrightarrow> orderly rank held (actions @ rest)"
proof (induction arbitrary: held rest rule: trace.induct)
  case (block l locks f body)
  have "orderly rank (l # held) (body @ Release l # rest)"
    by (rule block.IH) (use block in auto)
  with block.prems block.hyps show ?case by simp
qed auto

definition all_orderly :: "(lock \<Rightarrow> nat) \<Rightarrow> thread list \<Rightarrow> bool" where
  "all_orderly rank ts \<longleftrightarrow> (\<forall>(held, rest) \<in> set ts. orderly rank held rest)"

lemma all_orderlyD: "all_orderly rank ts \<Longrightarrow> i < length ts \<Longrightarrow> ts ! i = (held, rest) \<Longrightarrow> orderly rank held rest"
  unfolding all_orderly_def by (metis (mono_tags, lifting) case_prodD nth_mem)

lemma step_orderly: "lock_step ts ts' \<Longrightarrow> all_orderly rank ts \<Longrightarrow> all_orderly rank ts'"
proof (induction rule: lock_step.induct)
  case (acquire i ts held l rest)
  from all_orderlyD [OF acquire.prems acquire.hyps(1,2)] acquire.prems show ?case
    by (auto simp: all_orderly_def dest!: subsetD [OF set_update_subset_insert])
next
  case (release i ts l held rest)
  from all_orderlyD [OF release.prems release.hyps(1,2)] release.prems show ?case
    by (auto simp: all_orderly_def dest!: subsetD [OF set_update_subset_insert])
qed

text \<open>The locks threads wait for.\<close>

definition wanted :: "thread list \<Rightarrow> lock set" where
  "wanted ts = {l. \<exists>held rest. (held, Acquire l # rest) \<in> set ts}"

lemma wanted_finite: "finite (wanted ts)"
proof (rule finite_subset)
  show "wanted ts \<subseteq> (\<lambda>t. case snd t of Acquire l # _ \<Rightarrow> l | _ \<Rightarrow> Manager_lock) ` set ts"
    by (force simp: wanted_def image_iff)
qed simp

text \<open>A thread that cannot step waits for a lock another thread holds, and that thread waits for a higher one.\<close>

lemma stuck_climbs:
  assumes "all_orderly rank ts" and "exclusive ts" and "\<nexists>ts'. lock_step ts ts'" and "l \<in> wanted ts"
  shows "\<exists>l' \<in> wanted ts. rank l < rank l'"
proof -
  from assms(4) obtain i held rest where i: "i < length ts" "ts ! i = (held, Acquire l # rest)"
    by (auto simp: wanted_def in_set_conv_nth)
  with assms(3) have "\<not> free_for ts i l" by (auto intro: lock_step.acquire)
  then obtain j where j: "j < length ts" "j \<noteq> i" "l \<in> set (fst (ts ! j))" by (auto simp: free_for_def)
  obtain heldj restj where tj: "ts ! j = (heldj, restj)" by (cases "ts ! j")
  note ordered = all_orderlyD [OF assms(1) j(1) tj]
  show ?thesis
  proof (cases restj)
    case Nil
    with ordered j tj show ?thesis by simp
  next
    case (Cons action rest')
    show ?thesis
    proof (cases action)
      case (Acquire l')
      with Cons tj j(1) have w: "l' \<in> wanted ts" by (auto simp: wanted_def in_set_conv_nth)
      have "\<not> free_for ts j l'"
        using assms(3) lock_step.acquire [OF j(1), of heldj l' rest'] tj Cons Acquire by blast
      then have "l' \<notin> set heldj" using assms(2) j(1) tj by (fastforce simp: free_for_def exclusive_def)
      with ordered Cons Acquire j(3) tj have "rank l < rank l'" by (auto simp: above_def)
      with w show ?thesis by blast
    next
      case (Release l')
      with ordered Cons have "heldj = l' # tl heldj" by (cases heldj) auto
      with lock_step.release [OF j(1), of l' "tl heldj" rest'] tj Cons Release assms(3) show ?thesis by auto
    qed
  qed
qed

lemma orderly_progress:
  assumes "all_orderly rank ts" and "exclusive ts" and "\<not> finished ts"
  shows "\<exists>ts'. lock_step ts ts'"
proof (rule ccontr)
  assume stuck: "\<nexists>ts'. lock_step ts ts'"
  from assms(3) obtain i where "i < length ts" "ts ! i \<noteq> ([], [])"
    by (metis finished_def in_set_conv_nth)
  then obtain held rest where i: "i < length ts" "ts ! i = (held, rest)" "(held, rest) \<noteq> ([], [])"
    by (cases "ts ! i") simp
  note ordered = all_orderlyD [OF assms(1) i(1,2)]
  with i(3) obtain action rest' where rest: "rest = action # rest'" by (cases rest) auto
  have "wanted ts \<noteq> {}"
  proof (cases action)
    case (Acquire l)
    with i rest show ?thesis by (auto simp: wanted_def in_set_conv_nth)
  next
    case (Release l)
    with ordered rest have "held = l # tl held" by (cases held) auto
    with lock_step.release [OF i(1), of l "tl held" rest'] i rest Release stuck show ?thesis by auto
  qed
  then have "Max (rank ` wanted ts) \<in> rank ` wanted ts" using wanted_finite by (simp add: Max_in)
  then obtain l where l: "l \<in> wanted ts" "rank l = Max (rank ` wanted ts)" by auto
  from stuck_climbs [OF assms(1,2) stuck l(1)] l(2) wanted_finite show False
    by (metis Max_ge finite_imageI image_eqI leD)
qed

lemma orderly_ends:
  "all_orderly rank ts \<Longrightarrow> exclusive ts \<Longrightarrow> \<exists>ts'. lock_step\<^sup>*\<^sup>* ts ts' \<and> finished ts'"
proof (induction "work ts" arbitrary: ts rule: less_induct)
  case less
  show ?case
  proof (cases "finished ts")
    case False
    from orderly_progress [OF less.prems False] obtain ts1 where step: "lock_step ts ts1" ..
    with step_work have "work ts1 < work ts" by fastforce
    from less.hyps [OF this step_orderly [OF step less.prems(1)] step_exclusive [OF step less.prems(2)]] step
    show ?thesis by (blast intro: converse_rtranclp_into_rtranclp)
  qed blast
qed

section \<open>Operations that follow an order\<close>

locale lock_order =
  fixes rank :: "lock \<Rightarrow> nat" and skeleton :: "'op \<Rightarrow> flow" and admitted :: "'op \<Rightarrow> bool"
  assumes follows: "admitted operation \<Longrightarrow> climbs rank {} (skeleton operation)"
begin

definition performs :: "'op list \<Rightarrow> lock_action list list \<Rightarrow> bool" where
  "performs ops traces \<longleftrightarrow> list_all2 (\<lambda>p actions. admitted p \<and> trace (skeleton p) actions) ops traces"

lemma fresh_orderly:
  assumes "performs ops traces"
  shows "all_orderly rank (fresh_threads traces)" and "exclusive (fresh_threads traces)"
proof -
  have "orderly rank [] actions" if "actions \<in> set traces" for actions
  proof -
    from assms that obtain p where "admitted p" "trace (skeleton p) actions"
      by (auto simp: performs_def list_all2_conv_all_nth in_set_conv_nth)
    with climbs_orderly [of _ actions rank "[]" "[]"] follows show ?thesis by simp
  qed
  then show "all_orderly rank (fresh_threads traces)" by (auto simp: all_orderly_def fresh_threads_def)
  show "exclusive (fresh_threads traces)" by (simp add: exclusive_def fresh_threads_def)
qed

lemma reachable_orderly:
  assumes "performs ops traces" and "lock_step\<^sup>*\<^sup>* (fresh_threads traces) ts"
  shows "all_orderly rank ts \<and> exclusive ts"
  using assms(2) by (induction rule: rtranclp_induct)
    (use fresh_orderly [OF assms(1)] step_orderly step_exclusive in blast)+

lemma never_stuck:
  assumes "performs ops traces" and "lock_step\<^sup>*\<^sup>* (fresh_threads traces) ts"
  shows "finished ts \<or> (\<exists>ts'. lock_step ts ts')" and "\<exists>ts'. lock_step\<^sup>*\<^sup>* ts ts' \<and> finished ts'"
  using reachable_orderly [OF assms] orderly_progress orderly_ends by blast+

end

text \<open>The order of the program: manager, controller, supervisor. Every operation but the final stop follows
  it.\<close>

fun lock_rank :: "lock \<Rightarrow> nat" where
  "lock_rank Manager_lock = 0"
| "lock_rank Controller_lock = 1"
| "lock_rank (Supervisor_lock n) = 2"

lemmas skeletons = supervisor_locks_def current_status_locks_def controller_block_def manager_block_def
  stop_datapath_locks_def start_datapath_locks_def manager_apply_locks_def manager_destroy_locks_def health_locks_def

interpretation requests: lock_order lock_rank operation_locks "\<lambda>p. p \<noteq> Stop"
proof
  fix p
  assume "p \<noteq> Stop"
  then show "climbs lock_rank {} (operation_locks p)"
    by (cases p) (auto simp: skeletons above_def)
qed

lemma run_length: "(lock_step ^^ n) ts ts' \<Longrightarrow> work ts = n + work ts'"
  by (induction n arbitrary: ts') (auto dest!: step_work)

section \<open>Properties\<close>

text \<open>The traces of a stop that destroys a topology and of an apply that fails to remove the one it
  replaces; both stop the datapath on the way.\<close>

definition stopping_datapath :: "lock_action list" where
  "stopping_datapath =
     [Acquire Controller_lock, Acquire (Supervisor_lock 0), Release (Supervisor_lock 0), Release Controller_lock]"

definition stop_trace :: "lock_action list" where
  "stop_trace =
     Acquire Controller_lock # Acquire Manager_lock # stopping_datapath @ [Release Manager_lock, Release Controller_lock]"

definition apply_trace :: "lock_action list" where
  "apply_trace =
     [Acquire Controller_lock, Release Controller_lock] @
     (Acquire Manager_lock # stopping_datapath @ [Release Manager_lock]) @ stopping_datapath"

lemma supervised_block: "trace (controller_block (Choice Skip supervisor_locks)) stopping_datapath"
proof -
  have "trace supervisor_locks [Acquire (Supervisor_lock 0), Release (Supervisor_lock 0)]"
    using trace.block [OF _ trace.skip, of "Supervisor_lock 0" "range Supervisor_lock"] by (simp add: supervisor_locks_def)
  from trace.block [OF _ trace.right [OF this], of Controller_lock] show ?thesis
    by (simp add: controller_block_def stopping_datapath_def)
qed

lemma stop_trace_possible: "trace (operation_locks Stop) stop_trace"
proof -
  from trace.block [OF _ trace.right [OF supervised_block], of Manager_lock]
  have "trace manager_destroy_locks (Acquire Manager_lock # stopping_datapath @ [Release Manager_lock])"
    by (simp add: manager_destroy_locks_def manager_block_def stop_datapath_locks_def)
  from trace.block [OF _ trace.right [OF trace.left [OF this]], of Controller_lock] show ?thesis
    by (simp add: stop_trace_def controller_block_def)
qed

lemma apply_trace_possible: "trace (operation_locks (Apply path)) apply_trace"
proof -
  from trace.block [OF _ trace.raised [OF trace.right [OF supervised_block]], of Manager_lock]
  have "trace manager_apply_locks (Acquire Manager_lock # stopping_datapath @ [Release Manager_lock])"
    by (simp add: manager_apply_locks_def manager_block_def stop_datapath_locks_def)
  moreover have "trace (controller_block current_status_locks) stopping_datapath"
    unfolding current_status_locks_def by (rule supervised_block)
  moreover from trace.block [OF _ trace.skip, of Controller_lock]
  have "trace (controller_block Skip) [Acquire Controller_lock, Release Controller_lock]"
    by (simp add: controller_block_def)
  ultimately show ?thesis
    unfolding apply_trace_def operation_locks.simps by (intro trace.right trace.seq)
qed

text \<open>C15. Requests served in any number of threads never block each other for good: whichever operations
  other than the final stop run at the same time, whichever branches they take, exceptions included, and
  however they are interleaved, either all have ended or one of them can go on; every run ends within the
  number of lock operations left, and it can be completed so that all end.\<close>

theorem requests_never_deadlock:
  assumes "list_all2 (\<lambda>p actions. p \<noteq> Stop \<and> trace (operation_locks p) actions) ops traces"
    and "lock_step\<^sup>*\<^sup>* (fresh_threads traces) ts"
  shows "(finished ts \<or> (\<exists>ts'. lock_step ts ts')) \<and>
    (\<exists>ts'. lock_step\<^sup>*\<^sup>* ts ts' \<and> finished ts') \<and>
    (\<forall>n ts'. (lock_step ^^ n) ts ts' \<longrightarrow> n \<le> work ts)"
proof -
  from assms(1) have "requests.performs ops traces" by (simp add: requests.performs_def)
  from requests.never_stuck [OF this assms(2)] show ?thesis by (auto dest: run_length)
qed

theorem requests_never_deadlock_witness:
  "\<exists>ts'. lock_step\<^sup>*\<^sup>* (fresh_threads [apply_trace, apply_trace]) ts' \<and> finished ts'"
  using requests_never_deadlock [of "[Apply ''a.yaml'', Apply ''b.yaml'']" "[apply_trace, apply_trace]"]
  by (simp add: apply_trace_possible del: operation_locks.simps)

text \<open>The final stop does not follow the order of the locks: it asks the manager to destroy the topology
  while it holds the controller's lock, and the manager asks for the controller's lock while it holds its own.
  A stop and an apply that replaces a topology can therefore block each other for good.\<close>

theorem stop_can_deadlock:
  "\<exists>stop app ts.
     trace (operation_locks Stop) stop \<and> trace (operation_locks (Apply ''lab.yaml'')) app \<and>
     lock_step\<^sup>*\<^sup>* (fresh_threads [stop, app]) ts \<and> \<not> finished ts \<and> (\<nexists>ts'. lock_step ts ts')"
proof -
  let ?s0 = "fresh_threads [stop_trace, apply_trace]"
  let ?s1 = "[([], stop_trace), ([Controller_lock], tl apply_trace)]"
  let ?s2 = "[([], stop_trace), ([], drop 2 apply_trace)]"
  let ?s3 = "[([], stop_trace), ([Manager_lock], drop 3 apply_trace)]"
  let ?s4 = "[([Controller_lock], tl stop_trace), ([Manager_lock], drop 3 apply_trace)]"
  note traces = apply_trace_def stop_trace_def stopping_datapath_def free_for_def fresh_threads_def
  have "lock_step ?s0 ?s1"
    using lock_step.acquire [of 1 ?s0 "[]" Controller_lock "tl apply_trace"] by (simp add: traces All_less_Suc2)
  moreover have "lock_step ?s1 ?s2"
    using lock_step.release [of 1 ?s1 Controller_lock "[]" "drop 2 apply_trace"] by (simp add: traces)
  moreover have "lock_step ?s2 ?s3"
    using lock_step.acquire [of 1 ?s2 "[]" Manager_lock "drop 3 apply_trace"] by (simp add: traces All_less_Suc2)
  moreover have "lock_step ?s3 ?s4"
    using lock_step.acquire [of 0 ?s3 "[]" Controller_lock "tl stop_trace"] by (simp add: traces All_less_Suc2)
  ultimately have "lock_step\<^sup>*\<^sup>* ?s0 ?s4" by (meson converse_rtranclp_into_rtranclp rtranclp.rtrancl_refl)
  moreover have "\<not> lock_step ?s4 ts'" for ts'
    by (auto simp: traces less_Suc_eq nth_Cons split: nat.splits elim!: lock_step.cases)
  moreover have "\<not> finished ?s4" by (simp add: finished_def)
  ultimately show ?thesis using stop_trace_possible apply_trace_possible by blast
qed

end
