(* ===== verification/Interleaving.thy ===== *)
theory Interleaving
  imports Controller_Inv
begin

text \<open>
  Requests that run at the same time. The controller's lock makes a critical section of
  \<open>ctrld/pktlab_ctrld/app.py\<close> one step; the manager's lock lets one thread at a time into
  \<open>topology/manager.py\<close>, which gives the controller's lock back between its callbacks. A thread that changes
  the topology is described by a phase; between two steps of it any other request may run. What the manager
  does on the host is any change of the world, so every interleaving of single commands is covered.
\<close>

section \<open>Phases\<close>

datatype job = Applying string | Destroying

text \<open>What the manager has done to the datapath since it was entered: nothing, stopped it last, or tried to
  start it last.\<close>

datatype trail = Untouched | Stopped | Started

datatype phase =
    Quiet
  | Waiting job
  | Managing job trail
  | Rejected job
  | Applied TopologyOperationResult
  | Destroyed
  | Halted

fun managing :: "phase \<Rightarrow> bool" where
  "managing (Managing job trail) = True"
| "managing _ = False"

type_synonym 'w shared = "current \<times> ControllerRuntime \<times> 'w"

section \<open>Steps\<close>

text \<open>The steps of a thread that changes the topology, one critical section each, or one change of the
  manager's attribute, or host work.\<close>

inductive advance ::
  "'w controller_env \<Rightarrow> ControllerConfig \<Rightarrow> phase \<Rightarrow> 'w shared \<Rightarrow> phase \<Rightarrow> 'w shared \<Rightarrow> bool"
  for env cfg where
  begin_apply: "str_strip path \<noteq> [] \<Longrightarrow>
     on_snd (modify (begin_operation CS_reconciling (''applying topology from '' @ path))) s = Some (r, s') \<Longrightarrow>
     advance env cfg Quiet s (Waiting (Applying path)) s'"
| begin_destroy: "on_snd (modify (begin_operation CS_reconciling ''destroying topology'')) s = Some (r, s') \<Longrightarrow>
     advance env cfg Quiet s (Waiting Destroying) s'"
| enter: "advance env cfg (Waiting job) s (Managing job Untouched) s"
| host: "advance env cfg (Managing job trail) (c, rt, w) (Managing job trail) (c, rt, w')"
| stop: "on_snd (stop_topology_datapath env) s = Some (r, s') \<Longrightarrow>
     advance env cfg (Managing job trail) s (Managing job Stopped) s'"
| start: "on_snd (start_topology_datapath env cfg v) s = Some (r, s') \<Longrightarrow>
     advance env cfg (Managing job trail) s (Managing job Started) s'"
| drop: "advance env cfg (Managing (Applying path) Stopped) (c, rt, w) (Managing (Applying path) Stopped) (None, rt, w)"
| applied: "advance env cfg (Managing (Applying path) trail) (c, rt, w)
     (Applied (operation_result Op_apply v path True running ''topology applied''))
     (Some \<lparr>at_config_path = path, at_validated = v\<rparr>, rt, w)"
| failed: "trail \<noteq> Started \<Longrightarrow> advance env cfg (Managing job trail) s (Rejected job) s"
| removed: "advance env cfg (Managing Destroying Stopped) (c, rt, w) Destroyed (None, rt, w)"
| nothing: "advance env cfg (Managing Destroying Untouched) (None, rt, w) Destroyed (None, rt, w)"
| apply_recorded: "on_snd (apply_recorded env cfg result) s = Some (r, s') \<Longrightarrow>
     advance env cfg (Applied result) s Quiet s'"
| apply_rejected: "apply_rejected env cfg path s = Some (r, s') \<Longrightarrow>
     advance env cfg (Rejected (Applying path)) s Quiet s'"
| destroy_rejected: "on_snd (destroy_rejected env cfg) s = Some (r, s') \<Longrightarrow>
     advance env cfg (Rejected Destroying) s Quiet s'"
| halted: "on_snd (stop_topology_datapath env) s = Some (Inr x, s') \<Longrightarrow> advance env cfg Destroyed s Halted s'"
| not_halted: "on_snd (stop_topology_datapath env) s = Some (Inl e, s') \<Longrightarrow> advance env cfg Destroyed s Quiet s'"
| destroy_recorded: "on_snd (destroy_recorded env cfg) s = Some (r, s') \<Longrightarrow> advance env cfg Halted s Quiet s'"

text \<open>The requests that take the controller's lock once and never enter the manager.\<close>

definition queries :: "operation set" where
  "queries = {Health, Status, Stats, Reset, Pause, Resume}"

inductive together ::
  "'w controller_env \<Rightarrow> ControllerConfig \<Rightarrow> phase list \<times> 'w shared \<Rightarrow> phase list \<times> 'w shared \<Rightarrow> bool"
  for env cfg where
  thread: "i < length ps \<Longrightarrow> advance env cfg (ps ! i) s p s' \<Longrightarrow>
     (managing p \<longrightarrow> (\<forall>j < length ps. j \<noteq> i \<longrightarrow> \<not> managing (ps ! j))) \<Longrightarrow>
     together env cfg (ps, s) (ps[i := p], s')"
| query: "q \<in> queries \<Longrightarrow> perform env cfg q s = Some (r, s') \<Longrightarrow> together env cfg (ps, s) (ps, s')"
| world: "together env cfg (ps, c, rt, w) (ps, c, rt, w')"

section \<open>Every operation is a run of these steps\<close>

text \<open>What one thread reaches on its own.\<close>

definition reached :: "'w controller_env \<Rightarrow> ControllerConfig \<Rightarrow> 'w shared \<Rightarrow> phase \<Rightarrow> 'w shared \<Rightarrow> bool" where
  "reached env cfg s0 p s \<longleftrightarrow> (\<lambda>(p, s) (p', s'). advance env cfg p s p' s')\<^sup>*\<^sup>* (Quiet, s0) (p, s)"

lemma reached_refl [simp]: "reached env cfg s0 Quiet s0"
  by (simp add: reached_def)

lemma reached_step: "reached env cfg s0 p s \<Longrightarrow> advance env cfg p s p' s' \<Longrightarrow> reached env cfg s0 p' s'"
  unfolding reached_def by (erule rtranclp.rtrancl_into_rtrancl) simp

text \<open>What one thread does, a pool of threads does while no other one is in the manager.\<close>

lemma reached_pool:
  assumes "reached env cfg s0 p s" and "i < length ps" and "ps ! i = Quiet"
    and "\<And>j. j < length ps \<Longrightarrow> j \<noteq> i \<Longrightarrow> \<not> managing (ps ! j)"
  shows "(together env cfg)\<^sup>*\<^sup>* (ps, s0) (ps[i := p], s)"
  using assms(1) unfolding reached_def
proof (induction "(p, s)" arbitrary: p s rule: rtranclp_induct)
  case base
  from assms(3) have "ps[i := Quiet] = ps" by (metis list_update_id)
  then show ?case by simp
next
  case (step y)
  obtain p1 s1 where y: "y = (p1, s1)" by (cases y)
  have "together env cfg (ps[i := p1], s1) (ps[i := p1, i := p], s)"
    by (rule together.thread) (use step.hyps(2) assms(2,4) in \<open>simp_all add: y\<close>)
  with step.hyps(3) [OF y] show ?case by (simp add: rtranclp.rtrancl_into_rtrancl)
qed

lemma safely_reached:
  assumes "\<And>r s'. m s = Some (r, s') \<Longrightarrow> advance env cfg p s p' s'" and "reached env cfg s0 p s"
  shows "safely m (\<lambda>_. reached env cfg s0 p') (\<lambda>_. reached env cfg s0 p') s"
  by (rule safelyI) (auto split: sum.split intro: reached_step [OF assms(2)] assms(1))

lemma reached_host: "reached env cfg s0 (Managing job t) (c, rt, w) \<Longrightarrow> reached env cfg s0 (Managing job t) (c, rt, w')"
  by (erule reached_step) (rule advance.host)

lemma in_manager: "reached env cfg s0 (Managing job t) (c, rw) \<Longrightarrow> \<exists>t. reached env cfg s0 (Managing job t) (c, rw)"
  by blast

interpretation walk: kept_manager "controller_manager env cfg"
  "\<lambda>rw. \<exists>t. reached env cfg s0 (Managing job t) (c, rw)" "\<lambda>rw. reached env cfg s0 (Managing job Stopped) (c, rw)"
  for env cfg s0 job c
proof (unfold_locales, goal_cases)
  case (7 path)
  show ?case
    by (auto simp: keeps_def controller_manager_def exec_simps intro!: safelyI split: sum.splits)
      (blast intro: reached_host)+
next
  case (8 v)
  have "safely (on_snd (start_topology_datapath env cfg v)) (\<lambda>_. reached env cfg s0 (Managing job Started))
      (\<lambda>_. reached env cfg s0 (Managing job Started)) (c, rw)" if "reached env cfg s0 (Managing job t) (c, rw)" for t rw
    by (rule safely_reached [OF advance.start that])
  then show ?case
    by (fastforce simp: keeps_def start_datapath_locked_def controller_manager_def safely_on_snd
        elim!: safely_mono)
next
  case (9 rw)
  then obtain t where "reached env cfg s0 (Managing job t) (c, rw)" ..
  then have "safely (on_snd (stop_topology_datapath env)) (\<lambda>_. reached env cfg s0 (Managing job Stopped))
      (\<lambda>_. reached env cfg s0 (Managing job Stopped)) (c, rw)"
    by (rule safely_reached [rotated]) (rule advance.stop)
  then show ?case
    by (auto simp: safely_on_snd stop_datapath_locked_def controller_manager_def elim!: safely_mono)
qed (auto simp: controller_manager_def pair_run_def pair_clock_def split: prod.splits, (blast intro: reached_host)+)

lemma rebuild_walks:
  assumes "reached env cfg s0 (Managing (Applying path) t) (c, rw)"
  shows "safely (bind (attempt (on_snd (build_topology (controller_manager env cfg) v))) (\<lambda>r.
         case r of
           Inl exc \<Rightarrow>
             bind (on_snd (cleanup_failed_apply (controller_manager env cfg) v)) (\<lambda>cleanup_error.
               raise (Pktlab (apply_failure path v exc cleanup_error)))
         | Inr st \<Rightarrow>
             then_do (put_fst (Some \<lparr>at_config_path = path, at_validated = v\<rparr>))
               (ret (operation_result Op_apply v path True (ps_running st) ''topology applied''))))
     (\<lambda>result. reached env cfg s0 (Applied result)) (\<lambda>_. reached env cfg s0 (Rejected (Applying path))) (c, rw)"
  unfolding safely_bind safely_attempt safely_on_snd
proof (rule safely_mono [OF keepsD [OF walk.keeps_build in_manager [OF assms]]], goal_cases)
  case (1 st rw1)
  then show ?case by (cases rw1) (auto simp: exec_simps intro: reached_step [OF _ advance.applied])
next
  case (2 exc rw1)
  show ?case
    by (simp add: safely_bind safely_on_snd safely_raise, rule safely_mono [OF walk.cleanup_ends [OF 2]])
      (auto intro: reached_step [OF _ advance.failed])
qed

lemma manager_apply_walks:
  assumes "reached env cfg s0 (Waiting (Applying path)) (c, rw)"
  shows "safely (manager_apply (controller_manager env cfg) path)
    (\<lambda>result. reached env cfg s0 (Applied result)) (\<lambda>_. reached env cfg s0 (Rejected (Applying path))) (c, rw)"
proof -
  note entered = reached_step [OF assms advance.enter]
  have fails: "reached env cfg s0 (Rejected (Applying path)) s"
    if "t \<noteq> Started" "reached env cfg s0 (Managing (Applying path) t) s" for t s
    using that by (blast intro: reached_step [OF _ advance.failed])
  have load: "safely (tm_load_topology (controller_manager env cfg) path)
      (\<lambda>_ rw'. reached env cfg s0 (Managing (Applying path) Untouched) (c, rw'))
      (\<lambda>_ rw'. reached env cfg s0 (Managing (Applying path) Untouched) (c, rw')) rw"
    using entered by (cases rw) (auto simp: controller_manager_def exec_simps intro!: safelyI split: sum.splits
        intro: reached_host)
  show ?thesis
    unfolding manager_apply_def safely_bind [where m = "on_snd (tm_load_topology _ _)"] safely_on_snd
  proof (rule safely_mono [OF load], goal_cases)
    case (1 config rw1)
    show ?case
    proof (cases "tm_validate_topology (controller_manager env cfg) config")
      case (Inl e)
      with 1 fails [of Untouched] show ?thesis by (simp add: exec_simps)
    next
      case (Inr v)
      have "safely (case c of None \<Rightarrow> ret ()
          | Some applied \<Rightarrow> then_do (on_snd (destroy_locked (controller_manager env cfg) (at_validated applied)))
              (put_fst None))
        (\<lambda>_ s. \<exists>t. reached env cfg s0 (Managing (Applying path) t) s)
        (\<lambda>_. reached env cfg s0 (Rejected (Applying path))) (c, rw1)"
      proof (cases c)
        case None
        with 1 show ?thesis by (auto simp: safely_ret)
      next
        case (Some a)
        from walk.destroy_ends [OF in_manager [OF 1], of "at_validated a"] show ?thesis
          by (simp add: Some safely_then safely_on_snd, elim safely_mono)
            (auto simp: safely_put_fst intro: reached_step [OF _ advance.drop] fails)
      qed
      then show ?thesis
        by (simp add: Inr safely_bind [where m = "lift_sum _"] safely_lift_sum safely_bind [where m = get_fst]
            safely_get_fst safely_then [where k = "bind _ _"])
          (erule safely_mono, auto intro: rebuild_walks)
    qed
  qed (use fails in blast)
qed

lemma manager_destroy_walks:
  assumes "reached env cfg s0 (Waiting Destroying) (c, rw)"
  shows "safely (manager_destroy (controller_manager env cfg))
    (\<lambda>_. reached env cfg s0 Destroyed) (\<lambda>_. reached env cfg s0 (Rejected Destroying)) (c, rw)"
proof -
  note entered = reached_step [OF assms advance.enter]
  show ?thesis
  proof (cases c)
    case None
    with entered show ?thesis
      by (cases rw) (auto simp: manager_destroy_def exec_simps intro: reached_step [OF _ advance.nothing])
  next
    case (Some a)
    from walk.destroy_ends [OF in_manager [OF entered], of "at_validated a"] show ?thesis
      by (simp add: Some manager_destroy_def safely_bind safely_get_fst safely_then safely_on_snd, elim safely_mono)
        (auto simp: safely_put_fst safely_ret intro: reached_step [OF _ advance.removed]
          reached_step [OF _ advance.failed])
  qed
qed

lemma apply_walks:
  "safely (apply_topology env cfg path) (\<lambda>_. reached env cfg s Quiet) (\<lambda>_. reached env cfg s Quiet) s"
proof (cases "str_strip path = []")
  case True
  then show ?thesis by (simp add: apply_topology_def safely_raise)
next
  case False
  obtain c rt w where s: "s = (c, rt, w)" by (cases s)
  let ?rt = "begin_operation CS_reconciling (''applying topology from '' @ path) rt"
  have "on_snd (modify (begin_operation CS_reconciling (''applying topology from '' @ path))) s = Some (Inr (), c, ?rt, w)"
    by (simp add: s on_snd_def modify_def bind_def get_fst_def put_fst_def)
  from reached_step [OF reached_refl advance.begin_apply [OF False this]]
  have begun: "reached env cfg s (Waiting (Applying path)) (c, ?rt, w)" .
  have "safely (manager_apply (controller_manager env cfg) path)
      (\<lambda>result. safely (then_do (on_snd (apply_recorded env cfg result)) (ret result))
         (\<lambda>_. reached env cfg s Quiet) (\<lambda>_. reached env cfg s Quiet))
      (\<lambda>e. safely (then_do (apply_rejected env cfg path) (raise e))
         (\<lambda>_. reached env cfg s Quiet) (\<lambda>_. reached env cfg s Quiet)) (c, ?rt, w)"
  proof (rule safely_mono [OF manager_apply_walks [OF begun]], goal_cases)
    case (1 result s1)
    show ?case unfolding safely_then
      by (rule safely_mono [OF safely_reached [OF advance.apply_recorded 1]]) (simp_all add: safely_ret)
  next
    case (2 e s1)
    show ?case unfolding safely_then
      by (rule safely_mono [OF safely_reached [OF advance.apply_rejected 2]]) (simp_all add: safely_raise)
  qed
  with False show ?thesis
    by (simp add: s apply_topology_def safely_then [where m = "on_snd (modify _)"] safely_on_snd safely_modify
        safely_bind safely_attempt)
qed

lemma destroy_walks:
  "safely (destroy_topology env cfg) (\<lambda>_. reached env cfg s Quiet) (\<lambda>_. reached env cfg s Quiet) s"
proof -
  obtain c rt w where s: "s = (c, rt, w)" by (cases s)
  let ?rt = "begin_operation CS_reconciling ''destroying topology'' rt"
  have "on_snd (modify (begin_operation CS_reconciling ''destroying topology'')) s = Some (Inr (), c, ?rt, w)"
    by (simp add: s on_snd_def modify_def bind_def get_fst_def put_fst_def)
  from reached_step [OF reached_refl advance.begin_destroy [OF this]]
  have begun: "reached env cfg s (Waiting Destroying) (c, ?rt, w)" .
  have "safely (manager_destroy (controller_manager env cfg))
      (\<lambda>result. safely (then_do (on_snd (stop_topology_datapath env))
          (then_do (on_snd (destroy_recorded env cfg)) (ret result))) (\<lambda>_. reached env cfg s Quiet) (\<lambda>_. reached env cfg s Quiet))
      (\<lambda>e. safely (then_do (on_snd (destroy_rejected env cfg)) (raise e))
          (\<lambda>_. reached env cfg s Quiet) (\<lambda>_. reached env cfg s Quiet)) (c, ?rt, w)"
  proof (rule safely_mono [OF manager_destroy_walks [OF begun]], goal_cases)
    case (1 result s1)
    have "safely (on_snd (stop_topology_datapath env)) (\<lambda>_. reached env cfg s Halted) (\<lambda>_. reached env cfg s Quiet) s1"
      by (rule safelyI) (auto split: sum.split intro: reached_step [OF 1] advance.halted advance.not_halted)
    then show ?case unfolding safely_then
    proof (rule safely_mono, goal_cases)
      case (1 u s2)
      show ?case
        by (rule safely_mono [OF safely_reached [OF advance.destroy_recorded 1]]) (simp_all add: safely_ret)
    qed simp
  next
    case (2 e s1)
    show ?case unfolding safely_then
      by (rule safely_mono [OF safely_reached [OF advance.destroy_rejected 2]]) (simp_all add: safely_raise)
  qed
  then show ?thesis
    by (simp add: s destroy_topology_def safely_then [where m = "on_snd (modify _)"] safely_on_snd safely_modify
        safely_bind safely_attempt)
qed

context controller_world
begin

section \<open>Queries leave an idle datapath idle\<close>

abbreviation no_process :: "SupervisorState \<times> 'w \<Rightarrow> bool" where
  "no_process \<equiv> \<lambda>ss. sv_process (fst ss) = None"

lemma idle_reachable_call: "keeps no_process (reachable_call penv sc what command)"
  by (auto simp: keeps_def reachable_call_def status_locked_def history_status_def default_status_def exec_simps)

lemma idle_status_locked: "keeps no_process (status_locked penv sc)"
  by (auto simp: keeps_def status_locked_def exec_simps)

lemma idle_on_supervisor:
  assumes "idle rt" and "rt_supervisor rt = Some su" and "keeps no_process (call (su_config su))"
  shows "safely (on_supervisor call su) (\<lambda>_ rw. idle (fst rw)) (\<lambda>_ rw. idle (fst rw)) (rt, w)"
proof -
  have "no_process (su_state su, w)" using assms(1,2) by (simp add: idle_def)
  from keepsD [OF assms(3) this] show ?thesis
    by (simp add: safely_on_supervisor) (erule safely_mono, auto simp: idle_def)
qed

lemma idle_current_status: "keeps (\<lambda>rw. idle (fst rw)) (current_datapath_status env cfg)"
  by (auto simp: keeps_def current_datapath_status_def exec_simps intro!: idle_on_supervisor idle_status_locked
      split: option.split)

lemma idle_with_supervisor:
  "(\<And>c. keeps no_process (call c)) \<Longrightarrow> keeps (\<lambda>rw. idle (fst rw)) (with_supervisor call)"
  by (auto simp: keeps_def with_supervisor_def exec_simps intro!: idle_on_supervisor split: option.split)

lemma idle_modify: "(\<And>rt. rt_supervisor (f rt) = rt_supervisor rt) \<Longrightarrow> keeps (\<lambda>rw. idle (fst rw)) (modify f)"
  by (auto simp: keeps_def exec_simps idle_def)

lemma idle_parts:
  "keeps (\<lambda>rw. idle (fst rw)) (observe_same_topology st)" "keeps (\<lambda>rw. idle (fst rw)) (recompute cfg st)"
proof -
  have "keeps (\<lambda>rw. idle (fst rw)) (observe st applied effective)" for applied effective
    unfolding keeps_def by (clarify, rule safely_mono [OF observe_safely]) (auto simp: idle_def)
  then show "keeps (\<lambda>rw. idle (fst rw)) (observe_same_topology st)"
    unfolding observe_same_topology_def by (intro keeps_intros)
  show "keeps (\<lambda>rw. idle (fst rw)) (recompute cfg st)"
    unfolding recompute_def by (intro idle_modify) simp
qed

lemma idle_commands:
  "keeps (\<lambda>rw. idle (fst rw)) (health_snapshot env cfg)" "keeps (\<lambda>rw. idle (fst rw)) (datapath_status_snapshot env cfg)"
  "keeps (\<lambda>rw. idle (fst rw)) (datapath_stats_snapshot env cfg)" "keeps (\<lambda>rw. idle (fst rw)) (reset_datapath_stats env cfg)"
  "keeps (\<lambda>rw. idle (fst rw)) (pause_datapath_runtime env cfg)" "keeps (\<lambda>rw. idle (fst rw)) (resume_datapath_runtime env cfg)"
  unfolding health_snapshot_def datapath_status_snapshot_def datapath_stats_snapshot_def reset_datapath_stats_def
    pause_datapath_runtime_def resume_datapath_runtime_def run_datapath_control_command_def
    supervisor_get_ports_def supervisor_get_stats_def supervisor_reset_stats_def supervisor_pause_datapath_def
    supervisor_resume_datapath_def
  by (intro keeps_intros idle_current_status idle_with_supervisor idle_reachable_call idle_parts)+

lemma query_keeps:
  assumes "q \<in> queries" and "perform env cfg q (c, rw) = Some (r, s')"
  obtains rw' where "s' = (c, rw')" and "\<And>t. runtime_inv cfg t rw \<Longrightarrow> runtime_inv cfg t rw'"
    and "idle (fst rw) \<Longrightarrow> idle (fst rw')"
proof -
  have "\<exists>m :: ('w, unit) cprog. perform env cfg q = on_snd m \<and> (\<forall>t. keeps (runtime_inv cfg t) m) \<and>
      keeps (\<lambda>rw. idle (fst rw)) m"
    using assms(1) unfolding queries_def
    by (elim insertE emptyE; simp)
      (rule exI, rule conjI, rule refl, simp add: keeps_unit keeps_commands keeps_status_snapshot idle_commands)+
  then obtain m :: "('w, unit) cprog" where m: "perform env cfg q = on_snd m"
    "\<And>t. keeps (runtime_inv cfg t) m" "keeps (\<lambda>rw. idle (fst rw)) m" by blast
  from assms(2) obtain rw' where "m rw = Some (r, rw')" "s' = (c, rw')" by (auto simp: m(1) on_snd_def)
  with that keeps_run [OF m(2)] keeps_run [OF m(3)] show thesis by blast
qed

section \<open>What holds in every phase\<close>

fun phase_inv :: "phase \<Rightarrow> current \<Rightarrow> ControllerRuntime \<times> 'w \<Rightarrow> bool" where
  "phase_inv (Managing (Applying path) Stopped) c rw \<longleftrightarrow> idle (fst rw)"
| "phase_inv (Managing (Applying path) Started) c rw \<longleftrightarrow> True"
| "phase_inv (Managing Destroying t) c rw \<longleftrightarrow> runtime_inv cfg (c \<noteq> None) rw \<and> (t = Stopped \<longrightarrow> idle (fst rw))"
| "phase_inv (Rejected (Applying path)) c rw \<longleftrightarrow> (c = None \<longrightarrow> clearing rw)"
| "phase_inv (Applied result) c rw \<longleftrightarrow> c \<noteq> None"
| "phase_inv Destroyed c rw \<longleftrightarrow> c = None \<and> clearing rw"
| "phase_inv Halted c rw \<longleftrightarrow> c = None \<and> clearing rw"
| "phase_inv _ c rw \<longleftrightarrow> runtime_inv cfg (c \<noteq> None) rw"

lemma clearing_kept:
  assumes "\<And>t. runtime_inv cfg t rw \<Longrightarrow> runtime_inv cfg t rw'" and "idle (fst rw) \<Longrightarrow> idle (fst rw')" and "clearing rw"
  shows "clearing rw'"
  using assms(1) [of False] assms(1) [of True] assms(2,3) by (auto simp: clearing_def runtime_inv_def)

lemma phase_inv_kept:
  assumes "\<And>t. runtime_inv cfg t rw \<Longrightarrow> runtime_inv cfg t rw'" and "idle (fst rw) \<Longrightarrow> idle (fst rw')"
    and "phase_inv p c rw"
  shows "phase_inv p c rw'"
  using assms clearing_kept [OF assms(1,2)] by (cases "(p, c, rw)" rule: phase_inv.cases) auto

lemma keeps_observe_any: "keeps (runtime_inv cfg True) (observe st applied effective)"
  unfolding keeps_def
  by (clarify, rule safely_mono [OF observe_safely]) (auto simp: runtime_inv_def records_ok_def override_shown_def)

lemma keeps_desired: "keeps (runtime_inv cfg t) (modify (\<lambda>rt. rt\<lparr>rt_desired_state := desired_state_without_topology rt\<rparr>))"
  by (auto simp: keeps_def exec_simps runtime_inv_def without_topology_ok) (simp_all add: override_shown_def)

lemma keeps_overridden: "m \<noteq> [] \<Longrightarrow> keeps (runtime_inv cfg t) (then_do (set_override (Some m)) (recompute cfg st))"
  by (auto simp: keeps_def intro!: override_recompute)

lemma keeps_no_override: "keeps (runtime_inv cfg t) (set_override None)"
  by (auto simp: keeps_def set_override_def exec_simps runtime_inv_def records_ok_def override_shown_def)

lemma keeps_endings:
  "keeps (\<lambda>s. runtime_inv cfg True (snd s)) (apply_rejected env cfg path)"
  "keeps (runtime_inv cfg t) (destroy_rejected env cfg)" "keeps (runtime_inv cfg True) (destroy_recorded env cfg)"
proof -
  have snd: "keeps (\<lambda>s. runtime_inv cfg True (snd s)) (on_snd m)" if "keeps (runtime_inv cfg True) m"
    for m :: "('w, 'x) cprog"
    using that by (auto simp: keeps_def safely_on_snd)
  show "keeps (\<lambda>s. runtime_inv cfg True (snd s)) (apply_rejected env cfg path)"
    unfolding apply_rejected_def
    by (intro keeps_intros snd keeps_current_status keeps_desired keeps_observe_any keeps_overridden) simp_all
  show "keeps (runtime_inv cfg t) (destroy_rejected env cfg)"
    unfolding destroy_rejected_def by (intro keeps_intros keeps_current_status keeps_overridden) simp_all
  show "keeps (runtime_inv cfg True) (destroy_recorded env cfg)"
    unfolding destroy_recorded_def
    by (intro keeps_intros keeps_no_override keeps_desired keeps_current_status keeps_observe_any)
qed

text \<open>The two callbacks change the supervisor only.\<close>

lemma stop_step:
  assumes "on_snd (stop_topology_datapath env) (c, rw) = Some (r, s')" and "runtime_inv cfg True rw"
  obtains rw' where "s' = (c, rw')" and "idle (fst rw')" and "\<And>t. runtime_inv cfg t rw \<Longrightarrow> runtime_inv cfg t rw'"
proof -
  from assms(1) obtain rw' where run: "stop_supervisor env rw = Some (r, rw')" and s': "s' = (c, rw')"
    by (auto simp: on_snd_def stop_topology_datapath_def)
  have "wired cfg (fst rw)" using assms(2) by (simp add: runtime_inv_def)
  from safely_run [OF stop_supervisor_ends [OF this, of env "snd rw"], unfolded prod.collapse, OF run]
  have "wired cfg (fst rw')" "detach (fst rw') = detach (fst rw)" "idle (fst rw')"
    by (cases rw'; cases r; simp)+
  with s' that runtime_inv_cong [of "fst rw'" "fst rw" cfg _ "snd rw" "snd rw'"] show thesis by simp
qed

lemma start_step:
  assumes "on_snd (start_topology_datapath env cfg v) (c, rw) = Some (r, s')" and "runtime_inv cfg True rw"
  obtains rw' where "s' = (c, rw')" and "\<And>t. runtime_inv cfg t rw \<Longrightarrow> runtime_inv cfg t rw'"
proof -
  from assms(1) obtain rw' where run: "start_topology_datapath env cfg v rw = Some (r, rw')" and s': "s' = (c, rw')"
    by (auto simp: on_snd_def)
  have "wired cfg (fst rw)" using assms(2) by (simp add: runtime_inv_def)
  from safely_run [OF start_topology_datapath_safely [OF sound this, of v "snd rw"], unfolded prod.collapse, OF run]
  have "wired cfg (fst rw')" "detach (fst rw') = detach (fst rw)"
    by (cases rw'; cases r; simp)+
  with s' that runtime_inv_cong [of "fst rw'" "fst rw" cfg _ "snd rw" "snd rw'"] show thesis by simp
qed

lemma begin_step:
  assumes "on_snd (modify (begin_operation CS_reconciling m)) (c, rw) = Some (r, s')" and "m \<noteq> []"
  obtains rw' where "s' = (c, rw')" and "\<And>t. runtime_inv cfg t rw \<Longrightarrow> runtime_inv cfg t rw'"
  using assms begun_operation [of _ "fst rw" "snd rw" CS_reconciling m]
  by (auto simp: on_snd_def modify_def bind_def get_fst_def put_fst_def)

lemma runtime_inv_world: "runtime_inv cfg t (rt, w) \<longleftrightarrow> runtime_inv cfg t (rt, w')"
  by (simp add: runtime_inv_def)

lemma on_snd_step: "on_snd m (c, rw) = Some (r, s') \<Longrightarrow> \<exists>rw'. s' = (c, rw') \<and> m rw = Some (r, rw')"
  by (auto simp: on_snd_def)

lemma advance_weak:
  assumes "advance env cfg p s p' s'" and "runtime_inv cfg True (snd s)"
  shows "runtime_inv cfg True (snd s')"
  using assms
proof (induction rule: advance.induct)
  case (begin_apply path s r s')
  then show ?case by (cases s) (auto elim: begin_step)
next
  case (begin_destroy s r s')
  then show ?case by (cases s) (auto elim: begin_step)
next
  case (stop s r s' job t)
  then show ?case by (cases s) (auto elim: stop_step)
next
  case (start v s r s' job t)
  then show ?case by (cases s) (auto elim: start_step)
next
  case (apply_recorded result s r s')
  then show ?case by (cases s) (auto dest!: on_snd_step intro: keeps_run [OF keeps_recorded])
next
  case (apply_rejected path s r s')
  then show ?case by (auto dest: keeps_run [OF keeps_endings(1)])
next
  case (destroy_rejected s r s')
  then show ?case by (cases s) (auto dest!: on_snd_step intro: keeps_run [OF keeps_endings(2)])
next
  case (halted s x s')
  then show ?case by (cases s) (auto elim: stop_step)
next
  case (not_halted s x s')
  then show ?case by (cases s) (auto elim: stop_step)
next
  case (destroy_recorded s r s')
  then show ?case by (cases s) (auto dest!: on_snd_step intro: keeps_run [OF keeps_endings(3)])
qed (simp_all add: runtime_inv_def)

lemma advance_inv:
  assumes "advance env cfg p s p' s'" and "runtime_inv cfg True (snd s)" and "phase_inv p (fst s) (snd s)"
  shows "phase_inv p' (fst s') (snd s')"
  using assms
proof (induction rule: advance.induct)
  case (begin_apply path s r s')
  then show ?case by (cases s) (auto elim: begin_step)
next
  case (begin_destroy s r s')
  then show ?case by (cases s) (auto elim: begin_step)
next
  case (enter job s)
  then show ?case by (cases job) auto
next
  case (host job t c rt w w')
  then show ?case
    using phase_inv_kept [of "(rt, w)" "(rt, w')"] by (simp add: runtime_inv_def)
next
  case (stop s r s' job t)
  obtain c rw where s: "s = (c, rw)" by (cases s)
  from stop stop_step [of c rw r s'] show ?case unfolding s by (cases job) (fastforce simp: s)+
next
  case (start v s r s' job t)
  obtain c rw where s: "s = (c, rw)" by (cases s)
  from start start_step [of v c rw r s'] show ?case unfolding s by (cases job) (fastforce simp: s)+
next
  case (failed t job s)
  then show ?case by (cases job; cases t) (auto simp: clearing_def runtime_inv_def)
next
  case (apply_recorded result s r s')
  then show ?case by (cases s) (auto dest!: on_snd_step intro: keeps_run [OF keeps_recorded])
next
  case (apply_rejected path s r s')
  obtain c rt w where s: "s = (c, rt, w)" by (cases s)
  show ?case
  proof (cases c)
    case None
    with apply_rejected s have "clearing (rt, w)" by simp
    from safely_run [OF rejected_without [OF this], of path] apply_rejected.hyps show ?thesis
      by (cases r) (auto simp: s None)
  next
    case (Some a)
    with apply_rejected s have "runtime_inv cfg True (rt, w)" by simp
    from safely_run [OF rejected_with [OF this], of path a] apply_rejected.hyps show ?thesis
      by (cases r) (auto simp: s Some)
  qed
next
  case (destroy_rejected s r s')
  then show ?case by (cases s) (auto dest!: on_snd_step intro: keeps_run [OF keeps_endings(2)])
next
  case (halted s x s')
  then obtain rw rw' where s: "s = (None, rw)" "s' = (None, rw')" "stop_supervisor env rw = Some (Inr x, rw')" "clearing rw"
    by (cases s) (auto simp: stop_topology_datapath_def dest!: on_snd_step)
  from safely_run [OF clearing_stop, of "fst rw" "snd rw" "Inr x" rw'] s show ?case by simp
next
  case (not_halted s e s')
  then obtain rw rw' where s: "s = (None, rw)" "s' = (None, rw')" "stop_supervisor env rw = Some (Inl e, rw')" "clearing rw"
    by (cases s) (auto simp: stop_topology_datapath_def dest!: on_snd_step)
  from safely_run [OF clearing_stop, of "fst rw" "snd rw" "Inl e" rw'] s show ?case by simp
next
  case (destroy_recorded s r s')
  then obtain rw rw' where s: "s = (None, rw)" "s' = (None, rw')" "destroy_recorded env cfg rw = Some (r, rw')" "clearing rw"
    by (cases s) (auto dest!: on_snd_step)
  from safely_run [OF destroy_recorded_clears, of "fst rw" "snd rw" r rw'] s show ?case by (cases r) simp_all
qed (simp_all add: clearing_def runtime_inv_def)

lemma together_inv:
  assumes "together env cfg (ps, s) (ps', s')" and "runtime_inv cfg True (snd s)"
  shows "runtime_inv cfg True (snd s') \<and> length ps' = length ps \<and>
    (\<forall>p p'. ps = [p] \<longrightarrow> phase_inv p (fst s) (snd s) \<longrightarrow> ps' = [p'] \<longrightarrow> phase_inv p' (fst s') (snd s'))"
  using assms
proof (cases rule: together.cases)
  case (thread i p)
  from advance_weak [OF thread(3) assms(2)] advance_inv [OF thread(3) assms(2)] thread(1,2) show ?thesis
    by (cases ps) (auto split: nat.split)
next
  case (query q r)
  obtain c rw where s: "s = (c, rw)" by (cases s)
  from query_keeps [OF query(2) query(3) [unfolded s]] obtain rw' where "s' = (c, rw')"
    "\<And>t. runtime_inv cfg t rw \<Longrightarrow> runtime_inv cfg t rw'" "idle (fst rw) \<Longrightarrow> idle (fst rw')" by blast
  with assms(2) query(1) phase_inv_kept [of rw rw'] show ?thesis by (auto simp: s)
next
  case (world c rt w w')
  with assms(2) phase_inv_kept [of "(rt, w)" "(rt, w')"] show ?thesis by (auto simp: runtime_inv_def)
qed

lemma interleaved_inv:
  assumes "(together env cfg)\<^sup>*\<^sup>* (replicate n Quiet, s0) (ps, s)" and "controller_inv s0"
  shows "runtime_inv cfg True (snd s) \<and> length ps = n \<and> (\<forall>p. ps = [p] \<longrightarrow> phase_inv p (fst s) (snd s))"
  using assms(1)
proof (induction "(ps, s)" arbitrary: ps s rule: rtranclp_induct)
  case base
  have "p = Quiet" if "replicate n Quiet = [p]" for p using that by (cases n) auto
  with assms(2) show ?case by (auto simp: controller_inv_def runtime_inv_def)
next
  case (step y)
  obtain ps1 s1 where y: "y = (ps1, s1)" by (cases y)
  from step.hyps(3) [OF y] have inv: "runtime_inv cfg True (snd s1)" "length ps1 = n"
    "\<And>p. ps1 = [p] \<Longrightarrow> phase_inv p (fst s1) (snd s1)" by auto
  from together_inv [OF step.hyps(2) [unfolded y] inv(1)] inv show ?case
    by (cases ps1) auto
qed

end

section \<open>Properties\<close>



text \<open>C11. With any number of requests in flight at the same time, in every state their steps can reach,
  whatever the host does and whatever happens to the datapath in between: the controller has a supervisor
  exactly when it is configured to supervise, and that one has a valid configuration and a client for its
  process; an override message is shown as a degraded state; the message is never empty and the state never
  \<open>failed\<close>; a started controller wants to run and is not in state \<open>stopped\<close>. With one request
  at a time, whenever none is in flight, the observed state claims a topology only while the manager has
  one.\<close>

theorem interleaved_invariant:
  assumes "codec_sound (pe_codec (ce_process env))" and "ControllerConfig_post_init cfg = Inr cfg"
    and "reachable env cfg s0"
    and "(together env cfg)\<^sup>*\<^sup>* (replicate n Quiet, s0) (ps, current, rt, w)"
  shows "(rt_supervisor rt \<noteq> None) = cc_supervise_datapath cfg \<and>
    (\<forall>su. rt_supervisor rt = Some su \<longrightarrow> supervisor_ok cfg su) \<and>
    (\<forall>m. rt_override_message rt = Some m \<longrightarrow>
      rt_controller_state rt = CS_degraded \<and> rt_controller_message rt = m) \<and>
    rt_controller_message rt \<noteq> [] \<and> rt_controller_state rt \<noteq> CS_failed \<and>
    (rt_started rt \<longrightarrow> rt_controller_state rt \<noteq> CS_stopped \<and>
      desired_controller_state (rt_desired_state rt) = CS_running) \<and>
    (ps = [Quiet] \<longrightarrow> topology_applied (rt_observed_state rt) \<longrightarrow> has_applied_topology current)"
proof -
  have world: "controller_world env cfg" using assms(1,2) by (simp add: controller_world_def)
  from controller_world.interleaved_inv [OF world assms(4) controller_world.reachable_inv [OF world assms(3)]]
  have "runtime_inv cfg True (rt, w)" "ps = [Quiet] \<longrightarrow> runtime_inv cfg (current \<noteq> None) (rt, w)"
    by (auto simp: controller_world.phase_inv.simps [OF world])
  then show ?thesis
    by (auto simp: runtime_inv_def wired_def records_ok_def override_shown_def has_applied_topology_def
        split: option.splits)
qed

theorem interleaved_invariant_witness:
  "\<exists>rt. (together bare_env lab_config)\<^sup>*\<^sup>*
       (replicate 2 Quiet, None, rt, \<lparr>sw_time = 0, sw_pid = None\<rparr>)
       ([Managing (Applying ''lab.yaml'') Untouched, Waiting Destroying], None,
        begin_operation CS_reconciling ''destroying topology''
          (begin_operation CS_reconciling (''applying topology from '' @ ''lab.yaml'') rt),
        \<lparr>sw_time = 0, sw_pid = None\<rparr>) \<and> rt_supervisor rt \<noteq> None"
proof -
  let ?w = "\<lparr>sw_time = 0, sw_pid = None\<rparr>" and ?t = "together bare_env lab_config"
  obtain rt where rt: "controller_init lab_config None = Inr rt" using bare_apply_fails by blast
  define rt1 where "rt1 = begin_operation CS_reconciling (''applying topology from '' @ ''lab.yaml'') rt"
  define rt2 where "rt2 = begin_operation CS_reconciling ''destroying topology'' rt1"
  have begins: "on_snd (modify f) (c, rt, w) = Some (Inr (), c, f rt, w)" for f c rt and w :: sim_world
    by (simp add: on_snd_def modify_def bind_def get_fst_def put_fst_def)
  have "advance bare_env lab_config Quiet (None, rt, ?w) (Waiting (Applying ''lab.yaml'')) (None, rt1, ?w)"
    unfolding rt1_def by (rule advance.begin_apply [OF _ begins]) (simp add: str_strip_def char_isspace_def)
  then have 1: "?t ([Quiet, Quiet], None, rt, ?w) ([Quiet, Quiet][0 := Waiting (Applying ''lab.yaml'')], None, rt1, ?w)"
    by (intro together.thread) simp_all
  have 2: "?t ([Waiting (Applying ''lab.yaml''), Quiet], None, rt1, ?w)
      ([Waiting (Applying ''lab.yaml''), Quiet][1 := Waiting Destroying], None, rt2, ?w)"
    by (rule together.thread) (simp_all add: rt2_def advance.begin_destroy [OF begins])
  have 3: "?t ([Waiting (Applying ''lab.yaml''), Waiting Destroying], None, rt2, ?w)
      ([Waiting (Applying ''lab.yaml''), Waiting Destroying][0 := Managing (Applying ''lab.yaml'') Untouched], None, rt2, ?w)"
    by (rule together.thread) (auto simp: less_Suc_eq intro: advance.enter)
  have run: "?t\<^sup>*\<^sup>* (replicate 2 Quiet, None, rt, ?w)
      ([Managing (Applying ''lab.yaml'') Untouched, Waiting Destroying], None, rt2, ?w)"
    using 1 2 3 by (simp add: numeral_2_eq_2)
  from interleaved_invariant [OF bare.sound bare.configured reachable.created [OF rt] run]
  have "rt_supervisor rt2 \<noteq> None" by (simp add: lab_config_def)
  with run show ?thesis by (auto simp: rt2_def rt1_def begin_operation_def set_health_def)
qed

end
