(* ===== verification/Races.thy ===== *)
theory Races
  imports Interleaving Controller_Host Launch
begin

text \<open>
  What can go wrong when two requests change the topology at the same time, on an environment in which
  nothing fails: every command of the host succeeds at once and the datapath answers. The manager's lock
  serialises the two changes of the host, but each request writes down its result afterwards, under the
  controller's lock only.
\<close>

section \<open>Programs that succeed and change nothing\<close>

named_theorems smooth_intros \<open>programs that return normally and leave the state as it is\<close>

definition smooth :: "('s, 'a) prog \<Rightarrow> bool" where
  "smooth m \<longleftrightarrow> (\<forall>s. \<exists>x. m s = Some (Inr x, s))"

lemma smooth_outcome: "smooth m \<Longrightarrow> outcome m (\<lambda>_ s'. s' = s) (\<lambda>_ _. False) s"
  by (auto simp: smooth_def outcome_def dest: spec [of _ s])

lemma succeeds: "outcome m Q (\<lambda>_ _. False) s \<Longrightarrow> \<exists>x s'. m s = Some (Inr x, s') \<and> Q x s'"
  by (cases "m s"; cases "fst (the (m s))") (auto simp: outcome_def)

lemma smooth_ret [smooth_intros]: "smooth (ret x)"
  by (simp add: smooth_def ret_def)

lemma smooth_bind [smooth_intros]: "smooth m \<Longrightarrow> (\<And>x. smooth (k x)) \<Longrightarrow> smooth (bind m k)"
proof (unfold smooth_def, intro allI)
  fix s
  assume "\<forall>s. \<exists>x. m s = Some (Inr x, s)" and "\<And>x. \<forall>s. \<exists>y. k x s = Some (Inr y, s)"
  then obtain x y where "m s = Some (Inr x, s)" "k x s = Some (Inr y, s)" by metis
  then show "\<exists>y. bind m k s = Some (Inr y, s)" by (simp add: bind_def)
qed

lemma smooth_then [smooth_intros]: "smooth m \<Longrightarrow> smooth k \<Longrightarrow> smooth (then_do m k)"
  unfolding then_do_def by (rule smooth_bind)

lemma smooth_if [smooth_intros]: "smooth m \<Longrightarrow> smooth m' \<Longrightarrow> smooth (if b then m else m')"
  by simp

lemma smooth_case_option [smooth_intros]:
  "smooth m \<Longrightarrow> (\<And>x. smooth (k x)) \<Longrightarrow> smooth (case v of None \<Rightarrow> m | Some x \<Rightarrow> k x)"
  by (cases v) simp_all

lemma smooth_for_each [smooth_intros]: "(\<And>x. smooth (f x)) \<Longrightarrow> smooth (for_each f xs)"
  by (induction xs) (simp_all add: smooth_intros)

lemma smooth_collect_error: "smooth m \<Longrightarrow> outcome (collect_error m) (\<lambda>es s'. es = [] \<and> s' = s) (\<lambda>_ _. False) s"
  unfolding collect_error_def outcome_bind outcome_attempt
  by (rule outcome_mono [OF smooth_outcome]) (auto simp: outcome_ret)

section \<open>A host on which every command succeeds\<close>

definition smooth_run :: "'s runner" where
  "smooth_run argv s = (Inr \<lparr>cpr_returncode = 0, cpr_stdout = [], cpr_stderr = []\<rparr>, s)"

lemma pair_smooth_run: "pair_run smooth_run = smooth_run"
  by (rule ext)+ (simp add: pair_run_def smooth_run_def)

lemma smooth_run_ip [smooth_intros]: "0 \<in> set allowed \<Longrightarrow> smooth (run_ip smooth_run arguments namespace allowed)"
  by (auto simp: smooth_def run_ip_def executor_run_def smooth_run_def bind_def step_def ret_def Let_def)

lemma smooth_link_exists: "link_exists smooth_run namespace interface s = Some (Inr True, s)"
  by (simp add: link_exists_def run_ip_def executor_run_def smooth_run_def bind_def step_def ret_def Let_def)

lemmas netns_ops = run_ip_checked_def list_namespaces_def namespace_exists_def ensure_namespace_def
  delete_namespace_def link_exists_def ensure_veth_pair_def delete_link_def ensure_bridge_def
  replace_address_def replace_route_def attach_to_bridge_def set_link_up_def

lemma smooth_host [smooth_intros]:
  "smooth (ensure_namespaces smooth_run v)" "smooth (ensure_links smooth_run v)"
  "smooth (ensure_bridges smooth_run v)" "smooth (bring_link_endpoints_up smooth_run v)"
  "smooth (ensure_routes smooth_run v)" "smooth (destroy_links_and_bridges smooth_run v)"
  "smooth (destroy_namespaces smooth_run v)"
  unfolding destroy_links_and_bridges_def destroy_namespaces_def ensure_namespaces_def ensure_links_def
    ensure_link_def optional_address_def ensure_bridges_def bring_link_endpoints_up_def ensure_routes_def
    netns_ops Let_def
  by (intro smooth_intros; simp)+

text \<open>A clock that can be read without time passing.\<close>

definition still :: "'s clock \<Rightarrow> bool" where
  "still clk \<longleftrightarrow> (\<forall>s. snd (clk_monotonic clk s) = s)"

lemma smooth_wait_for_tap [smooth_intros]:
  assumes "still clk" and "0 < timeout" and "0 < interval"
  shows "smooth (wait_for_tap smooth_run clk timeout interval namespace interface)"
  using assms
  by (auto simp: smooth_def wait_for_tap_def wait_until_def bind_def read_clock_def step_def case_prod_beta
      still_def poll_loop.simps smooth_link_exists ret_def)

lemma smooth_taps [smooth_intros]:
  assumes "still clk" and "0 < timeout" and "0 < interval"
    and "port_name_for_role v Role_ingress = Inr ingress" and "port_name_for_role v Role_egress = Inr egress"
  shows "smooth (reconcile_taps smooth_run clk timeout interval v)"
proof -
  have "smooth (lift_sum (Inr x) :: ('s, 'x) prog)" for x by (simp add: smooth_def lift_sum_def)
  then show ?thesis
    unfolding reconcile_taps_def Let_def netns_ops assms(4,5)
    by (intro smooth_intros assms) simp_all
qed

section \<open>A datapath that answers\<close>

lemma sim_call:
  assumes "1 \<le> sw_time w" and "validate [] = Inr payload"
  shows "codec_call sim_codec validate cmd client (sim_peer w) ''req-1'' = Inr (cr_success ''req-1'' payload)"
  unfolding codec_call_def
  by (rule client_call_answer [where request = "\<lparr>rq_id = ''req-1'', rq_cmd = cmd\<rparr>" and
        sent = "[0, 0, 0, 1, command_byte cmd]" and body = "[123]" and raw = "[]"])
    (use assms in \<open>simp_all add: sim_codec_def sim_peer_def answers_def frame_payload_def header_pack_def
      MAX_FRAME_PAYLOAD_SIZE_def mk_request_def request_id_ok_def request_id_char_def char_isdecimal_def\<close>)

lemma sim_validates:
  "\<exists>a. ack_validate sim_codec [] = Inr a" "\<exists>h. health_validate sim_codec [] = Inr h"
  "\<exists>v. version_validate sim_codec [] = Inr v"
  by (simp_all add: sim_codec_def)

definition known :: "DatapathProcessStatus \<Rightarrow> bool" where
  "known st \<longleftrightarrow> status_good st \<and> (\<forall>pid. ps_pid st = Some pid \<longrightarrow> 1 \<le> pid)"

lemma sim_refresh:
  assumes "1 \<le> sw_time w" and "sv_client sv = Some client" and "1 \<le> pid"
  shows "outcome (refresh_ipc_state sim_env sc pid) (\<lambda>st (sv', w'). w' = w \<and> known st) (\<lambda>_ _. False) (sv, w)"
proof -
  obtain a h v where "ack_validate sim_codec [] = Inr a" "health_validate sim_codec [] = Inr h"
    "version_validate sim_codec [] = Inr v" using sim_validates by blast
  then have "ping sim_codec client (sim_peer w) ''req-1'' = Inr (cr_success ''req-1'' a)"
    "get_health sim_codec client (sim_peer w) ''req-1'' = Inr (cr_success ''req-1'' h)"
    "get_version sim_codec client (sim_peer w) ''req-1'' = Inr (cr_success ''req-1'' v)"
    using sim_call [OF assms(1)] by (simp_all add: ping_def get_health_def get_version_def)
  moreover from calculation have "HealthStateModel_ok h" "VersionPayload_ok v"
    using get_health_payload [OF sim_codec_sound] get_version_payload [OF sim_codec_sound]
    by (auto simp: cr_success_def cr_unwrap_def)
  moreover have "pe_exchange sim_env w = ((sim_peer w, ''req-1''), w)" "pe_codec sim_env = sim_codec"
    by (simp_all add: sim_env_def)
  ultimately show ?thesis
    using assms(2,3)
    by (simp add: refresh_ipc_state_def require_client_def ipc_call_def exec_simps accept_or_raise_def cr_success_def
        cr_unwrap_def update_def known_def status_good_def)
qed

lemma sim_launch:
  assumes "1 \<le> sw_time w" and "SupervisorConfig_post_init sc = Inr sc"
  shows "outcome (launch sim_env sc) (\<lambda>st (sv', w'). sw_time w' = sw_time w \<and> known st) (\<lambda>_ _. False) (sv, w)"
proof -
  let ?w = "w\<lparr>sw_pid := Some 42\<rparr>"
  from assms(2) have sc: "str_strip (sc_socket_path sc) \<noteq> []" "0 < sc_startup_timeout_seconds sc"
    by (auto simp: SupervisorConfig_post_init_def split: if_splits)
  have ready: "outcome (ready_round sim_env sc) (\<lambda>r (sv'', w'). w' = ?w \<and> (\<exists>st. r = Some st \<and> known st))
      (\<lambda>_ _. False) (sv', ?w)" if "sv_process sv' = Some 42" "sv_client sv' = Some client" for sv' client
    using sim_refresh [of ?w sv' client 42 sc] assms(1) that
    by (simp add: ready_round_def exec_simps poll_def) (simp add: sim_env_def exec_simps, elim outcome_mono, auto simp: exec_simps)
  have clock: "clk_monotonic (pair_clock (pe_clock sim_env)) (c, w') = (sw_time w', (c, w'))"
    for c :: SupervisorState and w'
    by (simp add: sim_env_def pair_clock_def)
  have waited: "outcome (wait_for_ready sim_env sc) (\<lambda>st (sv', w'). w' = ?w \<and> known st) (\<lambda>_ _. False) (sv', ?w)"
    if "sv_process sv' = Some 42" "sv_client sv' = Some client" for sv' client
  proof -
    from succeeds [OF ready [OF that]] obtain st sv'' where
      "ready_round sim_env sc (sv', ?w) = Some (Inr (Some st), sv'', ?w)" "known st" by auto
    with sc(2) show ?thesis
      by (simp add: wait_for_ready_def outcome_def bind_def read_clock_def step_def clock poll_loop.simps ret_def)
  qed
  have "pe_popen sim_env argv w = (Inr 42, ?w)" for argv by (simp add: sim_env_def)
  moreover have "sc_socket_path sc \<noteq> []" using sc(1) by (auto simp: str_strip_def)
  ultimately show ?thesis
    by (simp add: launch_def exec_simps update_def DpdkClient_init_def)
      (rule outcome_mono [OF waited], auto simp: exec_simps)
qed

lemma sim_stop:
  "outcome (supervisor_stop sim_env sc) (\<lambda>_ (sv', w'). sv' = initial_supervisor \<and> sw_time w' = sw_time w)
     (\<lambda>_ _. False) (sv, w)"
  by (cases "sv_process sv")
    (auto simp: supervisor_stop_def stop_locked_def exec_simps update_def Let_def clear_history_def initial_supervisor_def
      poll_def consume_stderr_def terminate_process_def signal_def wait_for_exit_def sim_env_def)

section \<open>The environment\<close>

definition smooth_env :: "sim_world controller_env" where
  "smooth_env = \<lparr>ce_process = sim_env, ce_run = smooth_run, ce_load_topology = (\<lambda>path. ret linear_lab)\<rparr>"

interpretation smooth: controller_world smooth_env lab_config
  by unfold_locales (simp_all add: smooth_env_def sim_env_def sim_codec_sound lab_config_ok)

abbreviation lab_view :: ValidatedTopologyConfig where
  "lab_view \<equiv> validated_view linear_lab (default_profile 2)"

definition ready :: "ControllerRuntime \<times> sim_world \<Rightarrow> bool" where
  "ready rw \<longleftrightarrow> wired lab_config (fst rw) \<and> 1 \<le> sw_time (snd rw)"

lemma lab_configured:
  "\<exists>sc. configured lab_config lab_view = Inr sc \<and> SupervisorConfig_post_init sc = Inr sc"
proof -
  have names: "str_strip (config_dpdk_namespace linear_lab) \<noteq> []"
    "\<forall>p \<in> set (tc_dpdk_ports linear_lab). str_strip (dp_name p) \<noteq> []"
    by (simp_all add: linear_lab_def config_dpdk_namespace_def default_request_def str_strip_def char_isspace_def)
  have "set (filter P xs) \<subseteq> set xs" for P and xs :: "DpdkPortModel list" by auto
  then have ports: "str_strip (dp_name p) \<noteq> []" if "filter P (tc_dpdk_ports linear_lab) = [p]" for P p
    using names(2) that by (metis list.set_intros(1) subsetD)
  obtain sc where "configured lab_config lab_view = Inr sc"
    using configured_accepted [OF linear_lab_valid lab_config_ok] names(1) ports
    by (cases "configured lab_config lab_view") (auto simp: Let_def)
  moreover from this have "SupervisorConfig_post_init sc = Inr sc"
    by (auto simp: configured_def dest: build_supervisor_config_ok split: sum.splits)
  ultimately show ?thesis by blast
qed

lemma outcome_on_supervisor:
  "outcome (on_supervisor call su) Q E (rt, w) \<longleftrightarrow>
     outcome (call (su_config su))
       (\<lambda>x (sv, w'). Q x (rt\<lparr>rt_supervisor := Some (su\<lparr>su_state := sv\<rparr>)\<rparr>, w'))
       (\<lambda>e (sv, w'). E e (rt\<lparr>rt_supervisor := Some (su\<lparr>su_state := sv\<rparr>)\<rparr>, w')) (su_state su, w)"
  by (auto simp: outcome_def on_supervisor_def split: option.splits sum.splits)

lemma sim_start:
  assumes "1 \<le> sw_time w" and "SupervisorConfig_post_init sc = Inr sc"
  shows "outcome (on_supervisor (supervisor_start sim_env) \<lparr>su_config = sc, su_state = initial_supervisor\<rparr>)
      (\<lambda>st rw. 1 \<le> sw_time (snd rw) \<and> known st) (\<lambda>_ _. False) (rt, w)"
proof -
  have "outcome (supervisor_start sim_env sc) (\<lambda>st (sv, w'). 1 \<le> sw_time w' \<and> known st) (\<lambda>_ _. False)
      (initial_supervisor, w)"
    unfolding supervisor_start_def
    by (simp add: exec_simps initial_supervisor_def) (rule outcome_mono [OF sim_launch [OF assms]], use assms in auto)
  then show ?thesis by (simp add: outcome_on_supervisor) (erule outcome_mono, auto)
qed

lemma ready_preserved:
  assumes "outcome m (\<lambda>x rw. Q x rw \<and> 1 \<le> sw_time (snd rw)) (\<lambda>_ _. False) (rt, w)"
    and "safely m (\<lambda>_ (rt', w'). wired lab_config rt' \<and> P rt') (\<lambda>_ (rt', w'). wired lab_config rt' \<and> P' rt') (rt, w)"
  shows "outcome m (\<lambda>x rw. Q x rw \<and> ready rw \<and> P (fst rw)) (\<lambda>_ _. False) (rt, w)"
  by (rule outcome_mono [OF outcome_safely_conj [OF assms]]) (auto simp: ready_def)

lemma stop_ready:
  assumes "ready (rt, w)"
  shows "outcome (stop_supervisor smooth_env) (\<lambda>_ rw. ready rw \<and> idle (fst rw)) (\<lambda>_ _. False) (rt, w)"
proof -
  have "outcome (stop_supervisor smooth_env) (\<lambda>_ rw. True \<and> 1 \<le> sw_time (snd rw)) (\<lambda>_ _. False) (rt, w)"
    using assms
    by (auto simp: stop_supervisor_def exec_simps ready_def outcome_on_supervisor smooth_env_def split: option.split
        intro!: outcome_mono [OF sim_stop])
  moreover have "safely (stop_supervisor smooth_env) (\<lambda>_ (rt', w'). wired lab_config rt' \<and> idle rt')
      (\<lambda>_ (rt', w'). wired lab_config rt' \<and> True) (rt, w)"
    by (rule safely_mono [OF stop_supervisor_ends [where cfg = lab_config]]) (use assms in \<open>auto simp: ready_def\<close>)
  ultimately have "outcome (stop_supervisor smooth_env) (\<lambda>_ rw. True \<and> ready rw \<and> idle (fst rw)) (\<lambda>_ _. False) (rt, w)"
    by (rule ready_preserved)
  then show ?thesis by simp
qed

lemma start_ready:
  assumes "ready (rt, w)"
  shows "outcome (start_topology_datapath smooth_env lab_config lab_view) (\<lambda>_. ready) (\<lambda>_ _. False) (rt, w)"
proof -
  obtain sc where sc: "configured lab_config lab_view = Inr sc" "SupervisorConfig_post_init sc = Inr sc"
    using lab_configured by blast
  note launched = sim_start [OF _ sc(2)]
  have "outcome (start_topology_datapath smooth_env lab_config lab_view) (\<lambda>_ rw. True \<and> 1 \<le> sw_time (snd rw))
      (\<lambda>_ _. False) (rt, w)"
    unfolding start_topology_datapath_configured sc(1) Let_def
  proof (simp add: lab_config_def outcome_then [where m = "stop_supervisor _"], rule outcome_mono [OF stop_ready [OF assms]], goal_cases)
    case (1 u rw)
    then show ?case
      by (cases rw) (simp add: exec_simps smooth_env_def ready_def, auto intro: outcome_mono [OF launched])
  qed
  moreover have "safely (start_topology_datapath smooth_env lab_config lab_view)
      (\<lambda>_ (rt', w'). wired lab_config rt' \<and> True) (\<lambda>_ (rt', w'). wired lab_config rt' \<and> True) (rt, w)"
    by (rule safely_mono [OF start_topology_datapath_safely [OF smooth.sound]]) (use assms in \<open>auto simp: ready_def\<close>)
  ultimately have "outcome (start_topology_datapath smooth_env lab_config lab_view)
      (\<lambda>_ rw. True \<and> ready rw \<and> True) (\<lambda>_ _. False) (rt, w)" by (rule ready_preserved)
  then show ?thesis by simp
qed

section \<open>Building and removing the lab\<close>

lemma ready_smooth: "smooth m \<Longrightarrow> ready rw \<Longrightarrow> outcome m (\<lambda>_. ready) (\<lambda>_ _. False) rw"
  by (rule outcome_mono [OF smooth_outcome]) auto

abbreviation smooth_manager :: "(ControllerRuntime \<times> sim_world) manager" where
  "smooth_manager \<equiv> controller_manager smooth_env lab_config"

lemma smooth_manager_host [simp]:
  "tm_run smooth_manager = smooth_run" "still (tm_clock smooth_manager)" "0 < tm_tap_timeout_seconds smooth_manager"
  "0 < tm_tap_poll_interval_seconds smooth_manager"
  "start_datapath_locked smooth_manager = start_topology_datapath smooth_env lab_config"
  "stop_datapath_locked smooth_manager = stop_supervisor smooth_env"
  by (simp_all add: controller_manager_def smooth_env_def pair_smooth_run still_def pair_clock_def sim_env_def
      start_datapath_locked_def stop_datapath_locked_def stop_topology_datapath_def fun_eq_iff)

lemma lab_taps: "smooth (reconcile_taps smooth_run (tm_clock smooth_manager) (tm_tap_timeout_seconds smooth_manager)
    (tm_tap_poll_interval_seconds smooth_manager) lab_view)"
  by (rule smooth_taps) (simp_all add: port_name_for_role_def linear_lab_def validated_view_def)

lemma build_ready:
  assumes "ready rw"
  shows "outcome (build_topology smooth_manager lab_view) (\<lambda>_. ready) (\<lambda>_ _. False) rw"
proof -
  have rest: "smooth (then_do (reconcile_taps smooth_run (tm_clock smooth_manager) (tm_tap_timeout_seconds smooth_manager)
      (tm_tap_poll_interval_seconds smooth_manager) lab_view) (then_do (bring_link_endpoints_up smooth_run lab_view)
      (then_do (ensure_routes smooth_run lab_view) (ret st))))" for st :: DatapathProcessStatus
    by (intro smooth_intros lab_taps)
  have start: "outcome (bind (start_topology_datapath smooth_env lab_config lab_view) (\<lambda>st.
      then_do (reconcile_taps smooth_run (tm_clock smooth_manager) (tm_tap_timeout_seconds smooth_manager)
        (tm_tap_poll_interval_seconds smooth_manager) lab_view) (then_do (bring_link_endpoints_up smooth_run lab_view)
        (then_do (ensure_routes smooth_run lab_view) (ret st)))))
      (\<lambda>_. ready) (\<lambda>_ _. False) rw1" if "ready rw1" for rw1
    unfolding outcome_bind
    by (rule outcome_mono [OF start_ready [of "fst rw1" "snd rw1", unfolded prod.collapse, OF that]])
      (auto intro: ready_smooth [OF rest])
  show ?thesis
    unfolding build_topology_def smooth_manager_host
    by (rule outcome_then_inv [where G = ready, OF assms], erule ready_smooth [OF smooth_host(1)],
        rule outcome_then_inv [where G = ready], assumption, erule ready_smooth [OF smooth_host(2)],
        rule outcome_then_inv [where G = ready], assumption, erule ready_smooth [OF smooth_host(3)], erule start)
qed

lemma manager_apply_ready:
  assumes "ready rw"
  shows "outcome (manager_apply smooth_manager path)
    (\<lambda>result (c, rw'). c = Some \<lparr>at_config_path = path, at_validated = lab_view\<rparr> \<and> ready rw' \<and>
       (\<exists>running. result = operation_result Op_apply lab_view path True running ''topology applied''))
    (\<lambda>_ _. False) (None, rw)"
proof -
  have "tm_load_topology smooth_manager path rw = Some (Inr linear_lab, rw)"
    "tm_validate_topology smooth_manager linear_lab = Inr lab_view"
    by (simp_all add: controller_manager_def smooth_env_def on_snd_def ret_def linear_lab_valid)
  then have "outcome (tm_load_topology smooth_manager path) Q E rw \<longleftrightarrow> Q linear_lab rw"
    "tm_validate_topology smooth_manager linear_lab = Inr lab_view" for Q E
    by (simp_all add: outcome_def)
  then show ?thesis
    by (simp add: manager_apply_def exec_simps) (rule outcome_mono [OF build_ready [OF assms]], auto simp: exec_simps)
qed

lemma manager_destroy_ready:
  assumes "ready rw"
  shows "outcome (manager_destroy smooth_manager) (\<lambda>_ (c, rw'). c = None \<and> ready rw') (\<lambda>_ _. False) (c, rw)"
proof -
  have stop: "outcome (collect_error (stop_supervisor smooth_env)) (\<lambda>es rw'. es = [] \<and> ready rw') (\<lambda>_ _. False) rw"
    unfolding collect_error_def outcome_bind outcome_attempt
    by (rule outcome_mono [OF stop_ready [of "fst rw" "snd rw", unfolded prod.collapse, OF assms]])
      (auto simp: exec_simps)
  have "outcome (destroy_locked smooth_manager v) (\<lambda>_. ready) (\<lambda>_ _. False) rw" for v
    unfolding destroy_locked_def smooth_manager_host outcome_bind
    by (rule outcome_mono [OF stop], rule outcome_mono [OF smooth_collect_error [OF smooth_host(6)]],
        rule outcome_mono [OF smooth_collect_error [OF smooth_host(7)]]) (auto simp: exec_simps)
  then show ?thesis
    using assms by (cases c) (auto simp: manager_destroy_def exec_simps intro: outcome_mono)
qed

section \<open>Starting, and writing down results\<close>

lemma observed_known:
  assumes "known st"
  shows "\<exists>obs. observed_from_datapath rt st applied effective = Inr obs \<and> topology_applied obs = applied"
proof -
  obtain obs where "observed_from_datapath rt st applied effective = Inr obs"
    using assms by (cases "ps_health st"; cases "ps_pid st") (auto simp: observed_from_datapath_def known_def
        ObservedState_post_init_def status_good_def validate_optional_non_negative_def
        validate_optional_positive_def HealthStateModel_ok_def)
  then show ?thesis by (auto simp: observed_from_datapath_def dest: observed_post_init)
qed

lemma outcome_observe:
  assumes "known st"
  shows "outcome (observe st applied effective)
    (\<lambda>_ rw. (\<exists>obs. fst rw = rt\<lparr>rt_observed_state := obs\<rparr> \<and> topology_applied obs = applied) \<and> snd rw = w)
    (\<lambda>_ _. False) (rt, w)"
  using observed_known [OF assms, of rt applied effective] by (auto simp: observe_def exec_simps)

lemma start_succeeds:
  assumes "1 \<le> sw_time w"
  shows "\<exists>rt rt' w'. controller_init lab_config None = Inr rt \<and>
    perform smooth_env lab_config Start (None, rt, w) = Some (Inr (), None, rt', w') \<and>
    rt_started rt' \<and> 1 \<le> sw_time w'"
proof -
  obtain sc where sc: "build_supervisor_config lab_config None [] = Inr sc"
    by (simp add: build_supervisor_config_def SupervisorConfig_post_init_def lab_config_def str_strip_def char_isspace_def)
  let ?su = "\<lparr>su_config = sc, su_state = initial_supervisor\<rparr>"
  obtain rt where rt: "controller_init lab_config None = Inr rt" "\<not> rt_started rt" "rt_supervisor rt = Some ?su"
    using sc by (auto simp: controller_init_def Let_def lab_config_def)
  have rest: "outcome (then_do (observe_same_topology st) (then_do (modify (\<lambda>rt. rt\<lparr>rt_started := True\<rparr>)) (recompute lab_config st)))
      (\<lambda>_ rw. rt_started (fst rw) \<and> 1 \<le> sw_time (snd rw)) (\<lambda>_ _. False) rw"
    if "1 \<le> sw_time (snd rw)" "known st" for st rw
    unfolding observe_same_topology_def outcome_then outcome_bind
    by (cases rw) (simp add: exec_simps, rule outcome_mono [OF outcome_observe [OF that(2)]],
        use that(1) in \<open>auto simp: exec_simps recompute_def recompute_controller_health_def set_health_def
          split: option.split\<close>)
  have "outcome (runtime_start smooth_env lab_config) (\<lambda>_ rw. rt_started (fst rw) \<and> 1 \<le> sw_time (snd rw))
      (\<lambda>_ _. False) (rt, w)"
    using rt(2,3) by (simp add: runtime_start_def exec_simps smooth_env_def)
      (rule outcome_mono [OF sim_start [OF assms build_supervisor_config_ok [OF sc, THEN conjunct1]]], use rest in \<open>auto simp: exec_simps\<close>)
  from succeeds [OF this] rt(1) show ?thesis
    by (auto simp: controller_start_def on_snd_def)
qed

lemma idle_status_known:
  assumes "wired lab_config rt" and "idle rt"
  shows "outcome (current_datapath_status smooth_env lab_config) (\<lambda>st rw. fst rw = rt \<and> known st) (\<lambda>_ _. False) (rt, w)"
  by (rule outcome_mono [OF safely_always [OF always_controller(1) smooth.idle_status [OF assms]]])
    (auto simp: known_def)

lemma idle_recorded:
  assumes "wired lab_config rt" and "idle rt"
  shows "outcome (bind (current_datapath_status smooth_env lab_config) (\<lambda>st.
        then_do (observe st applied effective) (recompute lab_config st)))
    (\<lambda>_ rw. topology_applied (rt_observed_state (fst rw)) = applied \<and>
       rt_desired_state (fst rw) = rt_desired_state rt \<and> idle (fst rw)) (\<lambda>_ _. False) (rt, w)"
  unfolding outcome_bind
proof (rule outcome_mono [OF idle_status_known [OF assms]], goal_cases)
  case (1 st rw)
  then obtain w1 where st: "known st" "rw = (rt, w1)" by (cases rw) auto
  show ?case
    unfolding outcome_then st(2)
    by (rule outcome_mono [OF outcome_observe [OF st(1)]]) (use assms(2) in \<open>auto simp: exec_simps recompute_def
        recompute_controller_health_def set_health_def idle_def split: option.split prod.splits\<close>)
qed simp

lemma destroy_recorded_idle:
  assumes "ready rw" and "idle (fst rw)"
  shows "outcome (destroy_recorded smooth_env lab_config) (\<lambda>_ rw'. idle (fst rw')) (\<lambda>_ _. False) rw"
  by (cases rw) (simp add: destroy_recorded_def set_override_def outcome_then [where m = "modify _"] outcome_modify,
        rule outcome_mono [OF idle_recorded], use assms in \<open>auto simp: ready_def idle_def\<close>)

lemma destroy_ready:
  assumes "ready (rt, w)"
  shows "outcome (destroy_topology smooth_env lab_config) (\<lambda>_ s. True) (\<lambda>_ _. False) (c, rt, w)"
proof -
  let ?rt = "begin_operation CS_reconciling ''destroying topology'' rt"
  have ended: "outcome (then_do (on_snd (stop_topology_datapath smooth_env))
      (then_do (on_snd (destroy_recorded smooth_env lab_config)) (ret result))) (\<lambda>_ _. True) (\<lambda>_ _. False) (c', rw)"
    if "ready rw" for result :: TopologyOperationResult and c' rw
    unfolding stop_topology_datapath_def outcome_then outcome_on_snd
    by (rule outcome_mono [OF stop_ready [of "fst rw" "snd rw", unfolded prod.collapse, OF that]])
      (auto simp: exec_simps intro: outcome_mono [OF destroy_recorded_idle])
  have "ready (?rt, w)" using assms by (simp add: ready_def)
  then have "outcome (manager_destroy smooth_manager)
      (\<lambda>result. outcome (then_do (on_snd (stop_topology_datapath smooth_env))
          (then_do (on_snd (destroy_recorded smooth_env lab_config)) (ret result))) (\<lambda>_ s. True) (\<lambda>_ _. False))
      (\<lambda>_ _. False) (c, ?rt, w)"
    by (intro outcome_mono [OF manager_destroy_ready]) (auto intro: ended)
  then show ?thesis
    by (simp add: destroy_topology_def outcome_then [where m = "on_snd (modify _)"] outcome_on_snd outcome_modify
        outcome_bind outcome_attempt) (erule outcome_mono, simp_all)
qed

lemma apply_recorded_idle:
  assumes "wired lab_config rt" and "idle rt" and "str_strip path \<noteq> []"
  shows "outcome (apply_recorded smooth_env lab_config (operation_result Op_apply lab_view path True running msg))
    (\<lambda>_ rw. topology_applied (rt_observed_state (fst rw)) \<and> desired_datapath_running (rt_desired_state (fst rw)) \<and>
       idle (fst rw)) (\<lambda>_ _. False) (rt, w)"
proof -
  have "DesiredState_post_init \<lparr>topology_config_path = Some path,
      topology_name = Some (lab_name (tc_lab (vt_topology lab_view))), desired_rules_version = None,
      requested_dpdk_config = r, desired_controller_state = CS_running, desired_datapath_running = True\<rparr> =
      Inr \<lparr>topology_config_path = Some path,
      topology_name = Some (lab_name (tc_lab (vt_topology lab_view))), desired_rules_version = None,
      requested_dpdk_config = r, desired_controller_state = CS_running, desired_datapath_running = True\<rparr>" for r
    using assms(3) by (simp add: DesiredState_post_init_def validate_optional_text_def validated_view_def linear_lab_def
        str_strip_def char_isspace_def)
  then show ?thesis
    by (simp add: apply_recorded_def operation_result_def set_override_def outcome_then [where m = "modify _"]
        outcome_modify outcome_bind [where m = "lift_sum _"] outcome_lift_sum)
      (rule outcome_mono [OF idle_recorded], use assms in \<open>auto simp: idle_def\<close>)
qed

section \<open>Two requests\<close>

abbreviation lab_path :: string where
  "lab_path \<equiv> ''linear.yaml''"

abbreviation lab_applied :: current where
  "lab_applied \<equiv> Some \<lparr>at_config_path = lab_path, at_validated = lab_view\<rparr>"

lemma lab_path_ok: "str_strip lab_path \<noteq> []"
  by (simp add: str_strip_def char_isspace_def)

lemma started_controller:
  "\<exists>rt w. reachable smooth_env lab_config (None, rt, w) \<and> rt_started rt \<and> ready (rt, w)"
proof -
  obtain rt rt0 w0 where init: "controller_init lab_config None = Inr rt" and
    start: "perform smooth_env lab_config Start (None, rt, \<lparr>sw_time = 1, sw_pid = None\<rparr>) = Some (Inr (), None, rt0, w0)"
    and started: "rt_started rt0" "1 \<le> sw_time w0"
    using start_succeeds [of "\<lparr>sw_time = 1, sw_pid = None\<rparr>"] by auto
  have r0: "reachable smooth_env lab_config (None, rt0, w0)"
    by (rule reachable.performed [OF reachable.created [OF init] start])
  with started smooth.reachable_inv [OF r0] show ?thesis
    by (auto simp: ready_def smooth.controller_inv_def runtime_inv_def)
qed

text \<open>A thread of a pool that begins to apply the lab and comes out of the manager.\<close>

lemma lab_applies:
  assumes "ready (rt, w)" and "i < length ps" and "ps ! i = Quiet"
    and "\<And>j. j < length ps \<Longrightarrow> j \<noteq> i \<Longrightarrow> \<not> managing (ps ! j)"
  shows "\<exists>rt' w' running. let result = operation_result Op_apply lab_view lab_path True running ''topology applied'' in
     ready (rt', w') \<and>
     then_do (on_snd (modify (begin_operation CS_reconciling (''applying topology from '' @ lab_path))))
       (manager_apply smooth_manager lab_path) (None, rt, w) = Some (Inr result, lab_applied, rt', w') \<and>
     (together smooth_env lab_config)\<^sup>*\<^sup>* (ps, None, rt, w) (ps[i := Applied result], lab_applied, rt', w')"
proof -
  let ?b = "begin_operation CS_reconciling (''applying topology from '' @ lab_path)"
  let ?result = "\<lambda>running. operation_result Op_apply lab_view lab_path True running ''topology applied''"
  have "ready (?b rt, w)" using assms(1) by (simp add: ready_def)
  from succeeds [OF manager_apply_ready [OF this, of lab_path]] obtain rt' w' running where
    applied: "manager_apply smooth_manager lab_path (None, ?b rt, w) =
      Some (Inr (?result running), lab_applied, rt', w')" and "ready (rt', w')"
    by auto
  have started_op: "on_snd (modify ?b) (None, rt, w) = Some (Inr (), None, ?b rt, w)"
    by (simp add: on_snd_def modify_def bind_def get_fst_def put_fst_def)
  from safely_run [OF manager_apply_walks [OF reached_step [OF reached_refl
          advance.begin_apply [OF lab_path_ok started_op]]] applied]
  have "reached smooth_env lab_config (None, rt, w) (Applied (?result running)) (lab_applied, rt', w')" by simp
  note reached_pool [OF this assms(2-4)]
  moreover have "then_do (on_snd (modify ?b)) (manager_apply smooth_manager lab_path) (None, rt, w) =
      Some (Inr (?result running), lab_applied, rt', w')"
    unfolding then_do_def bind_def started_op using applied by simp
  ultimately show ?thesis
    using \<open>ready (rt', w')\<close> unfolding Let_def by (intro exI [of _ rt'] exI [of _ w'] exI [of _ running]) simp
qed

lemma second_destroys:
  assumes "ready (rt, w)"
  shows "\<exists>result rt' w'. destroy_topology smooth_env lab_config (c, rt, w) = Some (Inr result, None, rt', w') \<and>
     idle rt' \<and> (together smooth_env lab_config)\<^sup>*\<^sup>* ([Applied r, Quiet], c, rt, w) ([Applied r, Quiet], None, rt', w')"
proof -
  from succeeds [OF destroy_ready [OF assms, of c]] obtain result s where
    destroy: "destroy_topology smooth_env lab_config (c, rt, w) = Some (Inr result, s)" by blast
  from safely_run [OF destroy_walks destroy] have "reached smooth_env lab_config (c, rt, w) Quiet s" by simp
  from reached_pool [OF this, of 1 "[Applied r, Quiet]"]
  have run: "(together smooth_env lab_config)\<^sup>*\<^sup>* ([Applied r, Quiet], c, rt, w) ([Applied r, Quiet], s)"
    by (simp add: less_Suc_eq)
  have "wired lab_config rt" using assms by (simp add: ready_def)
  from safely_run [OF smooth.destroy_ends [OF this] destroy] obtain rt' w' where "s = (None, rt', w')" "idle rt'"
    by (cases s) auto
  with destroy run show ?thesis by blast
qed

text \<open>A thread of a pool that finds nothing to destroy and comes out of the manager.\<close>

lemma nothing_to_destroy:
  assumes "i < length ps" and "ps ! i = Quiet" and "\<And>j. j < length ps \<Longrightarrow> j \<noteq> i \<Longrightarrow> \<not> managing (ps ! j)"
    and rt'_def: "rt' = begin_operation CS_reconciling ''destroying topology'' rt"
  shows "then_do (on_snd (modify (begin_operation CS_reconciling ''destroying topology'')))
       (manager_destroy (controller_manager env cfg)) (None, rt, w) = Some (Inr nothing_applied, None, rt', w)"
    "(together env cfg)\<^sup>*\<^sup>* (ps, None, rt, w) (ps[i := Destroyed], None, rt', w)"
proof -
  let ?b = "begin_operation CS_reconciling ''destroying topology''"
  have started_op: "on_snd (modify ?b) (None, rt, w) = Some (Inr (), None, rt', w)"
    by (simp add: on_snd_def modify_def bind_def get_fst_def put_fst_def rt'_def)
  have destroyed: "manager_destroy (controller_manager env cfg) (None, rt', w) = Some (Inr nothing_applied, None, rt', w)"
    by (simp add: manager_destroy_def bind_def get_fst_def ret_def)
  then show "then_do (on_snd (modify ?b)) (manager_destroy (controller_manager env cfg)) (None, rt, w) =
      Some (Inr nothing_applied, None, rt', w)"
    unfolding then_do_def bind_def started_op by simp
  from safely_run [OF manager_destroy_walks [OF reached_step [OF reached_refl advance.begin_destroy [OF started_op]]] destroyed]
  have "reached env cfg (None, rt, w) Destroyed (None, rt', w)" by simp
  from reached_pool [OF this assms(1-3)] show "(together env cfg)\<^sup>*\<^sup>* (ps, None, rt, w) (ps[i := Destroyed], None, rt', w)" .
qed

text \<open>The end of a destroy request, in a pool, while another request has applied the lab.\<close>

lemma late_stop:
  assumes "ready (rt, w)"
  shows "\<exists>s rt' w'. on_snd (stop_topology_datapath smooth_env) (c, rt, w) = Some (Inr (), s) \<and>
     on_snd (destroy_recorded smooth_env lab_config) s = Some (Inr (), c, rt', w') \<and> idle rt' \<and>
     (together smooth_env lab_config)\<^sup>*\<^sup>* ([Destroyed, p], c, rt, w) ([Quiet, p], c, rt', w')"
proof -
  from succeeds [OF stop_ready [OF assms]] obtain rw1 where
    "on_snd (stop_topology_datapath smooth_env) (c, rt, w) = Some (Inr (), c, rw1)" "ready rw1" "idle (fst rw1)"
    by (auto simp: on_snd_def stop_topology_datapath_def)
  moreover from succeeds [OF destroy_recorded_idle [OF this(2,3)]] obtain rt' w' where
    "on_snd (destroy_recorded smooth_env lab_config) (c, rw1) = Some (Inr (), c, rt', w')" "idle rt'"
    by (auto simp: on_snd_def)
  moreover have "together smooth_env lab_config ([Destroyed, p], c, rt, w) ([Destroyed, p][0 := Halted], c, rw1)"
    by (rule together.thread) (simp_all add: advance.halted [OF calculation(1)])
  moreover have "together smooth_env lab_config ([Halted, p], c, rw1) ([Halted, p][0 := Quiet], c, rt', w')"
    by (rule together.thread) (simp_all add: advance.destroy_recorded [OF calculation(4)])
  ultimately show ?thesis by (auto intro: rtranclp.rtrancl_into_rtrancl)
qed

section \<open>Properties\<close>

text \<open>C16. The manager's lock does not make a change of the topology one step: on a host on which nothing
  fails and from a started controller, a request applies a topology, a second one destroys it and writes down
  its result while the first is still on its way to the controller's lock, and then the first writes down
  its own. Both return normally, no request is left, and the controller reports an applied topology and
  wants its datapath to run, though the manager has no topology and no datapath process is left.\<close>

theorem record_after_destroy:
  "\<exists>s0 c1 rt1 w1 s2 rt3 w3 result destroy_result.
     reachable smooth_env lab_config s0 \<and> rt_started (fst (snd s0)) \<and>
     then_do (on_snd (modify (begin_operation CS_reconciling (''applying topology from '' @ ''linear.yaml''))))
       (manager_apply (controller_manager smooth_env lab_config) ''linear.yaml'') s0 = Some (Inr result, c1, rt1, w1) \<and>
     (together smooth_env lab_config)\<^sup>*\<^sup>* ([Quiet, Quiet], s0) ([Applied result, Quiet], c1, rt1, w1) \<and>
     destroy_topology smooth_env lab_config (c1, rt1, w1) = Some (Inr destroy_result, s2) \<and>
     (together smooth_env lab_config)\<^sup>*\<^sup>* ([Applied result, Quiet], c1, rt1, w1) ([Applied result, Quiet], s2) \<and>
     on_snd (apply_recorded smooth_env lab_config result) s2 = Some (Inr (), None, rt3, w3) \<and>
     together smooth_env lab_config ([Applied result, Quiet], s2) ([Quiet, Quiet], None, rt3, w3) \<and>
     idle rt3 \<and> topology_applied (rt_observed_state rt3) \<and> desired_datapath_running (rt_desired_state rt3)"
proof -
  obtain rt0 w0 where r0: "reachable smooth_env lab_config (None, rt0, w0)" "rt_started rt0" "ready (rt0, w0)"
    using started_controller by blast
  from lab_applies [OF r0(3), of 0 "[Quiet, Quiet]"] obtain rt1 w1 running result where
    result: "result = operation_result Op_apply lab_view lab_path True running ''topology applied''"
    and one: "then_do (on_snd (modify (begin_operation CS_reconciling (''applying topology from '' @ lab_path))))
         (manager_apply smooth_manager lab_path) (None, rt0, w0) = Some (Inr result, lab_applied, rt1, w1)"
      "(together smooth_env lab_config)\<^sup>*\<^sup>* ([Quiet, Quiet], None, rt0, w0) ([Applied result, Quiet], lab_applied, rt1, w1)"
    and "ready (rt1, w1)"
    by (auto simp: Let_def less_Suc_eq)
  from second_destroys [OF this(4), of lab_applied result] obtain dres rt2 w2 where
    two: "destroy_topology smooth_env lab_config (lab_applied, rt1, w1) = Some (Inr dres, None, rt2, w2)"
      "(together smooth_env lab_config)\<^sup>*\<^sup>* ([Applied result, Quiet], lab_applied, rt1, w1)
        ([Applied result, Quiet], None, rt2, w2)" and "idle rt2" by blast
  have "wired lab_config rt2"
    using smooth.interleaved_inv [of 2 "(None, rt0, w0)" "[Applied result, Quiet]" "(None, rt2, w2)", OF _ smooth.reachable_inv [OF r0(1)]]
      rtranclp_trans [OF one(2) two(2)]
    by (simp add: numeral_2_eq_2 runtime_inv_def)
  from succeeds [OF apply_recorded_idle [OF this \<open>idle rt2\<close> lab_path_ok, of running "''topology applied''" w2]]
  obtain rt3 w3 where three: "on_snd (apply_recorded smooth_env lab_config result) (None :: current, rt2, w2) = Some (Inr (), None, rt3, w3)"
    "idle rt3" "topology_applied (rt_observed_state rt3)" "desired_datapath_running (rt_desired_state rt3)"
    by (auto simp: on_snd_def result)
  have "together smooth_env lab_config ([Applied result, Quiet], None, rt2, w2) ([Applied result, Quiet][0 := Quiet], None, rt3, w3)"
    by (rule together.thread) (simp_all add: advance.apply_recorded [OF three(1)])
  then have "together smooth_env lab_config ([Applied result, Quiet], None, rt2, w2) ([Quiet, Quiet], None, rt3, w3)" by simp
  moreover have "rt_started (fst (snd (None :: current, rt0, w0)))" using r0(2) by simp
  ultimately show ?thesis using r0(1) one two three by blast
qed

text \<open>Nor is the end of a destroy request safe: a request that found nothing to destroy gives the manager's
  lock back, a second one applies a topology, and then the first stops the datapath, which by now is the one
  the second request has started. Both return normally and the controller reports an applied topology with a
  datapath it wants to run, but its process has been stopped.\<close>

theorem late_stop_hits_new_datapath:
  "\<exists>s0 s1 s2 s3 s4 rt5 w5 result.
     reachable smooth_env lab_config s0 \<and> rt_started (fst (snd s0)) \<and>
     then_do (on_snd (modify (begin_operation CS_reconciling ''destroying topology'')))
       (manager_destroy (controller_manager smooth_env lab_config)) s0 = Some (Inr nothing_applied, s1) \<and>
     (together smooth_env lab_config)\<^sup>*\<^sup>* ([Quiet, Quiet], s0) ([Destroyed, Quiet], s1) \<and>
     then_do (on_snd (modify (begin_operation CS_reconciling (''applying topology from '' @ ''linear.yaml''))))
       (manager_apply (controller_manager smooth_env lab_config) ''linear.yaml'') s1 = Some (Inr result, s2) \<and>
     (together smooth_env lab_config)\<^sup>*\<^sup>* ([Destroyed, Quiet], s1) ([Destroyed, Applied result], s2) \<and>
     on_snd (stop_topology_datapath smooth_env) s2 = Some (Inr (), s3) \<and>
     on_snd (destroy_recorded smooth_env lab_config) s3 = Some (Inr (), s4) \<and>
     (together smooth_env lab_config)\<^sup>*\<^sup>* ([Destroyed, Applied result], s2) ([Quiet, Applied result], s4) \<and>
     on_snd (apply_recorded smooth_env lab_config result) s4 = Some (Inr (), lab_applied, rt5, w5) \<and>
     together smooth_env lab_config ([Quiet, Applied result], s4) ([Quiet, Quiet], lab_applied, rt5, w5) \<and>
     idle rt5 \<and> topology_applied (rt_observed_state rt5) \<and> desired_datapath_running (rt_desired_state rt5)"
proof -
  obtain rt0 w0 where r0: "reachable smooth_env lab_config (None, rt0, w0)" "rt_started rt0" "ready (rt0, w0)"
    using started_controller by blast
  define rt1 where "rt1 = begin_operation CS_reconciling ''destroying topology'' rt0"
  then have "ready (rt1, w0)" using r0(3) by (simp add: ready_def)
  have one: "then_do (on_snd (modify (begin_operation CS_reconciling ''destroying topology'')))
       (manager_destroy smooth_manager) (None, rt0, w0) = Some (Inr nothing_applied, None, rt1, w0)"
    "(together smooth_env lab_config)\<^sup>*\<^sup>* ([Quiet, Quiet], None, rt0, w0) ([Destroyed, Quiet], None, rt1, w0)"
    using nothing_to_destroy [of 0 "[Quiet, Quiet]" rt1 rt0] by (simp_all add: less_Suc_eq rt1_def)
  from lab_applies [OF \<open>ready (rt1, w0)\<close>, of 1 "[Destroyed, Quiet]"] obtain rt2 w2 running result where
    result: "result = operation_result Op_apply lab_view lab_path True running ''topology applied''"
    and two: "then_do (on_snd (modify (begin_operation CS_reconciling (''applying topology from '' @ lab_path))))
         (manager_apply smooth_manager lab_path) (None, rt1, w0) = Some (Inr result, lab_applied, rt2, w2)"
      "(together smooth_env lab_config)\<^sup>*\<^sup>* ([Destroyed, Quiet], None, rt1, w0) ([Destroyed, Applied result], lab_applied, rt2, w2)"
    and "ready (rt2, w2)"
    by (auto simp: Let_def less_Suc_eq)
  from late_stop [OF this(4), of lab_applied "Applied result"] obtain s3 rt4 w4 where
    three: "on_snd (stop_topology_datapath smooth_env) (lab_applied, rt2, w2) = Some (Inr (), s3)"
      "on_snd (destroy_recorded smooth_env lab_config) s3 = Some (Inr (), lab_applied, rt4, w4)"
      "(together smooth_env lab_config)\<^sup>*\<^sup>* ([Destroyed, Applied result], lab_applied, rt2, w2) ([Quiet, Applied result], lab_applied, rt4, w4)"
    and "idle rt4" by blast
  have "wired lab_config rt4"
    using smooth.interleaved_inv [of 2 "(None, rt0, w0)" "[Quiet, Applied result]" "(lab_applied, rt4, w4)",
        OF _ smooth.reachable_inv [OF r0(1)]] rtranclp_trans [OF rtranclp_trans [OF one(2) two(2)] three(3)]
    by (simp add: numeral_2_eq_2 runtime_inv_def)
  from succeeds [OF apply_recorded_idle [OF this \<open>idle rt4\<close> lab_path_ok, of running "''topology applied''" w4]]
  obtain rt5 w5 where four: "on_snd (apply_recorded smooth_env lab_config result) (lab_applied, rt4, w4) = Some (Inr (), lab_applied, rt5, w5)"
    "idle rt5" "topology_applied (rt_observed_state rt5)" "desired_datapath_running (rt_desired_state rt5)"
    by (auto simp: on_snd_def result)
  have "together smooth_env lab_config ([Quiet, Applied result], lab_applied, rt4, w4) ([Quiet, Applied result][1 := Quiet], lab_applied, rt5, w5)"
    by (rule together.thread) (simp_all add: advance.apply_recorded [OF four(1)])
  then have "together smooth_env lab_config ([Quiet, Applied result], lab_applied, rt4, w4) ([Quiet, Quiet], lab_applied, rt5, w5)" by simp
  moreover have "rt_started (fst (snd (None :: current, rt0, w0)))" using r0(2) by simp
  ultimately show ?thesis using r0(1) one two three four by blast
qed

end
