(* ===== verification/Spec2Isabelle.thy ===== *)
theory Spec2Isabelle
  imports Runtime_Policy Ctrl_State Config_Load Service Ctl_Api Ctl_Cli Ctrld_Main Launch Locking Races
begin

text \<open>
  pktlab: the controller \<open>pktlab-ctrld\<close> (\<open>src/ctrld/pktlab_ctrld\<close>) and its command-line tool
  \<open>pktlabctl\<close> (\<open>src/ctl/pktlabctl\<close>).

  \<^bold>\<open>The program.\<close> The controller reads a YAML description of a network lab, validates it and derives the
  runtime profile of the packet-processing daemon (\<open>config/\<close>, \<open>types.py\<close>). The topology manager
  (\<open>topology/\<close>) builds the lab with \<open>ip\<close> commands: namespaces, links, bridges, TAP interfaces, routes.
  In between it calls back into the controller runtime (\<open>app.py\<close>), which launches the daemon through a
  supervisor (\<open>process/supervisor.py\<close>). The supervisor talks to the daemon over a Unix socket with framed
  JSON (\<open>dpdk_client/\<close>). The runtime keeps a desired and an observed state (\<open>state/\<close>) and answers an HTTP
  API (\<open>api/\<close>), to which the tool sends one request per command (\<open>client.py\<close>, \<open>commands/\<close>) and prints
  the response (\<open>output.py\<close>). Both programs read their flags with argparse and take defaults from environment
  variables (\<open>main.py\<close>, \<open>cli.py\<close>).

  \<^bold>\<open>How code is modelled.\<close> Classes are records, enumerations are datatypes, with the names of the source.
  A pure function is a HOL function; a raise is \<open>Inl\<close> of an \<open>exn\<close> (\<open>Ctrl_Error\<close>), which has the project's
  errors and the Python exceptions the code can meet. Stateful code is a program of \<open>Py_Exec\<close>: from a
  state to the result or the exception and the new state, or to \<open>None\<close> when it does not return. The state
  of the manager is its current topology, of the supervisor its attributes, of the controller both, with
  the world behind them. \<open>outcome m Q E s\<close> says that \<open>m\<close> returns from \<open>s\<close>, normally with \<open>Q\<close> or raising
  with \<open>E\<close>; \<open>safely\<close> is the same without the promise to return; \<open>keeps\<close> and \<open>always\<close> are the two
  special cases the frame lemmas use. Python's \<open>int\<close> is \<open>int\<close>, a \<open>float\<close> that is only compared and added is
  \<open>rat\<close>, the one true division is modelled with its rounding to a double, IPv4 addresses and bytes are words.

  \<^bold>\<open>Parameters.\<close> What is not in the repository is an argument: the runner of system commands, the clock, the
  process table and the peer of the socket (\<open>process_env\<close>, \<open>controller_env\<close>), the YAML reader, the file
  system and the models pydantic builds (\<open>config_env\<close>, \<open>codec\<close>, \<open>pydantic\<close>), FastAPI (\<open>framework\<close>), httpx
  (\<open>ctl_env\<close>), the environment variables and the call of uvicorn (\<open>ctrld_main\<close>). What the theorems rely on is a locale: \<open>steady_clock\<close> (sleeping moves the clock on),
  \<open>ip_host\<close> and \<open>lab_host\<close> (what the \<open>ip\<close> commands do to namespaces and interfaces when they succeed, and
  leave alone), \<open>supervised\<close> (the process table), \<open>managed_lab\<close> (a datapath touches only interfaces of its
  own), \<open>controller_world\<close> (pydantic enforces what the models declare) and \<open>controller_host\<close> (all of these),
  \<open>scalar_reader\<close> (a JSON scalar of the declared type is read as it is). Each is interpreted: on a simulated
  host, clock and daemon in \<open>Lab_Lifecycle\<close>, \<open>Supervisor\<close> and \<open>Controller_Host\<close>, on the model's own
  definitions for the interfaces between components (\<open>issue_collector\<close>, \<open>round_up\<close>, \<open>untouched\<close>,
  \<open>kept_manager\<close>, \<open>document_loader\<close>, \<open>lock_order\<close>, \<open>tool_on_api\<close>).

  \<^bold>\<open>The theories.\<close>
  \<^item> \<open>Prelude\<close>: Python's \<open>str\<close> functions, printing of numbers, loops that collect issues.
  \<^item> \<open>Ctrl_Error\<close>, \<open>Ctrl_Types\<close>: \<open>error.py\<close>, \<open>types.py\<close>.
  \<^item> \<open>Runtime_Policy\<close>: the derivation of the runtime profile in \<open>config/validation.py\<close>. The accepted requests
    and their profiles are characterised exactly; the core-list parser agrees with a declarative reading
    and reads back what is printed; the two roundings are least upper bounds; the floating-point estimate is
    exact below its limit.
  \<^item> \<open>Ip_Address\<close>: the part of the \<open>ipaddress\<close> module validation calls. \<open>Topology_Validation\<close>: the rest of
    \<open>config/validation.py\<close>. A topology and a ruleset are accepted exactly under declarative conditions.
  \<^item> \<open>Config_Load\<close>: \<open>config/topology.py\<close>, \<open>config/rules.py\<close>; when loading succeeds and what its errors say.
  \<^item> \<open>Ctrl_State\<close>: \<open>state/\<close>; the reconcile plan is empty exactly when nothing is left to do, and ordered.
  \<^item> \<open>Ipc_Protocol\<close>: \<open>dpdk_client/\<close>; frames survive any cut of the stream, bounds and truncation are
    reported, typed calls have their contract.
  \<^item> \<open>Py_Exec\<close>, \<open>Frames\<close>: programs, total and partial correctness, frame rules.
  \<^item> \<open>Netns\<close>: \<open>util/\<close>; \<open>Topology_Ops\<close>: \<open>topology/namespaces.py\<close>, \<open>links.py\<close>, \<open>taps.py\<close>, \<open>routes.py\<close>;
    \<open>Topology_Manager\<close>, \<open>Manager_Frame\<close>: \<open>topology/manager.py\<close>, on a lawful host and in any environment.
  \<^item> \<open>Supervisor\<close>: \<open>process/supervisor.py\<close>; starting returns with a reachable process or none.
  \<^item> \<open>Lab_Lifecycle\<close>: validation and manager together: apply builds the validated lab, destroy removes it.
  \<^item> \<open>Controller\<close>: \<open>app.py\<close>, every method. \<open>Controller_Inv\<close>: reachable states and their invariant;
    \<open>Controller_Run\<close>: operations that return in any environment, and recovery; \<open>Controller_Host\<close>: the controller,
    the manager, the supervisor and the host together; \<open>Launch\<close>: the command line of the daemon.
  \<^item> \<open>Locking\<close>: the re-entrant locks of controller, manager and supervisor as skeletons of the methods, threads
    as an interleaving of their acquisitions; requests follow one order and never block each other for good,
    the final stop does not follow it.
  \<^item> \<open>Interleaving\<close>: requests that run at the same time, as steps of threads between which the controller's lock
    is free; every operation is such a run, and what of the invariant survives any interleaving. \<open>Races\<close>: on a host
    on which nothing fails, the two interleavings after which the recorded state is wrong.
  \<^item> \<open>Api_Models\<close>, \<open>Api\<close>: \<open>api/\<close>; routes show exactly what the operations did. \<open>Service\<close>: the application from
    start to stop.
  \<^item> \<open>Ctl_Client\<close>, \<open>Ctl_Output\<close>, \<open>Ctl_Commands\<close>: the tool. \<open>Ctl_Api\<close>: the tool against the API; it reads
    back every response, and its exit code tells whether the operation succeeded.
  \<^item> \<open>Py_Number\<close>: reading of \<open>int\<close> and \<open>float\<close> from text. \<open>Argparse\<close>: the part of argparse both programs use, from
    option prefixes and abbreviations to required arguments. \<open>Ctl_Cli\<close>: \<open>cli.py\<close> and \<open>main.py\<close> of the tool; every
    command line is handled, and every request has one. \<open>Ctrld_Main\<close>: \<open>main.py\<close> of the controller; it serves only
    a controller whose configuration is valid, and the flags reach it.

  \<^bold>\<open>Loops and bounds.\<close> No fuel is used. The loop that reads a frame terminates by the length of what is
  missing and of the stream; the core-list and digit loops are structural; the
  scan of a command line and its subcommands terminates by the number of arguments left. The polling loop and the loops
  that wait for readiness are partial functions into \<open>option\<close>: on a clock that moves on they are proved to
  return (\<open>wait_until_returns\<close>, \<open>start_ready_or_stopped\<close>, \<open>every_operation_returns\<close>). Frame lengths are
  bounded by the code's own limit of 16 KiB, read from a 32-bit big-endian header.

  \<^bold>\<open>Concurrency.\<close> In \<open>reachable\<close> and \<open>serve_all\<close> operations run one after the other and the world may change
  between them. \<open>Interleaving\<close> cuts the operations at the points where the controller's lock is released:
  \<open>advance\<close> is one critical section of a request, one change of the manager's attribute, or any work on the host,
  and \<open>together\<close> lets any thread take the next step, one of them at a time in the manager. The invariant of
  reachable states holds there too, but for its last part: that the observed state claims a topology only while
  the manager has one is true with one request at a time, and \<open>Races\<close> shows that with two it can fail. The start and
  the stop of the controller run with no request in flight. \<open>Locking\<close> has the interleaving of lock acquisitions
  for what concerns blocking.

  \<^bold>\<open>Not modelled.\<close> The texts argparse prints and the server loop of uvicorn. A startup timeout that is infinite or
  no number, beyond the point where the configuration accepts it (\<open>Unbounded_timeout\<close>). The packages \<open>capture\<close>,
  \<open>logging\<close>, \<open>metrics\<close>, \<open>scenario\<close> and the traffic helpers, which hold no code. The datapath daemon
  (\<open>src/dpdkd\<close>), C code on DPDK: it is the peer of the socket and of the command line. Of an IPv6 address only
  that a text is one, since the validation rejects it.
\<close>

end
